(* ===== verification/Trading_Prelude.thy ===== *)
theory Trading_Prelude
  imports Main "HOL-Library.Word" "HOL-Library.Signed_Division" "HOL-Library.AList"
    "HOL-Library.Multiset"
begin

text \<open>
  The shared vocabulary of the development.

  Integers. \<open>std::uint64_t\<close> values (sequence ids, time stamps, counters) are 64-bit words:
  their arithmetic wraps as in C++. \<open>std::int64_t\<close> values (prices, quantities, profit) are
  integers kept in range by \<open>wrap_i64\<close>: every addition, subtraction, negation and product of
  the code is one of the \<open>i64_*\<close> operations below. Signed overflow is undefined behaviour in
  C++; the model gives it the two's complement result of the target, and every theorem that
  speaks of exact quantities assumes the range in which no overflow happens.
  \<open>std::size_t\<close> values that count the elements of a container are natural numbers.

  Containers. \<open>std::unordered_map\<close> is an association list with distinct keys; the order of the
  list stands for the unspecified iteration order, and lemmas such as
  \<open>i64_sum_cong_mset\<close> show that what the code computes by iterating does not depend on it.
\<close>

type_synonym u64 = "64 word"
type_synonym u32 = "32 word"
type_synonym i64 = int
type_synonym usize = nat

named_theorems i64_simps \<open>identities that remove or move the wrap of signed 64-bit arithmetic\<close>
named_theorems al_simps \<open>lookups, keys and updates of association lists\<close>

section \<open>Signed 64-bit arithmetic\<close>

definition in_i64 :: "int \<Rightarrow> bool" where
  "in_i64 x \<longleftrightarrow> - (2 ^ 63) \<le> x \<and> x < 2 ^ 63"

definition wrap_i64 :: "int \<Rightarrow> i64" where
  "wrap_i64 x = (x + 2 ^ 63) mod 2 ^ 64 - 2 ^ 63"

definition i64_add :: "i64 \<Rightarrow> i64 \<Rightarrow> i64" where
  "i64_add a b = wrap_i64 (a + b)"

definition i64_sub :: "i64 \<Rightarrow> i64 \<Rightarrow> i64" where
  "i64_sub a b = wrap_i64 (a - b)"

definition i64_neg :: "i64 \<Rightarrow> i64" where
  "i64_neg a = wrap_i64 (- a)"

definition i64_mul :: "i64 \<Rightarrow> i64 \<Rightarrow> i64" where
  "i64_mul a b = wrap_i64 (a * b)"

text \<open>Integer division of C++ truncates towards zero (its divisor is never zero in the program).\<close>

definition cpp_quot :: "int \<Rightarrow> int \<Rightarrow> int" where
  "cpp_quot n d = (if (n < 0) = (d < 0) then \<bar>n\<bar> div \<bar>d\<bar> else - (\<bar>n\<bar> div \<bar>d\<bar>))"

definition i64_div :: "i64 \<Rightarrow> i64 \<Rightarrow> i64" where
  "i64_div a b = wrap_i64 (cpp_quot a b)"

lemmas i64_defs = i64_add_def i64_sub_def i64_neg_def i64_mul_def i64_div_def

lemma in_i64_wrap [simp]: "in_i64 (wrap_i64 x)"
  unfolding in_i64_def wrap_i64_def by (simp add: pos_mod_bound)

lemma wrap_in_range [i64_simps]: "in_i64 x \<Longrightarrow> wrap_i64 x = x"
  unfolding in_i64_def wrap_i64_def by simp

lemma wrap_0 [simp]: "wrap_i64 0 = 0"
  by (simp add: wrap_i64_def)

lemma wrap_mod: "wrap_i64 x mod 2 ^ 64 = x mod 2 ^ 64"
proof -
  have "wrap_i64 x mod 2 ^ 64 = ((x + 2 ^ 63) mod 2 ^ 64 - 2 ^ 63) mod 2 ^ 64"
    by (simp add: wrap_i64_def)
  also have "\<dots> = (x + 2 ^ 63 - 2 ^ 63) mod 2 ^ 64"
    by (rule mod_diff_left_eq)
  finally show ?thesis by simp
qed

text \<open>Two values that agree modulo \<open>2 ^ 64\<close> wrap to the same signed value, and conversely.\<close>

lemma wrap_cong: "x mod 2 ^ 64 = y mod 2 ^ 64 \<Longrightarrow> wrap_i64 x = wrap_i64 y"
  unfolding wrap_i64_def by (metis mod_add_left_eq)

lemma wrap_eq_iff: "wrap_i64 x = wrap_i64 y \<longleftrightarrow> x mod 2 ^ 64 = y mod 2 ^ 64"
  using wrap_cong wrap_mod by metis

lemma wrap_wrap [simp]: "wrap_i64 (wrap_i64 x) = wrap_i64 x"
  by (rule wrap_cong) (rule wrap_mod)

lemma wrap_add_left [i64_simps]: "wrap_i64 (wrap_i64 x + y) = wrap_i64 (x + y)"
  by (rule wrap_cong) (metis mod_add_left_eq wrap_mod)

lemma wrap_add_right [i64_simps]: "wrap_i64 (x + wrap_i64 y) = wrap_i64 (x + y)"
  by (rule wrap_cong) (metis mod_add_right_eq wrap_mod)

lemma wrap_diff_left [i64_simps]: "wrap_i64 (wrap_i64 x - y) = wrap_i64 (x - y)"
  by (rule wrap_cong) (metis mod_diff_left_eq wrap_mod)

lemma wrap_diff_right [i64_simps]: "wrap_i64 (x - wrap_i64 y) = wrap_i64 (x - y)"
  by (rule wrap_cong) (metis mod_diff_right_eq wrap_mod)

lemma wrap_minus [i64_simps]: "wrap_i64 (- wrap_i64 x) = wrap_i64 (- x)"
  by (rule wrap_cong) (metis mod_minus_eq wrap_mod)

lemma in_i64_ops [simp]:
  "in_i64 (i64_add a b)" "in_i64 (i64_sub a b)" "in_i64 (i64_neg a)" "in_i64 (i64_mul a b)"
  "in_i64 (i64_div a b)"
  by (simp_all add: i64_defs)

lemma i64_add_assoc: "i64_add (i64_add a b) c = i64_add a (i64_add b c)"
  by (simp add: i64_add_def i64_simps add.assoc)

lemma i64_add_commute: "i64_add a b = i64_add b a"
  by (simp add: i64_add_def add.commute)

lemma i64_add_left_commute: "i64_add a (i64_add b c) = i64_add b (i64_add a c)"
  by (metis i64_add_assoc i64_add_commute)

lemmas i64_add_ac = i64_add_assoc i64_add_commute i64_add_left_commute

section \<open>Accumulating over a container\<close>

text \<open>
  A loop \<open>for (x : xs) acc += f(x)\<close> on a signed accumulator. The loop body of the code is
  \<open>i64_acc\<close>; the lemmas say that it computes the wrapped sum and that the order of the
  elements does not matter.
\<close>

definition i64_acc :: "('a \<Rightarrow> i64) \<Rightarrow> 'a \<Rightarrow> i64 \<Rightarrow> i64" where
  "i64_acc f x acc = i64_add acc (f x)"

lemma fold_i64_acc: "wrap_i64 (fold (i64_acc f) xs acc) = wrap_i64 (acc + sum_list (map f xs))"
proof (induction xs arbitrary: acc)
  case Nil
  then show ?case by simp
next
  case (Cons x xs)
  have "wrap_i64 (fold (i64_acc f) (x # xs) acc) = wrap_i64 (i64_acc f x acc + sum_list (map f xs))"
    using Cons.IH by simp
  also have "\<dots> = wrap_i64 (acc + f x + sum_list (map f xs))"
    by (simp add: i64_acc_def i64_add_def i64_simps)
  finally show ?case by (simp add: add.assoc)
qed

lemma in_i64_fold_acc: "in_i64 acc \<Longrightarrow> in_i64 (fold (i64_acc f) xs acc)"
  by (induction xs arbitrary: acc) (simp_all add: i64_acc_def)

lemma fold_i64_acc_0: "fold (i64_acc f) xs 0 = wrap_i64 (sum_list (map f xs))"
  using fold_i64_acc [of f xs 0] in_i64_fold_acc [of 0 f xs] by (simp add: wrap_in_range in_i64_def)

lemma i64_sum_cong_mset:
  "mset xs = mset ys \<Longrightarrow> fold (i64_acc f) xs 0 = fold (i64_acc f) ys 0"
  unfolding fold_i64_acc_0 by (metis mset_map sum_mset_sum_list)

section \<open>Association lists\<close>

lemma map_of_upd [al_simps, simp]: "map_of (AList.update k v al) k' = (if k' = k then Some v else map_of al k')"
  by (simp add: update_conv')

lemma keys_upd [al_simps, simp]: "fst ` set (AList.update k v al) = insert k (fst ` set al)"
  by (simp add: dom_update)

lemma distinct_upd [al_simps, intro]: "distinct (map fst al) \<Longrightarrow> distinct (map fst (AList.update k v al))"
  by (rule distinct_update)

lemma map_of_in_keys [al_simps]: "k \<in> fst ` set al \<longleftrightarrow> map_of al k \<noteq> None"
  by (simp add: map_of_eq_None_iff)

lemma sum_list_upd:
  fixes f :: "'k \<times> 'v \<Rightarrow> int"
  shows "sum_list (map f (AList.update k v al)) =
    sum_list (map f al) - (case map_of al k of Some w \<Rightarrow> f (k, w) | None \<Rightarrow> 0) + f (k, v)"
  by (induction al) auto

lemma in_set_upd:
  assumes "distinct (map fst al)" "(k', w) \<in> set (AList.update k v al)"
  shows "(k' = k \<and> w = v) \<or> (k' \<noteq> k \<and> (k', w) \<in> set al)"
proof -
  have "map_of (AList.update k v al) k' = Some w"
    using assms distinct_upd by (metis map_of_eq_Some_iff)
  then show ?thesis using assms(1) by (auto split: if_splits dest: map_of_SomeD)
qed

section \<open>Truncating division\<close>

text \<open>What the quotient of C++ leaves over, for a positive divisor.\<close>

lemma cpp_quot_pos: "0 \<le> a \<Longrightarrow> 0 < b \<Longrightarrow> cpp_quot a b = a div b"
  by (simp add: cpp_quot_def)

lemma cpp_quot_neg: "a < 0 \<Longrightarrow> 0 < b \<Longrightarrow> cpp_quot a b = - ((- a) div b)"
  by (simp add: cpp_quot_def)

lemma cpp_quot_remainder:
  assumes "0 < b"
  shows "\<bar>a - b * cpp_quot a b\<bar> < b"
proof (cases "0 \<le> a")
  case True
  then have "a - b * cpp_quot a b = a mod b"
    using assms by (simp add: cpp_quot_pos minus_mult_div_eq_mod)
  with assms show ?thesis by simp
next
  case False
  then have "a - b * cpp_quot a b = - ((- a) mod b)"
    using assms by (simp add: cpp_quot_neg minus_mult_div_eq_mod [symmetric])
  with assms show ?thesis by simp
qed

lemma cpp_quot_between:
  assumes "0 < b" "lo * b \<le> a" "a \<le> hi * b"
  shows "lo \<le> cpp_quot a b" "cpp_quot a b \<le> hi"
proof -
  have r: "\<bar>a - b * cpp_quot a b\<bar> < b" by (rule cpp_quot_remainder [OF assms(1)])
  have "lo * b < (cpp_quot a b + 1) * b"
    using r assms(2) by (simp add: algebra_simps)
  with assms(1) show "lo \<le> cpp_quot a b" by (simp add: mult_less_cancel_right)
  have "(cpp_quot a b - 1) * b < hi * b"
    using r assms(3) by (simp add: algebra_simps)
  with assms(1) show "cpp_quot a b \<le> hi" by (simp add: mult_less_cancel_right)
qed

end
