(* ===== verification/Spsc_Queue.thy ===== *)
theory Spsc_Queue
  imports Trading_Prelude
begin

text \<open>
  \<open>ingest/spsc_frame_queue.hpp\<close>: the ring buffer between the network thread and the pump. The
  atomic indices \<open>head_\<close> and \<open>tail_\<close> and the buffer are a record; \<open>size_t\<close> indices stay below the
  capacity, so they are natural numbers. The second half of the theory models the two threads
  at the granularity of their shared accesses.
\<close>

section \<open>The frame queue\<close>

record FrameRef =
  fr_recv_timestamp_ns :: u64
  fr_generation :: u64
  fr_mono_timestamp_ns :: u64
  fr_slot :: u32
  fr_payload_size :: u32

definition FrameRef_default :: FrameRef where
  "FrameRef_default = \<lparr> fr_recv_timestamp_ns = 0, fr_generation = 0, fr_mono_timestamp_ns = 0,
     fr_slot = 0, fr_payload_size = 0 \<rparr>"

record SpscFrameQueue =
  fq_head :: usize
  fq_capacity :: usize
  fq_buffer :: "FrameRef list"
  fq_tail :: usize

definition fq_kMinCapacity :: usize where
  "fq_kMinCapacity = 2"

definition SpscFrameQueue_new :: "usize \<Rightarrow> SpscFrameQueue" where
  "SpscFrameQueue_new capacity =
     (let cap = (if capacity < fq_kMinCapacity then fq_kMinCapacity else capacity)
      in \<lparr> fq_head = 0, fq_capacity = cap, fq_buffer = replicate cap FrameRef_default, fq_tail = 0 \<rparr>)"

definition fq_increment :: "SpscFrameQueue \<Rightarrow> usize \<Rightarrow> usize" where
  "fq_increment q index = (index + 1) mod fq_capacity q"

definition fq_try_push :: "SpscFrameQueue \<Rightarrow> FrameRef \<Rightarrow> SpscFrameQueue \<times> bool" where
  "fq_try_push q ref =
     (let head = fq_head q; next_head = fq_increment q head in
      if next_head = fq_tail q then (q, False)
      else (q\<lparr>fq_buffer := (fq_buffer q)[head := ref], fq_head := next_head\<rparr>, True))"

definition fq_try_pop :: "SpscFrameQueue \<Rightarrow> SpscFrameQueue \<times> FrameRef option" where
  "fq_try_pop q =
     (let tail = fq_tail q in
      if tail = fq_head q then (q, None)
      else (q\<lparr>fq_tail := fq_increment q tail\<rparr>, Some (fq_buffer q ! tail)))"

section \<open>Rings\<close>

text \<open>
  The contents of a ring with capacity \<open>c\<close>: the slots from the tail up to, but not including, the
  head. One slot always stays free, so a ring of capacity \<open>c\<close> holds at most \<open>c - 1\<close> items.
\<close>

definition ring_count :: "nat \<Rightarrow> nat \<Rightarrow> nat \<Rightarrow> nat" where
  "ring_count c h t = (h + c - t) mod c"

definition ring_items :: "nat \<Rightarrow> 'a list \<Rightarrow> nat \<Rightarrow> nat \<Rightarrow> 'a list" where
  "ring_items c buf h t = map (\<lambda>i. buf ! ((t + i) mod c)) [0..<ring_count c h t]"

definition ring_ok :: "nat \<Rightarrow> 'a list \<Rightarrow> nat \<Rightarrow> nat \<Rightarrow> bool" where
  "ring_ok c buf h t \<longleftrightarrow> 2 \<le> c \<and> length buf = c \<and> h < c \<and> t < c"

lemma length_ring_items [simp]: "length (ring_items c buf h t) = ring_count c h t"
  by (simp add: ring_items_def)

lemma ring_count_less: "0 < c \<Longrightarrow> ring_count c h t < c"
  by (simp add: ring_count_def)

lemma ring_count_0: "h < c \<Longrightarrow> t < c \<Longrightarrow> ring_count c h t = 0 \<longleftrightarrow> h = t"
  by (cases "t \<le> h") (auto simp: ring_count_def mod_if)

lemma ring_succ: "(i + 1) mod c = (if i + 1 = c then 0 else i + 1)" if "i < c" for i c :: nat
  using that by (auto simp: mod_if)

lemma ring_count_full:
  assumes "h < c" "t < c" "2 \<le> c"
  shows "(h + 1) mod c = t \<longleftrightarrow> ring_count c h t = c - 1"
  using assms by (cases "t \<le> h") (auto simp: ring_succ ring_count_def mod_if)

lemma ring_count_push:
  assumes "h < c" "t < c" "2 \<le> c" "(h + 1) mod c \<noteq> t"
  shows "ring_count c ((h + 1) mod c) t = ring_count c h t + 1"
  using assms by (cases "t \<le> h") (auto simp: ring_succ ring_count_def mod_if split: if_splits)

lemma ring_count_pop:
  assumes "h < c" "t < c" "2 \<le> c" "h \<noteq> t"
  shows "ring_count c h t = ring_count c h ((t + 1) mod c) + 1"
  using assms by (cases "t \<le> h") (auto simp: ring_succ ring_count_def mod_if split: if_splits)

lemma ring_index_head:
  assumes "h < c" "t < c"
  shows "(t + ring_count c h t) mod c = h"
  using assms by (cases "t \<le> h") (auto simp: ring_count_def mod_if)

text \<open>Writing the free slot at the head leaves the contents alone.\<close>

lemma ring_items_write_head:
  assumes "ring_ok c buf h t"
  shows "ring_items c (buf[h := x]) h t = ring_items c buf h t"
proof (unfold ring_items_def, rule map_cong [OF refl])
  fix i assume "i \<in> set [0..<ring_count c h t]"
  then have "i < ring_count c h t" by simp
  moreover have "ring_count c h t < c" using assms by (simp add: ring_ok_def ring_count_less)
  moreover have "(t + ring_count c h t) mod c = h"
    using assms by (simp add: ring_ok_def ring_index_head)
  ultimately have "(t + i) mod c \<noteq> h"
    using assms unfolding ring_ok_def by (auto simp: mod_if split: if_splits)
  then show "buf[h := x] ! ((t + i) mod c) = buf ! ((t + i) mod c)" by simp
qed

lemma ring_items_publish:
  assumes "ring_ok c buf h t" "(h + 1) mod c \<noteq> t"
  shows "ring_items c buf ((h + 1) mod c) t = ring_items c buf h t @ [buf ! h]"
  using assms ring_count_push [of h c t] ring_index_head [of h c t]
  by (simp add: ring_ok_def ring_items_def)

lemma ring_items_push:
  assumes "ring_ok c buf h t" "(h + 1) mod c \<noteq> t"
  shows "ring_items c (buf[h := x]) ((h + 1) mod c) t = ring_items c buf h t @ [x]"
proof -
  have "ring_ok c (buf[h := x]) h t" using assms(1) by (simp add: ring_ok_def)
  from ring_items_publish [OF this assms(2)] show ?thesis
    using assms(1) by (simp add: ring_items_write_head ring_ok_def)
qed

lemma ring_items_pop:
  assumes "ring_ok c buf h t" "h \<noteq> t"
  shows "ring_items c buf h t = buf ! t # ring_items c buf h ((t + 1) mod c)"
proof -
  have n: "ring_count c h t = Suc (ring_count c h ((t + 1) mod c))"
    using assms ring_count_pop by (auto simp: ring_ok_def)
  then show ?thesis
    using assms(1) unfolding ring_items_def n upt_conv_Cons [OF zero_less_Suc] map_Suc_upt [symmetric]
    by (simp add: ring_ok_def mod_add_left_eq)
qed

lemma ring_items_empty: "ring_ok c buf h t \<Longrightarrow> ring_items c buf h t = [] \<longleftrightarrow> h = t"
  by (simp add: ring_ok_def ring_count_0 flip: length_0_conv)

lemma ring_ok_step [simp]:
  "ring_ok c buf h t \<Longrightarrow> ring_ok c (buf[i := x]) h t"
  "ring_ok c buf h t \<Longrightarrow> ring_ok c buf (Suc h mod c) t"
  "ring_ok c buf h t \<Longrightarrow> ring_ok c buf h (Suc t mod c)"
  by (auto simp: ring_ok_def)

section \<open>Bounded FIFO queues\<close>

text \<open>
  The contract both rings of the system promise: a push appends at the end or is refused when the
  limit is reached, a pop takes the first item. Clients are verified against this interface.
\<close>

datatype 'a queue_op = Push 'a | Pop

locale bounded_fifo =
  fixes valid :: "'q \<Rightarrow> bool" and items :: "'q \<Rightarrow> 'a list" and limit :: "'q \<Rightarrow> nat"
    and push :: "'q \<Rightarrow> 'a \<Rightarrow> 'q \<times> bool" and pop :: "'q \<Rightarrow> 'q \<times> 'a option"
  assumes push_accepts: "valid q \<Longrightarrow> length (items q) < limit q \<Longrightarrow> snd (push q x) \<and>
      items (fst (push q x)) = items q @ [x] \<and> valid (fst (push q x)) \<and> limit (fst (push q x)) = limit q"
    and push_refuses: "valid q \<Longrightarrow> limit q \<le> length (items q) \<Longrightarrow> push q x = (q, False)"
    and pop_empty: "valid q \<Longrightarrow> items q = [] \<Longrightarrow> pop q = (q, None)"
    and pop_first: "valid q \<Longrightarrow> items q = x # xs \<Longrightarrow> snd (pop q) = Some x \<and> items (fst (pop q)) = xs \<and>
      valid (fst (pop q)) \<and> limit (fst (pop q)) = limit q"
begin

lemma push_cases:
  assumes "valid q"
  obtains "push q x = (q, False)" "limit q \<le> length (items q)"
    | q' where "push q x = (q', True)" "items q' = items q @ [x]" "valid q'" "limit q' = limit q"
        "length (items q) < limit q"
  using push_accepts [OF assms, of x] push_refuses [OF assms, of x]
  by (cases "limit q \<le> length (items q)"; cases "push q x") auto

lemma pop_cases:
  assumes "valid q"
  obtains "pop q = (q, None)" "items q = []"
    | q' x where "pop q = (q', Some x)" "items q = x # items q'" "valid q'" "limit q' = limit q"
  using pop_empty [OF assms] pop_first [OF assms]
  by (cases "items q"; cases "pop q") auto

fun run_ops :: "'q \<Rightarrow> 'a queue_op list \<Rightarrow> 'q \<times> 'a list \<times> 'a list" where
  "run_ops q [] = (q, [], [])"
| "run_ops q (Push x # ops) =
     (case push q x of (q1, ok) \<Rightarrow> case run_ops q1 ops of (q2, accepted, popped) \<Rightarrow>
        (q2, (if ok then x # accepted else accepted), popped))"
| "run_ops q (Pop # ops) =
     (case pop q of (q1, r) \<Rightarrow> case run_ops q1 ops of (q2, accepted, popped) \<Rightarrow>
        (q2, accepted, (case r of Some x \<Rightarrow> x # popped | None \<Rightarrow> popped)))"

lemma run_ops_fifo:
  "valid q \<Longrightarrow> length (items q) \<le> limit q \<Longrightarrow> run_ops q ops = (q', accepted, popped) \<Longrightarrow>
   items q @ accepted = popped @ items q' \<and> valid q' \<and> limit q' = limit q \<and> length (items q') \<le> limit q'"
proof (induction ops arbitrary: q accepted popped)
  case (Cons op ops)
  show ?case
  proof (cases op)
    case (Push x)
    from Cons.prems(1) show ?thesis
      by (rule push_cases [of q x])
        (use Cons Push in \<open>fastforce split: prod.splits\<close>)+
  next
    case Pop
    from Cons.prems(1) show ?thesis
      by (rule pop_cases [of q]) (use Cons Pop in \<open>fastforce split: prod.splits\<close>)+
  qed
qed simp

end

section \<open>The frame queue is a bounded FIFO\<close>

definition fq_ok :: "SpscFrameQueue \<Rightarrow> bool" where
  "fq_ok q \<longleftrightarrow> ring_ok (fq_capacity q) (fq_buffer q) (fq_head q) (fq_tail q)"

definition fq_items :: "SpscFrameQueue \<Rightarrow> FrameRef list" where
  "fq_items q = ring_items (fq_capacity q) (fq_buffer q) (fq_head q) (fq_tail q)"

definition fq_limit :: "SpscFrameQueue \<Rightarrow> nat" where
  "fq_limit q = fq_capacity q - 1"

lemma fq_new_ok: "fq_ok (SpscFrameQueue_new c)" "fq_items (SpscFrameQueue_new c) = []"
  by (auto simp: fq_ok_def fq_items_def SpscFrameQueue_new_def ring_ok_def ring_items_def
      ring_count_def fq_kMinCapacity_def Let_def)

lemma fq_full_iff:
  assumes "fq_ok q"
  shows "fq_increment q (fq_head q) = fq_tail q \<longleftrightarrow> fq_limit q \<le> length (fq_items q)"
  using assms ring_count_full [of "fq_head q" "fq_capacity q" "fq_tail q"]
    ring_count_less [of "fq_capacity q" "fq_head q" "fq_tail q"]
  by (auto simp: fq_ok_def fq_items_def fq_limit_def fq_increment_def ring_ok_def)

interpretation frame_queue: bounded_fifo fq_ok fq_items fq_limit fq_try_push fq_try_pop
proof unfold_locales
  fix q :: SpscFrameQueue and x assume ok: "fq_ok q"
  let ?c = "fq_capacity q" and ?h = "fq_head q" and ?t = "fq_tail q"
  have ring: "ring_ok ?c (fq_buffer q) ?h ?t" using ok by (simp add: fq_ok_def)
  show "snd (fq_try_push q x) \<and> fq_items (fst (fq_try_push q x)) = fq_items q @ [x] \<and>
      fq_ok (fst (fq_try_push q x)) \<and> fq_limit (fst (fq_try_push q x)) = fq_limit q"
    if "length (fq_items q) < fq_limit q"
  proof -
    have "(?h + 1) mod ?c \<noteq> ?t" using fq_full_iff [OF ok] that by (simp add: fq_increment_def)
    then show ?thesis
      using ring ring_items_push [OF ring, of x]
      by (simp add: fq_try_push_def fq_increment_def fq_items_def fq_ok_def fq_limit_def Let_def)
  qed
  show "fq_try_push q x = (q, False)" if "fq_limit q \<le> length (fq_items q)"
    using fq_full_iff [OF ok] that by (simp add: fq_try_push_def)
  show "fq_try_pop q = (q, None)" if "fq_items q = []"
    using ring_items_empty [OF ring] that by (simp add: fq_try_pop_def fq_items_def)
  show "snd (fq_try_pop q) = Some x \<and> fq_items (fst (fq_try_pop q)) = xs \<and>
      fq_ok (fst (fq_try_pop q)) \<and> fq_limit (fst (fq_try_pop q)) = fq_limit q"
    if "fq_items q = x # xs" for xs
  proof -
    have "?h \<noteq> ?t" using ring_items_empty [OF ring] that by (auto simp: fq_items_def)
    then show ?thesis
      using ring ring_items_pop [OF ring] that
      by (simp add: fq_try_pop_def fq_increment_def fq_items_def fq_ok_def fq_limit_def)
  qed
qed


section \<open>The two threads\<close>

text \<open>
  One producer runs \<open>try_push\<close>, one consumer runs \<open>try_pop\<close>, and their accesses to the shared ring
  interleave freely. Each operation is cut where it touches shared data: the check of the
  other side's index, the access to the slot, and the store that publishes the own index. The
  load of the own index is part of the check, since no one else writes it. All
  accesses here are sequentially consistent; \<open>Spsc_Weak_Memory\<close> shows that the weaker memory orders of the code add
  no behaviour. The lists \<open>th_pushed\<close> and
  \<open>th_popped\<close> record the history.
\<close>

datatype ProducerPc = P_idle | P_checked FrameRef usize usize | P_written FrameRef usize usize

datatype ConsumerPc = C_idle | C_checked usize | C_read usize FrameRef

record SpscThreads =
  th_queue :: SpscFrameQueue
  th_producer :: ProducerPc
  th_consumer :: ConsumerPc
  th_pushed :: "FrameRef list"
  th_popped :: "FrameRef list"

definition threads_new :: "usize \<Rightarrow> SpscThreads" where
  "threads_new c = \<lparr> th_queue = SpscFrameQueue_new c, th_producer = P_idle, th_consumer = C_idle,
     th_pushed = [], th_popped = [] \<rparr>"

inductive spsc_step :: "SpscThreads \<Rightarrow> SpscThreads \<Rightarrow> bool" where
  push_check: "th_producer s = P_idle \<Longrightarrow> head = fq_head (th_queue s) \<Longrightarrow>
    next_head = fq_increment (th_queue s) head \<Longrightarrow> next_head \<noteq> fq_tail (th_queue s) \<Longrightarrow>
    spsc_step s (s\<lparr>th_producer := P_checked ref head next_head\<rparr>)"
| push_write: "th_producer s = P_checked ref head next_head \<Longrightarrow>
    spsc_step s (s\<lparr> th_queue := (th_queue s)\<lparr>fq_buffer := (fq_buffer (th_queue s))[head := ref]\<rparr>,
                    th_producer := P_written ref head next_head \<rparr>)"
| push_publish: "th_producer s = P_written ref head next_head \<Longrightarrow>
    spsc_step s (s\<lparr> th_queue := (th_queue s)\<lparr>fq_head := next_head\<rparr>, th_producer := P_idle,
                    th_pushed := th_pushed s @ [ref] \<rparr>)"
| pop_check: "th_consumer s = C_idle \<Longrightarrow> tail = fq_tail (th_queue s) \<Longrightarrow> tail \<noteq> fq_head (th_queue s) \<Longrightarrow>
    spsc_step s (s\<lparr>th_consumer := C_checked tail\<rparr>)"
| pop_read: "th_consumer s = C_checked tail \<Longrightarrow>
    spsc_step s (s\<lparr>th_consumer := C_read tail (fq_buffer (th_queue s) ! tail)\<rparr>)"
| pop_publish: "th_consumer s = C_read tail ref \<Longrightarrow>
    spsc_step s (s\<lparr> th_queue := (th_queue s)\<lparr>fq_tail := fq_increment (th_queue s) tail\<rparr>,
                    th_consumer := C_idle, th_popped := th_popped s @ [ref] \<rparr>)"

definition producer_ok :: "SpscThreads \<Rightarrow> bool" where
  "producer_ok s \<longleftrightarrow> (let q = th_queue s in case th_producer s of
       P_idle \<Rightarrow> True
     | P_checked r h n \<Rightarrow> h = fq_head q \<and> n = fq_increment q h \<and> n \<noteq> fq_tail q
     | P_written r h n \<Rightarrow> h = fq_head q \<and> n = fq_increment q h \<and> n \<noteq> fq_tail q \<and> fq_buffer q ! h = r)"

definition consumer_ok :: "SpscThreads \<Rightarrow> bool" where
  "consumer_ok s \<longleftrightarrow> (let q = th_queue s in case th_consumer s of
       C_idle \<Rightarrow> True
     | C_checked t \<Rightarrow> t = fq_tail q \<and> t \<noteq> fq_head q
     | C_read t r \<Rightarrow> t = fq_tail q \<and> t \<noteq> fq_head q \<and> fq_buffer q ! t = r)"

definition spsc_inv :: "SpscThreads \<Rightarrow> bool" where
  "spsc_inv s \<longleftrightarrow> fq_ok (th_queue s) \<and> th_pushed s = th_popped s @ fq_items (th_queue s) \<and>
     producer_ok s \<and> consumer_ok s"

lemma spsc_inv_new: "spsc_inv (threads_new c)"
  by (simp add: spsc_inv_def threads_new_def fq_new_ok producer_ok_def consumer_ok_def)

text \<open>Advancing the tail of a ring that is not empty leaves room at the head.\<close>

lemma ring_tail_not_full:
  assumes "ring_ok c buf h t" "h \<noteq> t"
  shows "(h + 1) mod c \<noteq> (t + 1) mod c"
  using assms ring_succ [of h c] ring_succ [of t c] by (auto simp: ring_ok_def split: if_splits)

lemma spsc_step_inv:
  assumes "spsc_step s s'" "spsc_inv s"
  shows "spsc_inv s'"
  using assms
proof cases
  case (push_check head next_head ref)
  with assms(2) show ?thesis by (simp add: spsc_inv_def producer_ok_def consumer_ok_def Let_def)
next
  case (push_write ref head next_head)
  let ?q = "th_queue s"
  have q: "ring_ok (fq_capacity ?q) (fq_buffer ?q) (fq_head ?q) (fq_tail ?q)" "head = fq_head ?q"
    using assms(2) push_write by (simp_all add: spsc_inv_def fq_ok_def producer_ok_def Let_def)
  then have "head < length (fq_buffer ?q)" by (simp add: ring_ok_def)
  with q assms(2) push_write show ?thesis
    by (auto simp: spsc_inv_def fq_ok_def fq_items_def ring_items_write_head producer_ok_def
        consumer_ok_def fq_increment_def Let_def split: ConsumerPc.splits)
next
  case (push_publish ref head next_head)
  let ?q = "th_queue s"
  have q: "ring_ok (fq_capacity ?q) (fq_buffer ?q) (fq_head ?q) (fq_tail ?q)"
    "next_head = (fq_head ?q + 1) mod fq_capacity ?q" "next_head \<noteq> fq_tail ?q" "fq_buffer ?q ! fq_head ?q = ref"
    using assms(2) push_publish by (auto simp: spsc_inv_def fq_ok_def producer_ok_def fq_increment_def Let_def)
  let ?q' = "?q\<lparr>fq_head := next_head\<rparr>"
  have "fq_ok ?q'" "fq_items ?q' = fq_items ?q @ [ref]"
    using q ring_items_publish [OF q(1)] by (simp_all add: fq_ok_def fq_items_def)
  moreover have "consumer_ok s'"
    using assms(2) q(3) push_publish(1)
    by (cases "th_consumer s") (auto simp: spsc_inv_def consumer_ok_def Let_def)
  ultimately show ?thesis
    using assms(2) push_publish(1) by (simp add: spsc_inv_def producer_ok_def)
next
  case (pop_check tail)
  with assms(2) show ?thesis by (simp add: spsc_inv_def producer_ok_def consumer_ok_def Let_def)
next
  case (pop_read tail)
  with assms(2) show ?thesis by (simp add: spsc_inv_def producer_ok_def consumer_ok_def Let_def)
next
  case (pop_publish tail ref)
  let ?q = "th_queue s"
  have q: "ring_ok (fq_capacity ?q) (fq_buffer ?q) (fq_head ?q) (fq_tail ?q)" "tail = fq_tail ?q"
    "fq_head ?q \<noteq> fq_tail ?q" "fq_buffer ?q ! tail = ref"
    using assms(2) pop_publish by (auto simp: spsc_inv_def fq_ok_def consumer_ok_def Let_def)
  let ?q' = "?q\<lparr>fq_tail := fq_increment ?q tail\<rparr>"
  have "fq_ok ?q'" "fq_items ?q = ref # fq_items ?q'"
    using q ring_items_pop [OF q(1,3)] by (simp_all add: fq_ok_def fq_items_def fq_increment_def)
  moreover have "producer_ok s'"
    using assms(2) q(2) ring_tail_not_full [OF q(1,3)] pop_publish(1)
    by (cases "th_producer s") (simp_all add: spsc_inv_def producer_ok_def fq_increment_def Let_def)
  ultimately show ?thesis
    using assms(2) pop_publish(1) by (simp add: spsc_inv_def consumer_ok_def)
qed

lemma spsc_steps_inv: "spsc_step\<^sup>*\<^sup>* s s' \<Longrightarrow> spsc_inv s \<Longrightarrow> spsc_inv s'"
  by (induction rule: rtranclp_induct) (auto intro: spsc_step_inv)

text \<open>The slots the two threads are working on.\<close>

definition producer_slot :: "ProducerPc \<Rightarrow> usize option" where
  "producer_slot p = (case p of P_checked r h n \<Rightarrow> Some h | P_written r h n \<Rightarrow> Some h | P_idle \<Rightarrow> None)"

definition consumer_slot :: "ConsumerPc \<Rightarrow> usize option" where
  "consumer_slot c = (case c of C_checked t \<Rightarrow> Some t | C_read t r \<Rightarrow> Some t | C_idle \<Rightarrow> None)"

section \<open>Claims about the queue\<close>

text \<open>
  The ring is safe under any interleaving of one producer and one consumer: what has been
  popped followed by what is in the ring is exactly what was pushed, in order (nothing lost,
  duplicated or reordered); at most \<open>capacity - 1\<close> items are queued; and the two threads
  never work on the same slot.
\<close>

theorem spsc_interleaving_safe:
  assumes "spsc_step\<^sup>*\<^sup>* (threads_new c) s"
  shows "th_pushed s = th_popped s @ fq_items (th_queue s) \<and>
    length (fq_items (th_queue s)) < fq_capacity (th_queue s) \<and>
    (producer_slot (th_producer s) = None \<or> producer_slot (th_producer s) \<noteq> consumer_slot (th_consumer s))"
proof -
  have inv: "spsc_inv s" using spsc_steps_inv [OF assms spsc_inv_new] .
  then have "length (fq_items (th_queue s)) < fq_capacity (th_queue s)"
    by (auto simp: spsc_inv_def fq_ok_def fq_items_def ring_ok_def ring_count_less)
  with inv show ?thesis
    by (auto simp: spsc_inv_def producer_ok_def consumer_ok_def producer_slot_def consumer_slot_def Let_def
        split: ProducerPc.splits ConsumerPc.splits)
qed

definition example_ref :: FrameRef where
  "example_ref = FrameRef_default\<lparr>fr_slot := 3, fr_generation := 1\<rparr>"

definition example_threads :: SpscThreads where
  "example_threads = (threads_new 4)\<lparr> th_queue := (SpscFrameQueue_new 4)\<lparr>
       fq_buffer := (fq_buffer (SpscFrameQueue_new 4))[0 := example_ref], fq_head := 1\<rparr>,
     th_producer := P_idle, th_pushed := [example_ref], th_consumer := C_checked 0 \<rparr>"

lemma example_threads_reachable: "spsc_step\<^sup>*\<^sup>* (threads_new 4) example_threads"
proof -
  let ?s0 = "threads_new 4"
  let ?s1 = "?s0\<lparr>th_producer := P_checked example_ref 0 1\<rparr>"
  let ?s2 = "?s1\<lparr>th_queue := (th_queue ?s1)\<lparr>fq_buffer := (fq_buffer (th_queue ?s1))[0 := example_ref]\<rparr>,
      th_producer := P_written example_ref 0 1\<rparr>"
  let ?s3 = "?s2\<lparr>th_queue := (th_queue ?s2)\<lparr>fq_head := 1\<rparr>, th_producer := P_idle,
      th_pushed := th_pushed ?s2 @ [example_ref]\<rparr>"
  have "spsc_step ?s0 ?s1"
    by (rule push_check) (simp_all add: threads_new_def SpscFrameQueue_new_def fq_increment_def
        fq_kMinCapacity_def)
  then have "spsc_step\<^sup>*\<^sup>* ?s0 ?s1" ..
  moreover have "spsc_step ?s1 ?s2" by (rule push_write) simp
  ultimately have "spsc_step\<^sup>*\<^sup>* ?s0 ?s2" ..
  moreover have "spsc_step ?s2 ?s3" by (rule push_publish) simp
  ultimately have "spsc_step\<^sup>*\<^sup>* ?s0 ?s3" ..
  moreover have "spsc_step ?s3 (?s3\<lparr>th_consumer := C_checked 0\<rparr>)"
    by (rule pop_check) (simp_all add: threads_new_def SpscFrameQueue_new_def)
  ultimately have "spsc_step\<^sup>*\<^sup>* ?s0 (?s3\<lparr>th_consumer := C_checked 0\<rparr>)" ..
  moreover have "?s3\<lparr>th_consumer := C_checked 0\<rparr> = example_threads"
    by (simp add: example_threads_def threads_new_def)
  ultimately show ?thesis by simp
qed

theorem spsc_interleaving_safe_witness:
  "[example_ref] = fq_items (th_queue example_threads)"
  using spsc_interleaving_safe [OF example_threads_reachable]
  by (simp add: example_threads_def threads_new_def)

text \<open>
  C6. Operation by operation the queue is a bounded FIFO: for any sequence of pushes and pops on
  a new queue the accepted items are exactly the popped ones followed by those still queued.
\<close>

theorem frame_queue_fifo:
  assumes "frame_queue.run_ops (SpscFrameQueue_new c) ops = (q, accepted, popped)"
  shows "accepted = popped @ fq_items q \<and> fq_ok q \<and> length (fq_items q) \<le> max c 2 - 1"
proof -
  have "fq_limit (SpscFrameQueue_new c) = max c 2 - 1"
    by (simp add: fq_limit_def SpscFrameQueue_new_def fq_kMinCapacity_def Let_def max_def)
  then show ?thesis
    using frame_queue.run_ops_fifo [OF fq_new_ok(1) _ assms] by (simp add: fq_new_ok(2))
qed

theorem frame_queue_fifo_witness:
  "let (q, accepted, popped) = frame_queue.run_ops (SpscFrameQueue_new 2) [Push example_ref, Push example_ref, Pop]
   in accepted = popped @ fq_items q"
  using frame_queue_fifo [of 2 "[Push example_ref, Push example_ref, Pop]"]
  by (simp split: prod.split)


end
