(* ===== verification/Frame_Pool.thy ===== *)
theory Frame_Pool
  imports Spsc_Queue
begin

text \<open>
  \<open>ingest/frame_pool.cpp\<close> and \<open>ingest/ws_message_sink.cpp\<close>: the pool of frame slots with
  generation-checked handles, and the sink that puts a received message into a slot and its handle
  into the queue. The mutex of the pool makes each operation one step. \<open>in_use_\<close> holds
  booleans (0 and 1 in the code); a time point is its count of nanoseconds; the steady clock is
  an argument. A frame pointer is the slot it points to: reading gives \<open>pool_frame\<close>, writing
  \<open>pool_write\<close>.
\<close>

section \<open>The pool\<close>

record RawFrame =
  rf_recv_timestamp :: i64
  rf_source :: string
  rf_payload :: string
  rf_market_ticker :: string
  rf_seq_id :: "u64 option"

definition RawFrame_default :: RawFrame where
  "RawFrame_default = \<lparr> rf_recv_timestamp = 0, rf_source = '''', rf_payload = '''',
     rf_market_ticker = '''', rf_seq_id = None \<rparr>"

record FramePool =
  fp_slot_count :: u32
  fp_slots :: "RawFrame list"
  fp_generations :: "u64 list"
  fp_in_use :: "bool list"
  fp_free_slots :: "u32 list"

definition kPayloadSizeUnset :: u32 where
  "kPayloadSizeUnset = 0"

definition kInitialGeneration :: u64 where
  "kInitialGeneration = 1"

definition FramePool_new :: "usize \<Rightarrow> FramePool" where
  "FramePool_new capacity =
     (let slot_count = of_nat capacity :: u32
      in \<lparr> fp_slot_count = slot_count, fp_slots = replicate capacity RawFrame_default,
           fp_generations = replicate capacity kInitialGeneration,
           fp_in_use = replicate capacity False,
           fp_free_slots = fold (\<lambda>i fs. fs[i := slot_count - of_nat i - 1]) [0..<unat slot_count]
             (replicate capacity 0) \<rparr>)"

definition pool_acquire :: "FramePool \<Rightarrow> u64 \<Rightarrow> FramePool \<times> FrameRef option" where
  "pool_acquire p now =
     (if fp_free_slots p = [] then (p, None)
      else let slot = last (fp_free_slots p);
               generation = (if fp_generations p ! unat slot = 0 then kInitialGeneration
                             else fp_generations p ! unat slot)
           in (p\<lparr> fp_free_slots := butlast (fp_free_slots p),
                  fp_in_use := (fp_in_use p)[unat slot := True],
                  fp_slots := (fp_slots p)[unat slot := RawFrame_default],
                  fp_generations := (fp_generations p)[unat slot := generation] \<rparr>,
               Some \<lparr> fr_recv_timestamp_ns = now, fr_generation = generation,
                      fr_mono_timestamp_ns = now, fr_slot = slot,
                      fr_payload_size = kPayloadSizeUnset \<rparr>))"

definition next_generation :: "u64 \<Rightarrow> u64" where
  "next_generation g = (if g + 1 = 0 then kInitialGeneration else g + 1)"

definition pool_release :: "FramePool \<Rightarrow> FrameRef \<Rightarrow> FramePool \<times> bool" where
  "pool_release p ref =
     (let slot = unat (fr_slot ref) in
      if fr_slot ref \<ge> fp_slot_count p then (p, False)
      else if \<not> fp_in_use p ! slot then (p, False)
      else if fr_generation ref \<noteq> fp_generations p ! slot then (p, False)
      else (p\<lparr> fp_in_use := (fp_in_use p)[slot := False],
               fp_generations := (fp_generations p)[slot := next_generation (fp_generations p ! slot)],
               fp_free_slots := fp_free_slots p @ [fr_slot ref] \<rparr>, True))"

definition pool_frame :: "FramePool \<Rightarrow> FrameRef \<Rightarrow> RawFrame option" where
  "pool_frame p ref =
     (let slot = unat (fr_slot ref) in
      if fr_slot ref \<ge> fp_slot_count p then None
      else if \<not> fp_in_use p ! slot then None
      else if fr_generation ref \<noteq> fp_generations p ! slot then None
      else Some (fp_slots p ! slot))"

text \<open>Storing through the pointer that \<open>frame\<close> returned.\<close>

definition pool_write :: "FramePool \<Rightarrow> FrameRef \<Rightarrow> RawFrame \<Rightarrow> FramePool" where
  "pool_write p ref f = p\<lparr>fp_slots := (fp_slots p)[unat (fr_slot ref) := f]\<rparr>"

definition pool_capacity :: "FramePool \<Rightarrow> usize" where
  "pool_capacity p = length (fp_slots p)"

definition pool_available :: "FramePool \<Rightarrow> usize" where
  "pool_available p = length (fp_free_slots p)"

section \<open>The message sink\<close>

record MessageSink =
  ms_pool :: FramePool
  ms_queue :: SpscFrameQueue
  ms_source :: string
  ms_dropped_count :: usize

definition sink_drop :: "MessageSink \<Rightarrow> MessageSink \<times> bool" where
  "sink_drop s = (s\<lparr>ms_dropped_count := ms_dropped_count s + 1\<rparr>, False)"

definition sink_push_message :: "MessageSink \<Rightarrow> u64 \<Rightarrow> i64 \<Rightarrow> string \<Rightarrow> MessageSink \<times> bool" where
  "sink_push_message s now_ns now message =
     (case pool_acquire (ms_pool s) now_ns of
        (pool, None) \<Rightarrow> sink_drop (s\<lparr>ms_pool := pool\<rparr>)
      | (pool, Some ref) \<Rightarrow>
          (case pool_frame pool ref of
             None \<Rightarrow> sink_drop (s\<lparr>ms_pool := fst (pool_release pool ref)\<rparr>)
           | Some frame \<Rightarrow>
               let frame = frame\<lparr> rf_recv_timestamp := now, rf_source := ms_source s,
                     rf_payload := message, rf_market_ticker := '''', rf_seq_id := None \<rparr>;
                   pool = pool_write pool ref frame;
                   ref = ref\<lparr>fr_payload_size := of_nat (length (rf_payload frame))\<rparr>
               in (case fq_try_push (ms_queue s) ref of
                     (queue, False) \<Rightarrow>
                       sink_drop (s\<lparr>ms_pool := fst (pool_release pool ref), ms_queue := queue\<rparr>)
                   | (queue, True) \<Rightarrow> (s\<lparr>ms_pool := pool, ms_queue := queue\<rparr>, True))))"

section \<open>The invariant of the pool\<close>

text \<open>
  Every slot is either in use or on the free list, once; generations are never zero. The slot
  count of the code is 32 bits wide, so the constructor establishes this for capacities below
  \<open>2 ^ 32\<close>.
\<close>

definition pool_inv :: "FramePool \<Rightarrow> bool" where
  "pool_inv p \<longleftrightarrow> length (fp_slots p) = unat (fp_slot_count p) \<and>
     length (fp_generations p) = unat (fp_slot_count p) \<and>
     length (fp_in_use p) = unat (fp_slot_count p) \<and>
     distinct (fp_free_slots p) \<and>
     set (fp_free_slots p) = {s. s < fp_slot_count p \<and> \<not> fp_in_use p ! unat s} \<and>
     (\<forall>s < fp_slot_count p. fp_generations p ! unat s \<noteq> 0)"

definition live :: "FramePool \<Rightarrow> FrameRef \<Rightarrow> bool" where
  "live p r \<longleftrightarrow> fr_slot r < fp_slot_count p \<and> fp_in_use p ! unat (fr_slot r) \<and>
     fr_generation r = fp_generations p ! unat (fr_slot r)"

lemma pool_frame_live: "pool_frame p r = (if live p r then Some (fp_slots p ! unat (fr_slot r)) else None)"
  by (auto simp: pool_frame_def live_def Let_def not_le)

lemma pool_release_live:
  "pool_release p r = (if live p r then
     (p\<lparr> fp_in_use := (fp_in_use p)[unat (fr_slot r) := False],
         fp_generations := (fp_generations p)[unat (fr_slot r) := next_generation (fr_generation r)],
         fp_free_slots := fp_free_slots p @ [fr_slot r] \<rparr>, True) else (p, False))"
  by (auto simp: pool_release_def live_def Let_def not_le)

lemma next_generation_nz: "next_generation g \<noteq> 0"
  by (simp add: next_generation_def kInitialGeneration_def)

lemma unat_less_iff: "(s :: u32) < t \<longleftrightarrow> unat s < unat t"
  by (simp add: word_less_nat_alt)

lemma nth_update_slot:
  fixes s t :: u32
  shows "t < c \<Longrightarrow> length xs = unat c \<Longrightarrow> xs[unat s := x] ! unat t = (if t = s then x else xs ! unat t)"
  by (cases "t = s") (simp_all add: unat_less_iff nth_list_update_neq word_unat_eq_iff)

lemma pool_acquireE:
  assumes "pool_inv p" "pool_acquire p now = (p', r)"
  obtains (empty) "fp_free_slots p = []" "p' = p" "r = None"
    | (slot) ref fs where "r = Some ref" "fp_free_slots p = fs @ [fr_slot ref]"
      "fr_slot ref < fp_slot_count p" "\<not> fp_in_use p ! unat (fr_slot ref)"
      "fr_generation ref = fp_generations p ! unat (fr_slot ref)"
      "p' = p\<lparr> fp_free_slots := fs, fp_in_use := (fp_in_use p)[unat (fr_slot ref) := True],
               fp_slots := (fp_slots p)[unat (fr_slot ref) := RawFrame_default] \<rparr>"
proof (cases "fp_free_slots p = []")
  case True
  show ?thesis by (rule empty) (use True assms(2) in \<open>auto simp: pool_acquire_def\<close>)
next
  case False
  then obtain fs s where free: "fp_free_slots p = fs @ [s]" by (cases "fp_free_slots p" rule: rev_cases) auto
  then have s: "s < fp_slot_count p" "\<not> fp_in_use p ! unat s" "fp_generations p ! unat s \<noteq> 0"
    using assms(1) by (auto simp: pool_inv_def)
  show ?thesis
    by (rule slot [of "the r" fs]) (use assms(2) free s in \<open>auto simp: pool_acquire_def Let_def\<close>)
qed

lemma pool_acquire_inv:
  assumes inv: "pool_inv p" and acq: "pool_acquire p now = (p', r)"
  shows "pool_inv p'"
  using inv acq
proof (cases rule: pool_acquireE)
  case (slot ref fs)
  have len: "length (fp_in_use p) = unat (fp_slot_count p)" using inv by (simp add: pool_inv_def)
  have "set fs = set (fp_free_slots p) - {fr_slot ref}"
    using inv slot(2) by (auto simp: pool_inv_def)
  also have "\<dots> = {s. s < fp_slot_count p \<and> \<not> (fp_in_use p)[unat (fr_slot ref) := True] ! unat s}"
    using inv by (auto simp: pool_inv_def nth_update_slot [OF _ len] split: if_splits)
  finally show ?thesis
    using inv slot(2) unfolding pool_inv_def slot(6) by simp
qed (use inv in simp)

lemma pool_release_inv:
  assumes inv: "pool_inv p" and rel: "pool_release p r = (p', ok)"
  shows "pool_inv p'"
proof (cases "live p r")
  case True
  then have p': "p' = p\<lparr> fp_in_use := (fp_in_use p)[unat (fr_slot r) := False],
         fp_generations := (fp_generations p)[unat (fr_slot r) := next_generation (fr_generation r)],
         fp_free_slots := fp_free_slots p @ [fr_slot r] \<rparr>"
    using rel by (simp add: pool_release_live)
  have len: "length (fp_in_use p) = unat (fp_slot_count p)"
    "length (fp_generations p) = unat (fp_slot_count p)" using inv by (simp_all add: pool_inv_def)
  have "fr_slot r \<notin> set (fp_free_slots p)" "fr_slot r < fp_slot_count p"
    using inv True by (auto simp: pool_inv_def live_def)
  then show ?thesis
    using inv unfolding p' pool_inv_def
    by (auto simp: nth_update_slot [OF _ len(1)] nth_update_slot [OF _ len(2)] next_generation_nz
        split: if_splits)
qed (use inv rel in \<open>simp add: pool_release_live\<close>)

lemma pool_write_inv: "pool_inv p \<Longrightarrow> pool_inv (pool_write p r f)"
  by (simp add: pool_inv_def pool_write_def)

section \<open>Handles\<close>

text \<open>What each operation does to the handles that are live.\<close>

lemma acquire_handles:
  assumes inv: "pool_inv p" and acq: "pool_acquire p now = (p', Some ref)"
  shows "live p' ref" and "pool_frame p' ref = Some RawFrame_default"
    and "live p r \<Longrightarrow> fr_slot r \<noteq> fr_slot ref \<and> live p' r \<and> pool_frame p' r = pool_frame p r"
    and "live p' r \<Longrightarrow> fr_slot r \<noteq> fr_slot ref \<Longrightarrow> live p r"
    and "pool_available p = pool_available p' + 1"
proof -
  have len: "length (fp_in_use p) = unat (fp_slot_count p)" "length (fp_slots p) = unat (fp_slot_count p)"
    using inv by (simp_all add: pool_inv_def)
  obtain fs where free: "fp_free_slots p = fs @ [fr_slot ref]"
    and ref: "fr_slot ref < fp_slot_count p" "\<not> fp_in_use p ! unat (fr_slot ref)"
      "fr_generation ref = fp_generations p ! unat (fr_slot ref)"
    and p': "p' = p\<lparr> fp_free_slots := fs, fp_in_use := (fp_in_use p)[unat (fr_slot ref) := True],
               fp_slots := (fp_slots p)[unat (fr_slot ref) := RawFrame_default] \<rparr>"
    using inv acq by (cases rule: pool_acquireE) auto
  have live': "live p' r \<longleftrightarrow> (if fr_slot r = fr_slot ref then fr_generation r = fr_generation ref else live p r)" for r
    using ref by (auto simp: p' live_def nth_update_slot [OF _ len(1)])
  show "live p' ref" by (simp add: live')
  then show "pool_frame p' ref = Some RawFrame_default"
    using ref(1) by (simp add: pool_frame_live) (simp add: p' nth_update_slot [OF _ len(2)])
  show "fr_slot r \<noteq> fr_slot ref \<and> live p' r \<and> pool_frame p' r = pool_frame p r" if "live p r"
  proof -
    have "fr_slot r \<noteq> fr_slot ref" "fr_slot r < fp_slot_count p" using that ref(2) by (auto simp: live_def)
    then show ?thesis
      using that by (simp add: live' pool_frame_live) (simp add: p' nth_update_slot [OF _ len(2)])
  qed
  show "live p' r \<Longrightarrow> fr_slot r \<noteq> fr_slot ref \<Longrightarrow> live p r" by (simp add: live')
  show "pool_available p = pool_available p' + 1" by (simp add: pool_available_def p' free)
qed

lemma release_handles:
  assumes inv: "pool_inv p" and rel: "pool_release p ref = (p', True)"
  shows "live p ref" and "pool_available p' = pool_available p + 1"
    and "fr_slot r = fr_slot ref \<Longrightarrow> \<not> live p' r"
    and "fr_slot r \<noteq> fr_slot ref \<Longrightarrow> live p' r = live p r \<and> pool_frame p' r = pool_frame p r"
    and "fp_generations p' = (fp_generations p)[unat (fr_slot ref) := next_generation (fr_generation ref)]"
proof -
  have len: "length (fp_in_use p) = unat (fp_slot_count p)" "length (fp_generations p) = unat (fp_slot_count p)"
    using inv by (simp_all add: pool_inv_def)
  show l: "live p ref" using rel by (auto simp: pool_release_live split: if_splits)
  have p': "p' = p\<lparr> fp_in_use := (fp_in_use p)[unat (fr_slot ref) := False],
         fp_generations := (fp_generations p)[unat (fr_slot ref) := next_generation (fr_generation ref)],
         fp_free_slots := fp_free_slots p @ [fr_slot ref] \<rparr>"
    using rel l by (simp add: pool_release_live)
  then show "pool_available p' = pool_available p + 1" by (simp add: pool_available_def)
  show "\<not> live p' r" if "fr_slot r = fr_slot ref"
    using that l by (auto simp: live_def p' nth_update_slot [OF _ len(1)])
  show "live p' r = live p r \<and> pool_frame p' r = pool_frame p r" if "fr_slot r \<noteq> fr_slot ref"
    using that by (auto simp: live_def p' pool_frame_live nth_update_slot [OF _ len(1)] nth_update_slot [OF _ len(2)])
  show "fp_generations p' = (fp_generations p)[unat (fr_slot ref) := next_generation (fr_generation ref)]"
    by (simp add: p')
qed

lemma write_handles [simp]:
  "live (pool_write p ref f) r = live p r" "pool_available (pool_write p ref f) = pool_available p"
  "fp_generations (pool_write p ref f) = fp_generations p"
  by (simp_all add: live_def pool_write_def pool_available_def)

lemma write_frame:
  assumes "pool_inv p" "live p r"
  shows "pool_frame (pool_write p ref f) r = (if fr_slot r = fr_slot ref then Some f else pool_frame p r)"
  using assms by (auto simp: pool_frame_live live_def pool_inv_def) (auto simp: pool_write_def nth_update_slot)

text \<open>Handles of one slot that are live at the same time are of the same generation.\<close>

lemma live_same_slot: "live p r \<Longrightarrow> live p r' \<Longrightarrow> fr_slot r = fr_slot r' \<Longrightarrow> fr_generation r = fr_generation r'"
  by (simp add: live_def)

section \<open>Generations\<close>

lemma unat_u64_bound: "unat (g :: u64) < 2 ^ 64"
  using unsigned_less [where 'a = nat, of g] by simp

lemma unat_next_generation:
  assumes "g \<noteq> 0"
  shows "unat (next_generation g) = unat g mod (2 ^ 64 - 1) + 1"
proof (cases "g + 1 = 0")
  case True
  then have "g = - 1" by (simp add: eq_neg_iff_add_eq_0)
  then show ?thesis by (simp add: next_generation_def kInitialGeneration_def unsigned_minus_1_eq_mask mask_eq_exp_minus_1)
next
  case False
  then have "unat (g + 1) = unat g + 1"
    using unatSuc [of g] by (simp add: add.commute)
  moreover have "unat (g + 1) < 2 ^ 64" using unat_u64_bound [of "g + 1"] by simp
  ultimately show ?thesis using False by (simp add: next_generation_def)
qed

lemma next_generation_funpow:
  assumes "g \<noteq> 0"
  shows "(next_generation ^^ n) g \<noteq> 0 \<and> unat ((next_generation ^^ n) g) = (unat g + n - 1) mod (2 ^ 64 - 1) + 1"
proof (induction n)
  case 0
  have "0 < unat g" "unat g < 2 ^ 64" using assms unat_u64_bound [of g] by (simp_all add: unat_gt_0)
  then show ?case using assms by simp
next
  case (Suc n)
  let ?h = "(next_generation ^^ n) g"
  have "unat (next_generation ?h) = ((unat g + n - 1) mod (2 ^ 64 - 1) + 1) mod (2 ^ 64 - 1) + 1"
    using unat_next_generation [of ?h] Suc by simp
  also have "\<dots> = (unat g + n) mod (2 ^ 64 - 1) + 1"
  proof -
    have "0 < unat g" using assms by (simp add: unat_gt_0)
    then show ?thesis by (simp add: mod_Suc_eq)
  qed
  finally show ?case using next_generation_nz [of ?h] by simp
qed

text \<open>A generation comes back only after \<open>2 ^ 64 - 1\<close> releases of its slot.\<close>

lemma next_generation_no_return:
  assumes "g \<noteq> 0" "0 < n" "n < 2 ^ 64 - 1"
  shows "(next_generation ^^ n) g \<noteq> g"
proof
  assume "(next_generation ^^ n) g = g"
  then have "(unat g + n - 1) mod (2 ^ 64 - 1) + 1 = unat g"
    using next_generation_funpow [OF assms(1), of n] by simp
  moreover have "0 < unat g" "unat g < 2 ^ 64"
    using assms(1) unat_u64_bound [of g] by (simp_all add: unat_gt_0)
  ultimately show False
    using assms(2,3) by (cases "unat g + n - 1 < 2 ^ 64 - 1") (simp_all add: mod_if split: if_splits)
qed


section \<open>Runs of pool operations\<close>

datatype pool_op = Op_acquire u64 | Op_release FrameRef | Op_write FrameRef RawFrame

fun pool_step :: "pool_op \<Rightarrow> FramePool \<Rightarrow> FramePool" where
  "pool_step (Op_acquire now) p = fst (pool_acquire p now)"
| "pool_step (Op_release ref) p = fst (pool_release p ref)"
| "pool_step (Op_write ref f) p = pool_write p ref f"

definition pool_run :: "FramePool \<Rightarrow> pool_op list \<Rightarrow> FramePool" where
  "pool_run p ops = fold pool_step ops p"

lemma pool_step_inv: "pool_inv p \<Longrightarrow> pool_inv (pool_step op p)"
  by (cases op) (auto simp: pool_write_inv intro: pool_acquire_inv pool_release_inv prod.collapse [symmetric])

lemma pool_run_inv: "pool_inv p \<Longrightarrow> pool_inv (pool_run p ops)"
  by (induction ops arbitrary: p) (simp_all add: pool_run_def pool_step_inv)

lemma pool_step_generation:
  assumes inv: "pool_inv p" and s: "s < fp_slot_count p"
  shows "fp_slot_count (pool_step op p) = fp_slot_count p"
    and "fp_generations (pool_step op p) ! unat s = fp_generations p ! unat s \<or>
      fp_generations (pool_step op p) ! unat s = next_generation (fp_generations p ! unat s)"
proof -
  have len: "length (fp_generations p) = unat (fp_slot_count p)" using inv by (simp add: pool_inv_def)
  have acq: "fp_slot_count (fst (pool_acquire p now)) = fp_slot_count p"
    "fp_generations (fst (pool_acquire p now)) = fp_generations p" for now
    using inv prod.collapse [of "pool_acquire p now", symmetric] by (cases rule: pool_acquireE; simp)+
  show "fp_slot_count (pool_step op p) = fp_slot_count p"
    by (cases op) (simp_all add: acq pool_release_live pool_write_def)
  show "fp_generations (pool_step op p) ! unat s = fp_generations p ! unat s \<or>
      fp_generations (pool_step op p) ! unat s = next_generation (fp_generations p ! unat s)"
  proof (cases op)
    case (Op_release ref)
    then show ?thesis using s by (auto simp: pool_release_live live_def nth_update_slot [OF _ len])
  qed (simp_all add: acq)
qed

lemma pool_run_generation:
  assumes "pool_inv p" "s < fp_slot_count p"
  shows "\<exists>k \<le> length ops. fp_generations (pool_run p ops) ! unat s = (next_generation ^^ k) (fp_generations p ! unat s)"
  using assms
proof (induction ops arbitrary: p)
  case (Cons op ops)
  let ?p = "pool_step op p"
  have "pool_inv ?p" "s < fp_slot_count ?p"
    using Cons.prems pool_step_inv pool_step_generation(1) [OF Cons.prems] by simp_all
  from Cons.IH [OF this] obtain k where k: "k \<le> length ops"
    "fp_generations (pool_run ?p ops) ! unat s = (next_generation ^^ k) (fp_generations ?p ! unat s)" by blast
  from pool_step_generation(2) [OF Cons.prems, of op] show ?case
  proof
    assume "fp_generations ?p ! unat s = fp_generations p ! unat s"
    with k show ?thesis by (intro exI [of _ k]) (simp add: pool_run_def)
  next
    assume "fp_generations ?p ! unat s = next_generation (fp_generations p ! unat s)"
    with k show ?thesis
      by (intro exI [of _ "Suc k"]) (simp add: pool_run_def funpow_swap1)
  qed
qed (simp add: pool_run_def)

lemma free_slots_loop:
  "n \<le> length xs \<Longrightarrow> fold (\<lambda>i fs. fs[i := f i]) [0..<n] xs = map f [0..<n] @ drop n xs"
proof (induction n)
  case (Suc n)
  then show ?case
    by (simp add: list_update_append1 nth_append list_update_append Cons_nth_drop_Suc [symmetric] Suc_le_eq)
qed simp

lemma unat_of_nat_u32: "a < 2 ^ 32 \<Longrightarrow> unat (of_nat a :: u32) = a"
  by (simp add: unat_of_nat take_bit_nat_eq_self)

lemma pool_new_inv:
  assumes "c < 2 ^ 32"
  shows "pool_inv (FramePool_new c)" and "pool_available (FramePool_new c) = c"
proof -
  let ?n = "of_nat c :: u32"
  have n: "unat ?n = c" using assms by (rule unat_of_nat_u32)
  have free: "fp_free_slots (FramePool_new c) = map (\<lambda>i. ?n - of_nat i - 1) [0..<c]"
    by (simp add: FramePool_new_def Let_def n free_slots_loop)
  have eq: "?n - of_nat i - 1 = of_nat (c - i - 1)" if "i < c" for i
    using that by (simp add: of_nat_diff)
  have inj: "(of_nat a :: u32) = of_nat b \<longleftrightarrow> a = b" if "a < c" "b < c" for a b
    using that assms unat_of_nat_u32 [of a] unat_of_nat_u32 [of b] by (metis order_less_trans)
  show "pool_available (FramePool_new c) = c" by (simp add: pool_available_def free)
  have "distinct (fp_free_slots (FramePool_new c))"
    unfolding free distinct_map by (auto simp: inj_on_def eq inj)
  moreover have "set (fp_free_slots (FramePool_new c)) = {s. s < ?n}"
  proof (rule set_eqI)
    fix s :: u32
    have "s < ?n \<longleftrightarrow> unat s < c" by (simp add: unat_less_iff n)
    moreover have "s \<in> set (fp_free_slots (FramePool_new c)) \<longleftrightarrow> unat s < c"
    proof
      assume "unat s < c"
      then have "s = ?n - of_nat (c - unat s - 1) - 1" by (simp add: eq)
      with \<open>unat s < c\<close> show "s \<in> set (fp_free_slots (FramePool_new c))"
        unfolding free by (auto intro!: image_eqI [of _ _ "c - unat s - 1"])
    next
      assume "s \<in> set (fp_free_slots (FramePool_new c))"
      then obtain i where "i < c" "s = of_nat (c - i - 1)" unfolding free by (auto simp: eq)
      then show "unat s < c" using assms unat_of_nat_u32 [of "c - i - 1"] by simp
    qed
    ultimately show "s \<in> set (fp_free_slots (FramePool_new c)) \<longleftrightarrow> s \<in> {s. s < ?n}" by simp
  qed
  ultimately show "pool_inv (FramePool_new c)"
    by (simp add: pool_inv_def n) (auto simp: FramePool_new_def Let_def n unat_less_iff kInitialGeneration_def)
qed


section \<open>The ingest path\<close>

text \<open>
  The sink on the network thread and a consumer that takes handles off the queue, reads their
  frames and gives the slots back. The histories record the messages that the sink accepted and
  the payloads that the consumer read.
\<close>

record Ingest =
  in_sink :: MessageSink
  in_held :: "FrameRef list"
  in_accepted :: "string list"
  in_delivered :: "string list"

inductive ingest_step :: "Ingest \<Rightarrow> Ingest \<Rightarrow> bool" where
  receive: "sink_push_message (in_sink s) now_ns now message = (sink', ok) \<Longrightarrow>
    ingest_step s (s\<lparr> in_sink := sink',
      in_accepted := (if ok then in_accepted s @ [message] else in_accepted s) \<rparr>)"
| take: "fq_try_pop (ms_queue (in_sink s)) = (queue', Some ref) \<Longrightarrow>
    pool_frame (ms_pool (in_sink s)) ref = Some frame \<Longrightarrow>
    ingest_step s (s\<lparr> in_sink := (in_sink s)\<lparr>ms_queue := queue'\<rparr>, in_held := ref # in_held s,
      in_delivered := in_delivered s @ [rf_payload frame] \<rparr>)"
| give_back: "ref \<in> set (in_held s) \<Longrightarrow> pool_release (ms_pool (in_sink s)) ref = (pool', ok) \<Longrightarrow>
    ingest_step s (s\<lparr> in_sink := (in_sink s)\<lparr>ms_pool := pool'\<rparr>, in_held := remove1 ref (in_held s) \<rparr>)"

definition ingest_new :: "usize \<Rightarrow> usize \<Rightarrow> string \<Rightarrow> Ingest" where
  "ingest_new frame_count queue_capacity source = \<lparr>
     in_sink = \<lparr> ms_pool = FramePool_new frame_count, ms_queue = SpscFrameQueue_new queue_capacity,
                 ms_source = source, ms_dropped_count = 0 \<rparr>,
     in_held = [], in_accepted = [], in_delivered = [] \<rparr>"

definition payload_of :: "FramePool \<Rightarrow> FrameRef \<Rightarrow> string" where
  "payload_of p r = (case pool_frame p r of Some f \<Rightarrow> rf_payload f | None \<Rightarrow> '''')"

definition handles_ok :: "FramePool \<Rightarrow> FrameRef list \<Rightarrow> bool" where
  "handles_ok p rs \<longleftrightarrow> pool_inv p \<and> distinct (map fr_slot rs) \<and> list_all (live p) rs \<and>
     pool_available p + length rs = unat (fp_slot_count p)"

definition ingest_inv :: "Ingest \<Rightarrow> bool" where
  "ingest_inv s \<longleftrightarrow> (let pool = ms_pool (in_sink s); queue = ms_queue (in_sink s) in
     fq_ok queue \<and> handles_ok pool (fq_items queue @ in_held s) \<and>
     in_accepted s = in_delivered s @ map (payload_of pool) (fq_items queue) \<and>
     (\<forall>r \<in> set (fq_items queue). fr_payload_size r = of_nat (length (payload_of pool r))))"

lemma sink_push_messageE:
  assumes inv: "pool_inv (ms_pool s)" "fq_ok (ms_queue s)"
    and push: "sink_push_message s now_ns now message = (s', ok)"
  obtains (dropped) "\<not> ok" "ms_queue s' = ms_queue s" "pool_inv (ms_pool s')"
      "fp_slot_count (ms_pool s') = fp_slot_count (ms_pool s)"
      "pool_available (ms_pool s') = pool_available (ms_pool s)"
      "\<And>r. live (ms_pool s) r \<Longrightarrow> live (ms_pool s') r \<and> payload_of (ms_pool s') r = payload_of (ms_pool s) r"
    | (queued) ref where "ok" "fq_items (ms_queue s') = fq_items (ms_queue s) @ [ref]" "fq_ok (ms_queue s')"
      "pool_inv (ms_pool s')" "fp_slot_count (ms_pool s') = fp_slot_count (ms_pool s)"
      "pool_available (ms_pool s) = pool_available (ms_pool s') + 1"
      "live (ms_pool s') ref" "payload_of (ms_pool s') ref = message"
      "fr_payload_size ref = of_nat (length message)"
      "\<And>r. live (ms_pool s) r \<Longrightarrow> fr_slot r \<noteq> fr_slot ref \<and> live (ms_pool s') r \<and>
        payload_of (ms_pool s') r = payload_of (ms_pool s) r"
proof (cases "pool_acquire (ms_pool s) now_ns")
  case acq: (Pair pool r)
  have count: "fp_slot_count pool = fp_slot_count (ms_pool s)"
    using inv(1) acq by (cases rule: pool_acquireE) auto
  show ?thesis
  proof (cases r)
    case None
    have "pool = ms_pool s"
      using inv(1) acq by (cases rule: pool_acquireE) (use None in auto)
    with push acq None inv show ?thesis
      by (intro dropped) (auto simp: sink_push_message_def sink_drop_def)
  next
    case (Some ref)
    note h = acquire_handles [OF inv(1) acq [unfolded Some]]
    define f where "f = RawFrame_default\<lparr> rf_recv_timestamp := now, rf_source := ms_source s,
                     rf_payload := message, rf_market_ticker := '''', rf_seq_id := None \<rparr>"
    define ref' where "ref' = ref\<lparr>fr_payload_size := of_nat (length message)\<rparr>"
    define pool2 where "pool2 = pool_write pool ref f"
    have slot: "fr_slot ref' = fr_slot ref" "live pool2 ref'" "live pool2 r = live pool r" for r
      using h(1) by (simp_all add: ref'_def pool2_def live_def pool_write_def)
    have pool: "pool_inv pool" "pool_inv pool2" "fp_slot_count pool2 = fp_slot_count (ms_pool s)"
      using pool_acquire_inv [OF inv(1) acq] count by (simp_all add: pool2_def pool_write_inv) (simp add: pool_write_def)
    have avail: "pool_available (ms_pool s) = pool_available pool2 + 1" using h(5) by (simp add: pool2_def)
    have frame: "payload_of pool2 ref' = message"
      using write_frame [OF pool(1), of ref' ref f] slot
      by (simp add: payload_of_def pool2_def) (simp add: f_def)
    have old: "fr_slot r \<noteq> fr_slot ref \<and> live pool2 r \<and> payload_of pool2 r = payload_of (ms_pool s) r"
      if "live (ms_pool s) r" for r
      using h(3) [OF that] write_frame [OF pool(1), of r ref f] slot(3)
      by (simp add: payload_of_def pool2_def [symmetric])
    have eq: "sink_push_message s now_ns now message = (case fq_try_push (ms_queue s) ref' of
        (queue, False) \<Rightarrow> sink_drop (s\<lparr>ms_pool := fst (pool_release pool2 ref'), ms_queue := queue\<rparr>)
      | (queue, True) \<Rightarrow> (s\<lparr>ms_pool := pool2, ms_queue := queue\<rparr>, True))"
      unfolding ref'_def pool2_def f_def by (simp add: sink_push_message_def acq Some h(2) Let_def)
    from inv(2) show ?thesis
    proof (rule frame_queue.push_cases [of "ms_queue s" ref'])
      assume "fq_try_push (ms_queue s) ref' = (ms_queue s, False)"
      moreover obtain pool3 where rel: "pool_release pool2 ref' = (pool3, True)"
        using slot(2) by (simp add: pool_release_live)
      ultimately have s': "\<not> ok" "ms_queue s' = ms_queue s" "ms_pool s' = pool3"
        using push eq by (auto simp: sink_drop_def)
      show ?thesis
      proof (rule dropped [OF s'(1,2)])
        show "pool_inv (ms_pool s')" using pool_release_inv [OF pool(2) rel] s'(3) by simp
        show "fp_slot_count (ms_pool s') = fp_slot_count (ms_pool s)"
          using rel s'(3) pool(3) slot(2) by (auto simp: pool_release_live)
        show "pool_available (ms_pool s') = pool_available (ms_pool s)"
          using release_handles(2) [OF pool(2) rel] s'(3) avail by simp
        show "live (ms_pool s') r \<and> payload_of (ms_pool s') r = payload_of (ms_pool s) r"
          if "live (ms_pool s) r" for r
          using old [OF that] release_handles(4) [OF pool(2) rel, of r] slot(1) s'(3)
          by (simp add: payload_of_def)
      qed
    next
      fix queue
      assume "fq_try_push (ms_queue s) ref' = (queue, True)" "fq_items queue = fq_items (ms_queue s) @ [ref']"
        "fq_ok queue"
      moreover from this have "ok" "ms_queue s' = queue" "ms_pool s' = pool2" using push eq by auto
      ultimately show ?thesis
        using pool slot avail frame old by (intro queued [of ref']) (simp_all add: ref'_def)
    qed
  qed
qed


lemma ingest_inv_new: "pc < 2 ^ 32 \<Longrightarrow> ingest_inv (ingest_new pc qc source)"
  using pool_new_inv [of pc] fq_new_ok [of qc] unat_of_nat_u32 [of pc]
  by (simp add: ingest_inv_def ingest_new_def handles_ok_def) (simp add: FramePool_new_def Let_def)

lemma handles_ok_live: "handles_ok p rs \<Longrightarrow> r \<in> set rs \<Longrightarrow> live p r"
  by (auto simp: handles_ok_def list_all_iff)

lemma ingest_receive_inv:
  assumes inv: "ingest_inv s" and push: "sink_push_message (in_sink s) now_ns now message = (sink', ok)"
  shows "ingest_inv (s\<lparr> in_sink := sink',
      in_accepted := (if ok then in_accepted s @ [message] else in_accepted s) \<rparr>)"
proof -
  let ?pool = "ms_pool (in_sink s)" and ?items = "fq_items (ms_queue (in_sink s))"
  have i: "pool_inv ?pool" "fq_ok (ms_queue (in_sink s))" "handles_ok ?pool (?items @ in_held s)"
    "in_accepted s = in_delivered s @ map (payload_of ?pool) ?items"
    "\<forall>r \<in> set ?items. fr_payload_size r = of_nat (length (payload_of ?pool r))"
    using inv by (simp_all add: ingest_inv_def handles_ok_def Let_def)
  note live = handles_ok_live [OF i(3)]
  from i(1,2) push show ?thesis
  proof (cases rule: sink_push_messageE)
    case dropped
    have "list_all (live (ms_pool sink')) (?items @ in_held s)"
      using live dropped(6) by (auto simp: list_all_iff)
    moreover have "map (payload_of (ms_pool sink')) ?items = map (payload_of ?pool) ?items"
      "\<forall>r \<in> set ?items. payload_of (ms_pool sink') r = payload_of ?pool r"
      using live dropped(6) by auto
    ultimately show ?thesis
      using i dropped(1-5) by (simp add: ingest_inv_def handles_ok_def)
  next
    case (queued ref)
    have "list_all (live (ms_pool sink')) ((?items @ [ref]) @ in_held s)"
      using live queued(7,10) by (auto simp: list_all_iff)
    moreover have "map (payload_of (ms_pool sink')) ?items = map (payload_of ?pool) ?items"
      "\<forall>r \<in> set ?items. payload_of (ms_pool sink') r = payload_of ?pool r"
      using live queued(10) by auto
    moreover have "fr_slot ref \<notin> fr_slot ` set (?items @ in_held s)"
      using live queued(10) by (metis imageE)
    ultimately show ?thesis
      using i queued(1-9) by (simp add: ingest_inv_def handles_ok_def) auto
  qed
qed

lemma ingest_take_inv:
  assumes inv: "ingest_inv s" and pop: "fq_try_pop (ms_queue (in_sink s)) = (queue', Some ref)"
    and frame: "pool_frame (ms_pool (in_sink s)) ref = Some frame"
  shows "ingest_inv (s\<lparr> in_sink := (in_sink s)\<lparr>ms_queue := queue'\<rparr>, in_held := ref # in_held s,
      in_delivered := in_delivered s @ [rf_payload frame] \<rparr>)"
proof -
  have ok: "fq_ok (ms_queue (in_sink s))" using inv by (simp add: ingest_inv_def Let_def)
  have "fq_items (ms_queue (in_sink s)) = ref # fq_items queue' \<and> fq_ok queue'"
    by (rule frame_queue.pop_cases [OF ok]) (use pop in auto)
  then have q: "fq_items (ms_queue (in_sink s)) = ref # fq_items queue'" "fq_ok queue'" by simp_all
  have "payload_of (ms_pool (in_sink s)) ref = rf_payload frame" using frame by (simp add: payload_of_def)
  then show ?thesis
    using inv q by (auto simp: ingest_inv_def handles_ok_def Let_def)
qed

lemma ingest_give_back_inv:
  assumes inv: "ingest_inv s" and ref: "ref \<in> set (in_held s)"
    and rel: "pool_release (ms_pool (in_sink s)) ref = (pool', ok)"
  shows "ingest_inv (s\<lparr> in_sink := (in_sink s)\<lparr>ms_pool := pool'\<rparr>, in_held := remove1 ref (in_held s) \<rparr>)"
proof -
  let ?pool = "ms_pool (in_sink s)" and ?items = "fq_items (ms_queue (in_sink s))"
  have h: "handles_ok ?pool (?items @ in_held s)" and i: "pool_inv ?pool"
    using inv by (simp_all add: ingest_inv_def handles_ok_def Let_def)
  have l: "live ?pool ref" using handles_ok_live [OF h] ref by simp
  then have rel': "pool_release ?pool ref = (pool', True)" using rel by (simp add: pool_release_live)
  note r = release_handles [OF i rel']
  have dist: "distinct (map fr_slot (?items @ in_held s))" using h by (simp add: handles_ok_def)
  have other: "fr_slot r \<noteq> fr_slot ref" if "r \<in> set (?items @ remove1 ref (in_held s))" for r
  proof -
    have "set (remove1 ref (in_held s)) = set (in_held s) - {ref}"
      using dist by (simp add: distinct_map)
    then show ?thesis
      using that dist ref by (auto simp: distinct_map inj_on_def)
  qed
  then have keep: "live pool' r \<and> payload_of pool' r = payload_of ?pool r"
    if "r \<in> set (?items @ remove1 ref (in_held s))" for r
    using that r(4) [of r] handles_ok_live [OF h, of r] by (auto simp: payload_of_def dest: notin_set_remove1)
  have "distinct (map fr_slot (?items @ remove1 ref (in_held s)))"
    using dist by (auto simp: distinct_map inj_on_def dest: notin_set_remove1 intro: distinct_remove1)
  moreover have "fp_slot_count pool' = fp_slot_count ?pool" using rel' l by (auto simp: pool_release_live)
  moreover have "length (in_held s) = length (remove1 ref (in_held s)) + 1"
    using ref length_pos_if_in_set [OF ref] by (simp add: length_remove1)
  ultimately have "handles_ok pool' (?items @ remove1 ref (in_held s))"
    using h pool_release_inv [OF i rel'] keep r(2) by (simp add: handles_ok_def list_all_iff)
  moreover have "map (payload_of pool') ?items = map (payload_of ?pool) ?items" using keep by simp
  ultimately show ?thesis
    using inv keep by (simp add: ingest_inv_def Let_def)
qed

lemma ingest_step_inv: "ingest_step s s' \<Longrightarrow> ingest_inv s \<Longrightarrow> ingest_inv s'"
  by (induction rule: ingest_step.induct)
    (auto simp only: intro: ingest_receive_inv ingest_take_inv ingest_give_back_inv)

lemma ingest_steps_inv: "ingest_step\<^sup>*\<^sup>* s s' \<Longrightarrow> ingest_inv s \<Longrightarrow> ingest_inv s'"
  by (induction rule: rtranclp_induct) (auto intro: ingest_step_inv)


section \<open>Claims about the pool and the ingest path\<close>

text \<open>
  C25. A slot is handed out to one owner at a time: acquiring from a pool after any sequence of
  operations gives a handle whose slot no live handle uses, with a cleared frame, and leaves
  every live handle live with its frame unchanged. The capacity is assumed to fit the 32 bits
  that slot numbers have.
\<close>

theorem acquired_slot_is_exclusive:
  assumes "c < 2 ^ 32" and "pool_acquire (pool_run (FramePool_new c) ops) now = (p', Some ref)"
    and "live (pool_run (FramePool_new c) ops) r"
  shows "fr_slot r \<noteq> fr_slot ref \<and> live p' r \<and> live p' ref \<and> pool_frame p' ref = Some RawFrame_default \<and>
    pool_frame p' r = pool_frame (pool_run (FramePool_new c) ops) r"
  using acquire_handles [OF pool_run_inv [OF pool_new_inv(1) [OF assms(1)]] assms(2)] assms(3) by blast

definition example_handle :: "u32 \<Rightarrow> FrameRef" where
  "example_handle s = \<lparr> fr_recv_timestamp_ns = 7, fr_generation = 1, fr_mono_timestamp_ns = 7,
     fr_slot = s, fr_payload_size = 0 \<rparr>"

lemma example_pool_two:
  "FramePool_new 2 = \<lparr> fp_slot_count = 2, fp_slots = [RawFrame_default, RawFrame_default],
     fp_generations = [1, 1], fp_in_use = [False, False], fp_free_slots = [1, 0] \<rparr>"
proof -
  have two: "replicate 2 x = [x, x]" "[0..<2] = [0, 1]" for x :: 'a
    by (simp_all add: numeral_2_eq_2)
  show ?thesis
    by (simp add: FramePool_new_def Let_def kInitialGeneration_def two)
qed

lemma example_pool_one_taken:
  "pool_run (FramePool_new 2) [Op_acquire 7] = \<lparr> fp_slot_count = 2,
     fp_slots = [RawFrame_default, RawFrame_default], fp_generations = [1, 1],
     fp_in_use = [True, False], fp_free_slots = [1] \<rparr>"
  by (simp add: pool_run_def example_pool_two pool_acquire_def)

lemma example_handle_live: "live (pool_run (FramePool_new 2) [Op_acquire 7]) (example_handle 0)"
  by (simp add: example_pool_one_taken live_def example_handle_def)

theorem acquired_slot_is_exclusive_witness:
  "live (pool_run (FramePool_new 2) [Op_acquire 7, Op_acquire 7]) (example_handle 0)"
proof -
  let ?p = "pool_run (FramePool_new 2) [Op_acquire 7]"
  have acq: "pool_acquire ?p 7 = (pool_run (FramePool_new 2) [Op_acquire 7, Op_acquire 7], Some (example_handle 1))"
    by (simp add: pool_run_def example_pool_two pool_acquire_def example_handle_def kPayloadSizeUnset_def)
  show ?thesis
    using acquired_slot_is_exclusive [OF _ acq example_handle_live] by simp
qed

text \<open>
  A handle that was released stays dead: no sequence of fewer than \<open>2 ^ 64 - 2\<close> further
  operations, reuse of its slot included, makes it resolve to a frame or lets it release the
  slot again. (The generation counter wraps after \<open>2 ^ 64 - 1\<close> releases of one slot.)
\<close>

theorem released_handle_stays_dead:
  assumes "c < 2 ^ 32" and "pool_release (pool_run (FramePool_new c) before) ref = (p', True)"
    and "length ops < 2 ^ 64 - 2"
  shows "pool_frame (pool_run p' ops) ref = None \<and> pool_release (pool_run p' ops) ref = (pool_run p' ops, False)"
proof -
  let ?p = "pool_run (FramePool_new c) before"
  have inv: "pool_inv ?p" using pool_run_inv [OF pool_new_inv(1) [OF assms(1)]] .
  note r = release_handles [OF inv assms(2)]
  have inv': "pool_inv p'" using pool_release_inv [OF inv assms(2)] .
  have slot: "fr_slot ref < fp_slot_count p'" "fp_slot_count p' = fp_slot_count ?p"
    using r(1) assms(2) by (auto simp: live_def pool_release_live)
  have len: "length (fp_generations ?p) = unat (fp_slot_count ?p)" using inv by (simp add: pool_inv_def)
  have g: "fp_generations p' ! unat (fr_slot ref) = next_generation (fr_generation ref)"
    using r(5) slot nth_update_slot [OF _ len] by simp
  have nz: "fr_generation ref \<noteq> 0" using r(1) inv by (auto simp: live_def pool_inv_def)
  obtain k where k: "k \<le> length ops"
    "fp_generations (pool_run p' ops) ! unat (fr_slot ref) = (next_generation ^^ k) (next_generation (fr_generation ref))"
    using pool_run_generation [OF inv' slot(1), of ops] g by auto
  then have "fp_generations (pool_run p' ops) ! unat (fr_slot ref) = (next_generation ^^ Suc k) (fr_generation ref)"
    by (simp add: funpow_swap1)
  moreover have "(next_generation ^^ Suc k) (fr_generation ref) \<noteq> fr_generation ref"
    using next_generation_no_return [OF nz, of "Suc k"] k(1) assms(3) by linarith
  ultimately have "\<not> live (pool_run p' ops) ref" by (auto simp: live_def)
  then show ?thesis by (simp add: pool_frame_live pool_release_live)
qed

theorem released_handle_stays_dead_witness:
  "pool_frame (pool_run (fst (pool_release (pool_run (FramePool_new 2) [Op_acquire 7]) (example_handle 0)))
     [Op_acquire 8]) (example_handle 0) = None"
proof -
  let ?p = "pool_run (FramePool_new 2) [Op_acquire 7]"
  have "pool_release ?p (example_handle 0) = (fst (pool_release ?p (example_handle 0)), True)"
    using example_handle_live by (simp add: pool_release_live)
  from released_handle_stays_dead [OF _ this, of "[Op_acquire 8]"] show ?thesis by simp
qed

text \<open>
  C26. The ingest path delivers exactly what it accepted: in every reachable state the payloads
  read so far followed by those of the queued handles are the accepted messages in order; every
  queued or held handle is live, no two share a slot, and free, queued and held slots add up
  to the pool (no slot leaks, whether a message was dropped or delivered).
\<close>

theorem ingest_delivers_accepted:
  assumes "pc < 2 ^ 32" and "ingest_step\<^sup>*\<^sup>* (ingest_new pc qc source) s"
  shows "in_accepted s = in_delivered s @ map (payload_of (ms_pool (in_sink s))) (fq_items (ms_queue (in_sink s))) \<and>
    list_all (live (ms_pool (in_sink s))) (fq_items (ms_queue (in_sink s)) @ in_held s) \<and>
    distinct (map fr_slot (fq_items (ms_queue (in_sink s)) @ in_held s)) \<and>
    pool_available (ms_pool (in_sink s)) + length (fq_items (ms_queue (in_sink s)) @ in_held s)
      = unat (fp_slot_count (ms_pool (in_sink s)))"
  using ingest_steps_inv [OF assms(2) ingest_inv_new [OF assms(1)]]
  unfolding ingest_inv_def handles_ok_def Let_def by blast

definition example_ingest :: Ingest where
  "example_ingest = (let s = ingest_new 2 4 ''kalshi''; r = sink_push_message (in_sink s) 7 7 ''hello''
     in s\<lparr>in_sink := fst r, in_accepted := (if snd r then in_accepted s @ [''hello''] else in_accepted s)\<rparr>)"

theorem ingest_delivers_accepted_witness:
  "in_accepted example_ingest
     = map (payload_of (ms_pool (in_sink example_ingest))) (fq_items (ms_queue (in_sink example_ingest)))"
proof -
  have "ingest_step (ingest_new 2 4 ''kalshi'') example_ingest"
    unfolding example_ingest_def Let_def by (rule receive) (rule prod.collapse [symmetric])
  then have "ingest_step\<^sup>*\<^sup>* (ingest_new 2 4 ''kalshi'') example_ingest" ..
  moreover have "in_delivered example_ingest = []"
    by (simp add: example_ingest_def ingest_new_def Let_def)
  ultimately show ?thesis
    using ingest_delivers_accepted [of 2 4 "''kalshi''" example_ingest] by simp
qed


end
