(* ===== verification/Market_Types.thy ===== *)
theory Market_Types
  imports Trading_Prelude
begin

text \<open>
  The data contracts of \<open>cpp/include/trading/internal/\<close>: \<open>market_types.hpp\<close>,
  \<open>normalized_event.hpp\<close> and \<open>oms_types.hpp\<close>. Each \<open>enum class\<close> is a datatype with the
  source's enumerators (prefixed by the enumeration, since several share \<open>kUnknown\<close>), each
  struct a record whose field names carry a prefix for the struct, each \<open>std::variant\<close> a
  datatype with \<open>std::monostate\<close> as a constructor of its own.
\<close>

section \<open>Market data\<close>

type_synonym MarketId = u32
type_synonym SequenceId = u64
type_synonym PriceTicks = i64
type_synonym QtyLots = i64
type_synonym TimestampNs = u64

datatype ExchangeId = Ex_kUnknown | Ex_kKalshi | Ex_kPolymarket

datatype EventType = Ev_kUnknown | Ev_kSnapshot | Ev_kDelta | Ev_kTrade | Ev_kHeartbeat | Ev_kStatus

datatype Side = Side_kUnknown | Side_kBid | Side_kAsk | Side_kBuy | Side_kSell

record EventMeta =
  em_exchange :: ExchangeId
  em_market_id :: MarketId
  em_sequence_id :: SequenceId
  em_recv_ns :: TimestampNs
  em_exchange_ts_ns :: TimestampNs

record Level =
  lv_price_ticks :: PriceTicks
  lv_qty_lots :: QtyLots

record SnapshotData =
  sd_bids :: "Level list"
  sd_asks :: "Level list"

record DeltaData =
  dd_side :: Side
  dd_price_ticks :: PriceTicks
  dd_delta_qty_lots :: QtyLots

record TradeData =
  td_price_ticks :: PriceTicks
  td_qty_lots :: QtyLots
  td_aggressor :: Side
  td_trade_id :: "string option"

datatype EventData =
    Data_monostate
  | Data_Snapshot SnapshotData
  | Data_Delta DeltaData
  | Data_Trade TradeData

record NormalizedEvent =
  ne_type :: EventType
  ne_meta :: EventMeta
  ne_market_ticker :: string
  ne_raw_sequence_id :: "SequenceId option"
  ne_data :: EventData
  ne_raw_payload :: string

definition EventMeta_default :: EventMeta where
  "EventMeta_default = \<lparr> em_exchange = Ex_kUnknown, em_market_id = 0, em_sequence_id = 0,
     em_recv_ns = 0, em_exchange_ts_ns = 0 \<rparr>"

definition NormalizedEvent_default :: NormalizedEvent where
  "NormalizedEvent_default = \<lparr> ne_type = Ev_kUnknown, ne_meta = EventMeta_default,
     ne_market_ticker = '''', ne_raw_sequence_id = None, ne_data = Data_monostate,
     ne_raw_payload = '''' \<rparr>"

definition effective_sequence_id :: "NormalizedEvent \<Rightarrow> SequenceId option" where
  "effective_sequence_id e =
     (if ne_raw_sequence_id e \<noteq> None then ne_raw_sequence_id e
      else if em_sequence_id (ne_meta e) \<noteq> 0 then Some (em_sequence_id (ne_meta e))
      else None)"

section \<open>Orders\<close>

type_synonym OrderRequestId = u64
type_synonym ClientOrderId = string
type_synonym ExchangeOrderId = string

datatype OmsAction = Act_kUnknown | Act_kPlace | Act_kCancel | Act_kReplace

datatype OmsTimeInForce = Tif_kUnknown | Tif_kGtc | Tif_kIoc | Tif_kFok

datatype OmsOrderStatus = St_kUnknown | St_kAccepted | St_kRejected | St_kCanceled
  | St_kPartiallyFilled | St_kFilled | St_kReplaced

datatype OmsLiquidity = Liq_kUnknown | Liq_kMaker | Liq_kTaker

record OrderIntent =
  oi_exchange :: ExchangeId
  oi_action :: OmsAction
  oi_client_order_id :: ClientOrderId
  oi_target_client_order_id :: "ClientOrderId option"
  oi_target_exchange_order_id :: "ExchangeOrderId option"
  oi_market_ticker :: string
  oi_side :: Side
  oi_qty_lots :: QtyLots
  oi_limit_price_ticks :: "PriceTicks option"
  oi_time_in_force :: OmsTimeInForce
  oi_intent_ts_ns :: TimestampNs

definition OrderIntent_default :: OrderIntent where
  "OrderIntent_default = \<lparr> oi_exchange = Ex_kUnknown, oi_action = Act_kUnknown,
     oi_client_order_id = '''', oi_target_client_order_id = None,
     oi_target_exchange_order_id = None, oi_market_ticker = '''', oi_side = Side_kUnknown,
     oi_qty_lots = 0, oi_limit_price_ticks = None, oi_time_in_force = Tif_kUnknown,
     oi_intent_ts_ns = 0 \<rparr>"

record OrderAck =
  oa_client_order_id :: ClientOrderId
  oa_exchange_order_id :: "ExchangeOrderId option"
  oa_market_ticker :: string
  oa_accepted_qty_lots :: QtyLots

record OrderReject =
  or_client_order_id :: ClientOrderId
  or_exchange_order_id :: "ExchangeOrderId option"
  or_reason_code :: string
  or_reason_message :: string

record OrderFill =
  of_client_order_id :: ClientOrderId
  of_exchange_order_id :: "ExchangeOrderId option"
  of_market_ticker :: string
  of_fill_qty_lots :: QtyLots
  of_fill_price_ticks :: PriceTicks
  of_side :: Side
  of_liquidity :: OmsLiquidity

datatype OmsUpdateData =
    Upd_monostate
  | Upd_Ack OrderAck
  | Upd_Reject OrderReject
  | Upd_Fill OrderFill

record OrderStateUpdate =
  ou_exchange :: ExchangeId
  ou_status :: OmsOrderStatus
  ou_client_order_id :: ClientOrderId
  ou_exchange_order_id :: "ExchangeOrderId option"
  ou_market_ticker :: string
  ou_recv_ts_ns :: TimestampNs
  ou_data :: OmsUpdateData
  ou_raw_payload :: string

lemma effective_sequence_id_raw:
  "ne_raw_sequence_id e = Some s \<Longrightarrow> effective_sequence_id e = Some s"
  by (simp add: effective_sequence_id_def)

end
