(* ===== verification/Shard_Router.thy ===== *)
theory Shard_Router
  imports Frame_Pool Market_Types
begin

text \<open>
  \<open>router/shard_dispatch.cpp\<close>, \<open>router/router.cpp\<close> and the dispatch of \<open>decode/dispatch.cpp\<close>: a raw
  frame is decoded to its market, the market is hashed to a shard, and the frame is pushed on
  the ring of that shard. The hash function of the standard library is an argument, as is the
  decoder for Kalshi frames (it reads JSON through a third-party parser).
\<close>

section \<open>Decoded fields\<close>

datatype DecodeStatus = Dec_kOk | Dec_kMissingField | Dec_kUnsupportedMessage

record ExtractedFields =
  ef_status :: DecodeStatus
  ef_market_ticker :: string
  ef_seq_id :: "u64 option"
  ef_recv_timestamp :: i64
  ef_source :: string

definition fields_ok :: "ExtractedFields \<Rightarrow> bool" where
  "fields_ok extracted \<longleftrightarrow> ef_status extracted = Dec_kOk"

type_synonym DecodeFn = "RawFrame \<Rightarrow> ExtractedFields"

datatype DecodeExchangeId = De_kKalshi | De_kPolymarket

definition polymarket_extract :: DecodeFn where
  "polymarket_extract frame = \<lparr> ef_status = Dec_kMissingField, ef_market_ticker = '''', ef_seq_id = None,
     ef_recv_timestamp = rf_recv_timestamp frame, ef_source = rf_source frame \<rparr>"

fun resolve_decoder :: "DecodeFn \<Rightarrow> DecodeExchangeId \<Rightarrow> DecodeFn" where
  "resolve_decoder kalshi_extract De_kKalshi = kalshi_extract"
| "resolve_decoder kalshi_extract De_kPolymarket = polymarket_extract"

section \<open>Routed events and their queues\<close>

record RouteKey =
  rk_market_ticker :: string
  rk_shard_id :: usize

record RoutedFrame =
  rtf_exchange :: ExchangeId
  rtf_market_ticker :: string
  rtf_sequence_id :: "SequenceId option"
  rtf_recv_ns :: TimestampNs
  rtf_raw_payload :: string

record RoutedEvent =
  rev_route_key :: RouteKey
  rev_frame :: RoutedFrame

definition RoutedEvent_default :: RoutedEvent where
  "RoutedEvent_default = \<lparr> rev_route_key = \<lparr> rk_market_ticker = '''', rk_shard_id = 0 \<rparr>,
     rev_frame = \<lparr> rtf_exchange = Ex_kUnknown, rtf_market_ticker = '''', rtf_sequence_id = None,
       rtf_recv_ns = 0, rtf_raw_payload = '''' \<rparr> \<rparr>"

record SpscRoutedEventQueue =
  rq_buffer :: "RoutedEvent list"
  rq_capacity :: usize
  rq_head :: usize
  rq_tail :: usize

definition kMinQueueCapacity :: usize where
  "kMinQueueCapacity = 2"

definition SpscRoutedEventQueue_new :: "usize \<Rightarrow> SpscRoutedEventQueue" where
  "SpscRoutedEventQueue_new capacity =
     (let cap = (if capacity < kMinQueueCapacity then kMinQueueCapacity else capacity)
      in \<lparr> rq_buffer = replicate cap RoutedEvent_default, rq_capacity = cap, rq_head = 0, rq_tail = 0 \<rparr>)"

definition rq_increment :: "SpscRoutedEventQueue \<Rightarrow> usize \<Rightarrow> usize" where
  "rq_increment q index = (index + 1) mod rq_capacity q"

definition rq_try_push :: "SpscRoutedEventQueue \<Rightarrow> RoutedEvent \<Rightarrow> SpscRoutedEventQueue \<times> bool" where
  "rq_try_push q event =
     (let head = rq_head q; next_head = rq_increment q head in
      if next_head = rq_tail q then (q, False)
      else (q\<lparr>rq_buffer := (rq_buffer q)[head := event], rq_head := next_head\<rparr>, True))"

text \<open>
  The pop moves the event out of its slot. What a move leaves behind is unspecified, so it is
  the argument \<open>moved_from\<close>, arbitrary in every statement.
\<close>

definition rq_try_pop ::
    "(RoutedEvent \<Rightarrow> RoutedEvent) \<Rightarrow> SpscRoutedEventQueue \<Rightarrow> SpscRoutedEventQueue \<times> RoutedEvent option" where
  "rq_try_pop moved_from q =
     (let tail = rq_tail q in
      if tail = rq_head q then (q, None)
      else (q\<lparr>rq_buffer := (rq_buffer q)[tail := moved_from (rq_buffer q ! tail)],
              rq_tail := rq_increment q tail\<rparr>, Some (rq_buffer q ! tail)))"

section \<open>Dispatch to shards\<close>

record ShardedEventDispatchConfig =
  sdc_shard_count :: usize
  sdc_per_shard_queue_capacity :: usize

record ShardedEventDispatch =
  sd_queues :: "SpscRoutedEventQueue list"
  sd_dropped_count :: usize

definition kMinShardCount :: usize where
  "kMinShardCount = 1"

definition ShardedEventDispatch_new :: "ShardedEventDispatchConfig \<Rightarrow> ShardedEventDispatch" where
  "ShardedEventDispatch_new config =
     (let resolved_shards = (if sdc_shard_count config = 0 then kMinShardCount else sdc_shard_count config)
      in \<lparr> sd_queues = map (\<lambda>i. SpscRoutedEventQueue_new (sdc_per_shard_queue_capacity config)) [0..<resolved_shards],
           sd_dropped_count = 0 \<rparr>)"

definition sharded_dispatch ::
    "ShardedEventDispatch \<Rightarrow> RouteKey \<Rightarrow> RoutedFrame \<Rightarrow> ShardedEventDispatch \<times> bool" where
  "sharded_dispatch d route_key frame =
     (if rk_shard_id route_key \<ge> length (sd_queues d)
      then (d\<lparr>sd_dropped_count := sd_dropped_count d + 1\<rparr>, False)
      else let shard = rk_shard_id route_key;
               r = rq_try_push (sd_queues d ! shard) \<lparr> rev_route_key = route_key, rev_frame = frame \<rparr>
           in if \<not> snd r then (d\<lparr>sd_dropped_count := sd_dropped_count d + 1\<rparr>, False)
              else (d\<lparr>sd_queues := (sd_queues d)[shard := fst r]\<rparr>, True))"

definition sharded_try_pop ::
    "(RoutedEvent \<Rightarrow> RoutedEvent) \<Rightarrow> ShardedEventDispatch \<Rightarrow> usize \<Rightarrow> ShardedEventDispatch \<times> RoutedEvent option" where
  "sharded_try_pop moved_from d shard_id =
     (if shard_id \<ge> length (sd_queues d) then (d, None)
      else let r = rq_try_pop moved_from (sd_queues d ! shard_id)
           in (d\<lparr>sd_queues := (sd_queues d)[shard_id := fst r]\<rparr>, snd r))"

definition sharded_shard_count :: "ShardedEventDispatch \<Rightarrow> usize" where
  "sharded_shard_count d = length (sd_queues d)"

type_synonym NoopShardDispatch = usize

definition noop_dispatch :: "NoopShardDispatch \<Rightarrow> RouteKey \<Rightarrow> RoutedFrame \<Rightarrow> NoopShardDispatch \<times> bool" where
  "noop_dispatch dispatched_count route_key frame = (dispatched_count + 1, True)"

section \<open>The router\<close>

text \<open>The dispatch the router holds by reference is an argument, with its state \<open>'d\<close>.\<close>

record Router =
  rt_decode_fn :: DecodeFn
  rt_shard_count :: usize
  rt_exchange_id :: ExchangeId

definition Router_new :: "DecodeFn \<Rightarrow> DecodeFn option \<Rightarrow> usize \<Rightarrow> ExchangeId \<Rightarrow> Router" where
  "Router_new kalshi_extract decode_fn shard_count exchange_id = \<lparr>
     rt_decode_fn = (case decode_fn of Some f \<Rightarrow> f | None \<Rightarrow> resolve_decoder kalshi_extract De_kKalshi),
     rt_shard_count = (if shard_count = 0 then kMinShardCount else shard_count),
     rt_exchange_id = exchange_id \<rparr>"

definition compute_shard_id :: "(string \<Rightarrow> usize) \<Rightarrow> string \<Rightarrow> usize \<Rightarrow> usize" where
  "compute_shard_id hash market_ticker shard_count =
     (if market_ticker = '''' then 0 else hash market_ticker mod shard_count)"

definition route_key_of :: "(string \<Rightarrow> usize) \<Rightarrow> Router \<Rightarrow> ExtractedFields \<Rightarrow> RouteKey" where
  "route_key_of hash r extracted = \<lparr> rk_market_ticker = ef_market_ticker extracted,
     rk_shard_id = compute_shard_id hash (ef_market_ticker extracted) (rt_shard_count r) \<rparr>"

definition routed_frame_of :: "Router \<Rightarrow> RawFrame \<Rightarrow> ExtractedFields \<Rightarrow> RoutedFrame" where
  "routed_frame_of r frame extracted =
     (let recv_count = ef_recv_timestamp extracted
      in \<lparr> rtf_exchange = rt_exchange_id r, rtf_market_ticker = ef_market_ticker extracted,
           rtf_sequence_id = ef_seq_id extracted,
           rtf_recv_ns = (if recv_count > 0 then of_int recv_count else 0),
           rtf_raw_payload = rf_payload frame \<rparr>)"

definition Router_route ::
    "('d \<Rightarrow> RouteKey \<Rightarrow> RoutedFrame \<Rightarrow> 'd \<times> bool) \<Rightarrow> (string \<Rightarrow> usize) \<Rightarrow> Router \<Rightarrow> 'd \<Rightarrow> RawFrame \<Rightarrow> 'd \<times> bool" where
  "Router_route dispatch hash r d frame =
     (let extracted = rt_decode_fn r frame in
      if \<not> fields_ok extracted then (d, False)
      else dispatch d (route_key_of hash r extracted) (routed_frame_of r frame extracted))"

section \<open>The routed queue is a bounded FIFO\<close>

definition rq_ok :: "SpscRoutedEventQueue \<Rightarrow> bool" where
  "rq_ok q \<longleftrightarrow> ring_ok (rq_capacity q) (rq_buffer q) (rq_head q) (rq_tail q)"

definition rq_items :: "SpscRoutedEventQueue \<Rightarrow> RoutedEvent list" where
  "rq_items q = ring_items (rq_capacity q) (rq_buffer q) (rq_head q) (rq_tail q)"

definition rq_limit :: "SpscRoutedEventQueue \<Rightarrow> nat" where
  "rq_limit q = rq_capacity q - 1"

lemma rq_new_ok: "rq_ok (SpscRoutedEventQueue_new c)" "rq_items (SpscRoutedEventQueue_new c) = []"
  by (auto simp: rq_ok_def rq_items_def SpscRoutedEventQueue_new_def ring_ok_def ring_items_def
      ring_count_def kMinQueueCapacity_def Let_def)

lemma rq_full_iff:
  assumes "rq_ok q"
  shows "rq_increment q (rq_head q) = rq_tail q \<longleftrightarrow> rq_limit q \<le> length (rq_items q)"
  using assms ring_count_full [of "rq_head q" "rq_capacity q" "rq_tail q"]
    ring_count_less [of "rq_capacity q" "rq_head q" "rq_tail q"]
  by (auto simp: rq_ok_def rq_items_def rq_limit_def rq_increment_def ring_ok_def)

text \<open>After the tail has moved on, its old slot no longer belongs to the contents.\<close>

lemma ring_items_scrub_tail:
  assumes "ring_ok c buf h t" "h \<noteq> t"
  shows "ring_items c (buf[t := x]) h ((t + 1) mod c) = ring_items c buf h ((t + 1) mod c)"
proof (unfold ring_items_def, rule map_cong [OF refl])
  fix i assume "i \<in> set [0..<ring_count c h ((t + 1) mod c)]"
  then have "i + 1 < c"
    using ring_count_pop [of h c t] ring_count_less [of c h t] assms by (auto simp: ring_ok_def)
  moreover have "((t + 1) mod c + i) mod c = (t + (i + 1)) mod c" by (simp add: mod_add_left_eq)
  moreover have "(t + (i + 1)) mod c \<noteq> t" if "i + 1 < c"
    using that assms(1) by (auto simp: ring_ok_def mod_if)
  ultimately show "buf[t := x] ! (((t + 1) mod c + i) mod c) = buf ! (((t + 1) mod c + i) mod c)"
    by (metis nth_list_update_neq)
qed

interpretation routed_queue: bounded_fifo rq_ok rq_items rq_limit rq_try_push "rq_try_pop moved_from"
  for moved_from
proof unfold_locales
  fix q :: SpscRoutedEventQueue and x assume ok: "rq_ok q"
  let ?c = "rq_capacity q" and ?h = "rq_head q" and ?t = "rq_tail q"
  have ring: "ring_ok ?c (rq_buffer q) ?h ?t" using ok by (simp add: rq_ok_def)
  show "snd (rq_try_push q x) \<and> rq_items (fst (rq_try_push q x)) = rq_items q @ [x] \<and>
      rq_ok (fst (rq_try_push q x)) \<and> rq_limit (fst (rq_try_push q x)) = rq_limit q"
    if "length (rq_items q) < rq_limit q"
  proof -
    have "(?h + 1) mod ?c \<noteq> ?t" using rq_full_iff [OF ok] that by (simp add: rq_increment_def)
    then show ?thesis
      using ring ring_items_push [OF ring, of x]
      by (simp add: rq_try_push_def rq_increment_def rq_items_def rq_ok_def rq_limit_def Let_def)
  qed
  show "rq_try_push q x = (q, False)" if "rq_limit q \<le> length (rq_items q)"
    using rq_full_iff [OF ok] that by (simp add: rq_try_push_def)
  show "rq_try_pop moved_from q = (q, None)" if "rq_items q = []"
    using ring_items_empty [OF ring] that by (simp add: rq_try_pop_def rq_items_def)
  show "snd (rq_try_pop moved_from q) = Some x \<and> rq_items (fst (rq_try_pop moved_from q)) = xs \<and>
      rq_ok (fst (rq_try_pop moved_from q)) \<and> rq_limit (fst (rq_try_pop moved_from q)) = rq_limit q"
    if "rq_items q = x # xs" for xs
  proof -
    have "?h \<noteq> ?t" using ring_items_empty [OF ring] that by (auto simp: rq_items_def)
    then show ?thesis
      using ring ring_items_pop [OF ring] ring_items_scrub_tail [OF ring] that
      by (simp add: rq_try_pop_def rq_increment_def rq_items_def rq_ok_def rq_limit_def Let_def)
  qed
qed

section \<open>The dispatch interface\<close>

text \<open>
  What the router relies on in \<open>IShardDispatch\<close>: an accepted event is appended to the queue of the
  shard its key names and to no other; a refused one changes no queue.
\<close>

locale shard_dispatch =
  fixes valid :: "'d \<Rightarrow> bool" and dispatch :: "'d \<Rightarrow> RouteKey \<Rightarrow> RoutedFrame \<Rightarrow> 'd \<times> bool"
    and queued :: "'d \<Rightarrow> usize \<Rightarrow> RoutedEvent list"
  assumes dispatch_valid: "valid d \<Longrightarrow> valid (fst (dispatch d k f))"
    and dispatch_accepts: "valid d \<Longrightarrow> snd (dispatch d k f) \<Longrightarrow> queued (fst (dispatch d k f)) i =
      (if i = rk_shard_id k then queued d i @ [\<lparr> rev_route_key = k, rev_frame = f \<rparr>] else queued d i)"
    and dispatch_refuses: "valid d \<Longrightarrow> \<not> snd (dispatch d k f) \<Longrightarrow> queued (fst (dispatch d k f)) i = queued d i"
begin

definition event_of :: "(string \<Rightarrow> usize) \<Rightarrow> Router \<Rightarrow> RawFrame \<Rightarrow> RoutedEvent" where
  "event_of hash r frame = \<lparr> rev_route_key = route_key_of hash r (rt_decode_fn r frame),
     rev_frame = routed_frame_of r frame (rt_decode_fn r frame) \<rparr>"

fun route_all :: "(string \<Rightarrow> usize) \<Rightarrow> Router \<Rightarrow> 'd \<Rightarrow> RawFrame list \<Rightarrow> 'd \<times> RoutedEvent list" where
  "route_all hash r d [] = (d, [])"
| "route_all hash r d (f # fs) =
     (let res = Router_route dispatch hash r d f; rest = route_all hash r (fst res) fs
      in (fst rest, (if snd res then [event_of hash r f] else []) @ snd rest))"

lemma route_valid: "valid d \<Longrightarrow> valid (fst (Router_route dispatch hash r d f))"
  by (simp add: Router_route_def Let_def dispatch_valid)

lemma route_queued:
  assumes "valid d"
  shows "queued (fst (Router_route dispatch hash r d f)) i = queued d i @
    (if snd (Router_route dispatch hash r d f) \<and> rk_shard_id (rev_route_key (event_of hash r f)) = i
     then [event_of hash r f] else [])"
  by (cases "snd (dispatch d (route_key_of hash r (rt_decode_fn r f)) (routed_frame_of r f (rt_decode_fn r f)))")
    (auto simp: Router_route_def Let_def event_of_def dispatch_accepts [OF assms] dispatch_refuses [OF assms])

lemma route_all_queued:
  "valid d \<Longrightarrow> queued (fst (route_all hash r d fs)) i
    = queued d i @ filter (\<lambda>e. rk_shard_id (rev_route_key e) = i) (snd (route_all hash r d fs))"
proof (induction fs arbitrary: d)
  case (Cons f fs)
  then show ?case using route_valid [OF Cons.prems] route_queued [OF Cons.prems]
    by (simp add: Let_def)
qed simp

lemma route_all_keys:
  "e \<in> set (snd (route_all hash r d fs)) \<Longrightarrow>
   rk_shard_id (rev_route_key e) = compute_shard_id hash (rk_market_ticker (rev_route_key e)) (rt_shard_count r)"
  by (induction fs arbitrary: d)
    (auto simp: Let_def event_of_def route_key_of_def split: if_splits)

lemma market_in_one_shard:
  fixes hash r
  assumes "valid d" and "queued d = (\<lambda>i. [])"
  defines "shard \<equiv> \<lambda>m. compute_shard_id hash m (rt_shard_count r)"
  shows "filter (\<lambda>e. rk_market_ticker (rev_route_key e) = m) (queued (fst (route_all hash r d fs)) i)
    = (if i = shard m then filter (\<lambda>e. rk_market_ticker (rev_route_key e) = m) (snd (route_all hash r d fs)) else [])"
proof -
  have "filter (\<lambda>e. rk_market_ticker (rev_route_key e) = m) (filter (\<lambda>e. rk_shard_id (rev_route_key e) = i) evs)
      = (if i = shard m then filter (\<lambda>e. rk_market_ticker (rev_route_key e) = m) evs else [])"
    if "\<And>e. e \<in> set evs \<Longrightarrow> rk_shard_id (rev_route_key e) = shard (rk_market_ticker (rev_route_key e))" for evs
    using that by (induction evs) auto
  from this [of "snd (route_all hash r d fs)"] route_all_keys [of _ hash r d fs] show ?thesis
    unfolding route_all_queued [OF assms(1)] assms(2) shard_def by simp
qed

end

definition sharded_ok :: "ShardedEventDispatch \<Rightarrow> bool" where
  "sharded_ok d \<longleftrightarrow> list_all rq_ok (sd_queues d)"

definition shard_items :: "ShardedEventDispatch \<Rightarrow> usize \<Rightarrow> RoutedEvent list" where
  "shard_items d i = (if i < length (sd_queues d) then rq_items (sd_queues d ! i) else [])"

lemma sharded_dispatchE:
  assumes ok: "sharded_ok d" and disp: "sharded_dispatch d k f = (d', r)"
  obtains (dropped) "\<not> r" "sd_queues d' = sd_queues d" "sd_dropped_count d' = sd_dropped_count d + 1"
    | (queued) q where "r" "rk_shard_id k < length (sd_queues d)" "rq_ok q"
      "rq_items q = rq_items (sd_queues d ! rk_shard_id k) @ [\<lparr> rev_route_key = k, rev_frame = f \<rparr>]"
      "d' = d\<lparr>sd_queues := (sd_queues d)[rk_shard_id k := q]\<rparr>"
proof (cases "rk_shard_id k < length (sd_queues d)")
  case True
  let ?q = "sd_queues d ! rk_shard_id k" and ?e = "\<lparr> rev_route_key = k, rev_frame = f \<rparr>"
  have "rq_ok ?q" using ok True by (simp add: sharded_ok_def list_all_length)
  then show ?thesis
  proof (rule routed_queue.push_cases [of ?q ?e])
    assume "rq_try_push ?q ?e = (?q, False)"
    then show ?thesis using disp True dropped by (auto simp: sharded_dispatch_def Let_def)
  next
    fix q assume "rq_try_push ?q ?e = (q, True)" "rq_items q = rq_items ?q @ [?e]" "rq_ok q"
    then show ?thesis using disp True queued by (auto simp: sharded_dispatch_def Let_def)
  qed
next
  case False
  then show ?thesis using disp dropped by (auto simp: sharded_dispatch_def)
qed

interpretation sharded: shard_dispatch sharded_ok sharded_dispatch shard_items
proof unfold_locales
  fix d k f i assume ok: "sharded_ok d"
  obtain d' r where disp: "sharded_dispatch d k f = (d', r)" by fastforce
  note E = sharded_dispatchE [OF ok disp]
  show "sharded_ok (fst (sharded_dispatch d k f))"
    by (rule E) (use ok disp in \<open>auto simp: sharded_ok_def list_all_length nth_list_update\<close>)
  show "shard_items (fst (sharded_dispatch d k f)) i =
      (if i = rk_shard_id k then shard_items d i @ [\<lparr> rev_route_key = k, rev_frame = f \<rparr>] else shard_items d i)"
    if "snd (sharded_dispatch d k f)"
    by (rule E) (use that disp in \<open>auto simp: shard_items_def nth_list_update\<close>)
  show "shard_items (fst (sharded_dispatch d k f)) i = shard_items d i" if "\<not> snd (sharded_dispatch d k f)"
    by (rule E) (use that disp in \<open>auto simp: shard_items_def\<close>)
qed

lemma sharded_new:
  "sharded_ok (ShardedEventDispatch_new cfg)" "shard_items (ShardedEventDispatch_new cfg) = (\<lambda>i. [])"
  "length (sd_queues (ShardedEventDispatch_new cfg)) = (if sdc_shard_count cfg = 0 then 1 else sdc_shard_count cfg)"
  by (auto simp: sharded_ok_def shard_items_def ShardedEventDispatch_new_def kMinShardCount_def Let_def
      list_all_iff rq_new_ok)

lemma compute_shard_id_less: "0 < n \<Longrightarrow> compute_shard_id hash m n < n"
  by (simp add: compute_shard_id_def)

section \<open>Claims about routing\<close>

text \<open>
  The ring of a shard is a bounded FIFO as well, whatever a move leaves behind in a slot: the
  accepted events are the popped ones followed by those still queued.
\<close>

theorem routed_queue_fifo:
  assumes "routed_queue.run_ops moved_from (SpscRoutedEventQueue_new c) ops = (q, accepted, popped)"
  shows "accepted = popped @ rq_items q \<and> length (rq_items q) \<le> max c 2 - 1"
proof -
  have "rq_limit (SpscRoutedEventQueue_new c) = max c 2 - 1"
    by (simp add: rq_limit_def SpscRoutedEventQueue_new_def kMinQueueCapacity_def Let_def max_def)
  then show ?thesis
    using routed_queue.run_ops_fifo [OF rq_new_ok(1) _ assms] by (simp add: rq_new_ok(2))
qed

theorem routed_queue_fifo_witness:
  "let (q, accepted, popped) = routed_queue.run_ops (\<lambda>e. RoutedEvent_default) (SpscRoutedEventQueue_new 2)
       [Push RoutedEvent_default, Pop, Push RoutedEvent_default]
   in accepted = popped @ rq_items q"
  using routed_queue_fifo [of "\<lambda>e. RoutedEvent_default" 2 "[Push RoutedEvent_default, Pop, Push RoutedEvent_default]"]
  by (simp split: prod.split)

text \<open>
  Routing keeps the events of a market together and in order: for any hash function and any
  frames, the queue of the shard that a market hashes to holds exactly the accepted frames of
  that market in arrival order (among those of other markets), every other queue holds none,
  and the shard number is in range whenever the router and the dispatch agree on the count.
\<close>

theorem market_routed_in_order:
  assumes "sharded.route_all hash r (ShardedEventDispatch_new cfg) frames = (d, events)"
    and "rt_shard_count r = sharded_shard_count (ShardedEventDispatch_new cfg)"
  shows "filter (\<lambda>e. rk_market_ticker (rev_route_key e) = m) (shard_items d i)
      = (if i = compute_shard_id hash m (rt_shard_count r)
         then filter (\<lambda>e. rk_market_ticker (rev_route_key e) = m) events else []) \<and>
    compute_shard_id hash m (rt_shard_count r) < sharded_shard_count (ShardedEventDispatch_new cfg)"
proof -
  have "0 < sharded_shard_count (ShardedEventDispatch_new cfg)"
    by (simp add: sharded_shard_count_def sharded_new(3))
  then show ?thesis
    using sharded.market_in_one_shard [OF sharded_new(1,2), of m hash r cfg frames i] assms
    by (simp add: compute_shard_id_less)
qed

definition example_router :: Router where
  "example_router = Router_new (\<lambda>f. \<lparr> ef_status = Dec_kOk, ef_market_ticker = rf_source f, ef_seq_id = None,
     ef_recv_timestamp = rf_recv_timestamp f, ef_source = rf_source f \<rparr>) None 2 Ex_kKalshi"

definition example_frame :: "string \<Rightarrow> RawFrame" where
  "example_frame m = RawFrame_default\<lparr>rf_source := m\<rparr>"

theorem market_routed_in_order_witness:
  "let (d, events) = sharded.route_all length example_router
        (ShardedEventDispatch_new \<lparr> sdc_shard_count = 2, sdc_per_shard_queue_capacity = 8 \<rparr>)
        [example_frame ''A'', example_frame ''BB'', example_frame ''A'']
   in filter (\<lambda>e. rk_market_ticker (rev_route_key e) = ''A'') (shard_items d 1)
      = filter (\<lambda>e. rk_market_ticker (rev_route_key e) = ''A'') events"
proof -
  have "compute_shard_id length ''A'' (rt_shard_count example_router) = 1"
    "rt_shard_count example_router = sharded_shard_count (ShardedEventDispatch_new
        \<lparr> sdc_shard_count = 2, sdc_per_shard_queue_capacity = 8 \<rparr>)"
    by (simp_all add: example_router_def Router_new_def compute_shard_id_def sharded_shard_count_def
        sharded_new(3))
  moreover obtain d events where run: "sharded.route_all length example_router
      (ShardedEventDispatch_new \<lparr> sdc_shard_count = 2, sdc_per_shard_queue_capacity = 8 \<rparr>)
      [example_frame ''A'', example_frame ''BB'', example_frame ''A''] = (d, events)" by fastforce
  ultimately show ?thesis
    using market_routed_in_order [OF run, of "''A''" 1] unfolding run by simp
qed

end
