(* ===== verification/Book_Store.thy ===== *)
theory Book_Store
  imports Market_Types
begin

text \<open>
  \<open>shards/book_store.cpp\<close>: one order book per market ticker, built from snapshots, deltas and
  trades. Deltas that arrive before the first snapshot are buffered (at most
  \<open>kMaxPendingDeltas\<close>) and replayed when it comes; a book whose buffer overflows or whose replay
  fails is desynchronised until the next good snapshot. The ordered maps of price levels are HOL
  maps (no operation iterates over them); the hash map of books is an association list.
\<close>

section \<open>Data\<close>

type_synonym BookLevels = "PriceTicks \<rightharpoonup> QtyLots"

record PendingDelta =
  pd_sequence_id :: "SequenceId option"
  pd_delta :: DeltaData

record BookState =
  bk_market_ticker :: string
  bk_last_seq_id :: "SequenceId option"
  bk_has_snapshot :: bool
  bk_desynced :: bool
  bk_bids :: BookLevels
  bk_asks :: BookLevels
  bk_pending_deltas :: "PendingDelta list"
  bk_last_trade :: "TradeData option"
  bk_snapshot_count :: u64
  bk_delta_count :: u64
  bk_trade_count :: u64
  bk_buffered_delta_count :: u64
  bk_replayed_delta_count :: u64
  bk_dropped_pending_delta_count :: u64
  bk_desync_count :: u64
  bk_stale_sequence_count :: u64
  bk_apply_reject_count :: u64

definition BookState_default :: BookState where
  "BookState_default = \<lparr> bk_market_ticker = '''', bk_last_seq_id = None, bk_has_snapshot = False,
     bk_desynced = False, bk_bids = Map.empty, bk_asks = Map.empty, bk_pending_deltas = [],
     bk_last_trade = None, bk_snapshot_count = 0, bk_delta_count = 0, bk_trade_count = 0,
     bk_buffered_delta_count = 0, bk_replayed_delta_count = 0, bk_dropped_pending_delta_count = 0,
     bk_desync_count = 0, bk_stale_sequence_count = 0, bk_apply_reject_count = 0 \<rparr>"

type_synonym BookStore = "(string \<times> BookState) list"

definition kMaxPendingDeltas :: usize where
  "kMaxPendingDeltas = 512"

section \<open>Operations on one book\<close>

definition mark_desynced :: "BookState \<Rightarrow> u64 \<Rightarrow> BookState" where
  "mark_desynced b dropped_pending_count = b\<lparr>
     bk_desync_count := (if bk_desynced b then bk_desync_count b else bk_desync_count b + 1),
     bk_desynced := True, bk_has_snapshot := False, bk_last_seq_id := None,
     bk_bids := Map.empty, bk_asks := Map.empty, bk_pending_deltas := [],
     bk_dropped_pending_delta_count := bk_dropped_pending_delta_count b + dropped_pending_count \<rparr>"

definition advance_sequence_if_present :: "BookState \<Rightarrow> SequenceId option \<Rightarrow> BookState \<times> bool" where
  "advance_sequence_if_present b sequence_id =
     (case sequence_id of
        None \<Rightarrow> (b, True)
      | Some next_seq \<Rightarrow>
          (case bk_last_seq_id b of
             Some last_seq \<Rightarrow>
               (if next_seq \<le> last_seq
                then (b\<lparr>bk_stale_sequence_count := bk_stale_sequence_count b + 1\<rparr>, False)
                else (b\<lparr>bk_last_seq_id := sequence_id\<rparr>, True))
           | None \<Rightarrow> (b\<lparr>bk_last_seq_id := sequence_id\<rparr>, True)))"

text \<open>The loop over the levels of one side: the levels entered so far, and whether all were valid.\<close>

fun load_levels :: "BookLevels \<Rightarrow> Level list \<Rightarrow> BookLevels \<times> bool" where
  "load_levels m [] = (m, True)"
| "load_levels m (l # ls) =
     (if lv_price_ticks l < 0 \<or> lv_qty_lots l \<le> 0 then (m, False)
      else load_levels (m(lv_price_ticks l \<mapsto> lv_qty_lots l)) ls)"

definition apply_snapshot_data :: "BookState \<Rightarrow> SnapshotData \<Rightarrow> BookState \<times> bool" where
  "apply_snapshot_data b snapshot =
     (let b = b\<lparr>bk_bids := Map.empty, bk_asks := Map.empty\<rparr>;
          (bids, bids_ok) = load_levels (bk_bids b) (sd_bids snapshot)
      in if \<not> bids_ok then (b\<lparr>bk_bids := bids\<rparr>, False)
         else let (asks, asks_ok) = load_levels (bk_asks b) (sd_asks snapshot)
              in (b\<lparr>bk_bids := bids, bk_asks := asks\<rparr>, asks_ok))"

definition bump_level :: "BookLevels \<Rightarrow> PriceTicks \<Rightarrow> QtyLots \<Rightarrow> BookLevels" where
  "bump_level m price delta_qty =
     (let existing_qty = (case m price of None \<Rightarrow> 0 | Some q \<Rightarrow> q);
          updated_qty = i64_add existing_qty delta_qty
      in if updated_qty \<le> 0 then m(price := None) else m(price \<mapsto> updated_qty))"

definition apply_delta_data :: "BookState \<Rightarrow> DeltaData \<Rightarrow> BookState \<times> bool" where
  "apply_delta_data b delta =
     (if dd_price_ticks delta < 0 then (b, False)
      else case dd_side delta of
          Side_kBid \<Rightarrow> (b\<lparr>bk_bids := bump_level (bk_bids b) (dd_price_ticks delta) (dd_delta_qty_lots delta)\<rparr>, True)
        | Side_kBuy \<Rightarrow> (b\<lparr>bk_bids := bump_level (bk_bids b) (dd_price_ticks delta) (dd_delta_qty_lots delta)\<rparr>, True)
        | Side_kAsk \<Rightarrow> (b\<lparr>bk_asks := bump_level (bk_asks b) (dd_price_ticks delta) (dd_delta_qty_lots delta)\<rparr>, True)
        | Side_kSell \<Rightarrow> (b\<lparr>bk_asks := bump_level (bk_asks b) (dd_price_ticks delta) (dd_delta_qty_lots delta)\<rparr>, True)
        | Side_kUnknown \<Rightarrow> (b, False))"

lemma advance_pending [simp]:
  "bk_pending_deltas (fst (advance_sequence_if_present b s)) = bk_pending_deltas b"
  by (simp add: advance_sequence_if_present_def split: option.split)

lemma apply_delta_pending [simp]:
  "bk_pending_deltas (fst (apply_delta_data b d)) = bk_pending_deltas b"
  by (simp add: apply_delta_data_def split: Side.split)

text \<open>The replay loop takes one delta off the buffer per round.\<close>

function replay_pending_deltas :: "BookState \<Rightarrow> BookState \<times> bool" where
  "replay_pending_deltas b =
     (case bk_pending_deltas b of
        [] \<Rightarrow> (b, True)
      | pending # rest \<Rightarrow>
          let b1 = b\<lparr>bk_pending_deltas := rest\<rparr>;
              adv = advance_sequence_if_present b1 (pd_sequence_id pending)
          in if \<not> snd adv
             then replay_pending_deltas
                    ((fst adv)\<lparr>bk_dropped_pending_delta_count := bk_dropped_pending_delta_count (fst adv) + 1\<rparr>)
             else let app = apply_delta_data (fst adv) (pd_delta pending)
                  in if \<not> snd app
                     then (mark_desynced (fst app) (of_nat (length (bk_pending_deltas (fst app))) + 1), False)
                     else replay_pending_deltas ((fst app)\<lparr>
                            bk_delta_count := bk_delta_count (fst app) + 1,
                            bk_replayed_delta_count := bk_replayed_delta_count (fst app) + 1\<rparr>))"
  by pat_completeness auto
termination
  by (relation "measure (\<lambda>b. length (bk_pending_deltas b))") (auto simp: Let_def)

declare replay_pending_deltas.simps [simp del]

section \<open>The store\<close>

text \<open>Rejecting an event counts it on the book.\<close>

definition reject_event :: "BookState \<Rightarrow> BookState \<times> bool" where
  "reject_event b = (b\<lparr>bk_apply_reject_count := bk_apply_reject_count b + 1\<rparr>, False)"

definition apply_snapshot_event :: "BookState \<Rightarrow> NormalizedEvent \<Rightarrow> BookState \<times> bool" where
  "apply_snapshot_event b event =
     (case ne_data event of
        Data_Snapshot snapshot \<Rightarrow>
          (case apply_snapshot_data b snapshot of
             (b, False) \<Rightarrow> reject_event b
           | (b, True) \<Rightarrow>
              (case replay_pending_deltas (b\<lparr> bk_has_snapshot := True, bk_desynced := False,
                      bk_last_seq_id := effective_sequence_id event,
                      bk_snapshot_count := bk_snapshot_count b + 1 \<rparr>) of
                 (b, False) \<Rightarrow> reject_event b
               | (b, True) \<Rightarrow> (b, True)))
      | _ \<Rightarrow> reject_event b)"

definition apply_delta_event :: "BookState \<Rightarrow> NormalizedEvent \<Rightarrow> BookState \<times> bool" where
  "apply_delta_event b event =
     (case ne_data event of
        Data_Delta delta \<Rightarrow>
          if bk_desynced b then reject_event b
          else if \<not> bk_has_snapshot b then
            (if length (bk_pending_deltas b) \<ge> kMaxPendingDeltas
             then reject_event (mark_desynced b (of_nat (length (bk_pending_deltas b)) + 1))
             else (b\<lparr> bk_pending_deltas := bk_pending_deltas b @
                        [\<lparr> pd_sequence_id = effective_sequence_id event, pd_delta = delta \<rparr>],
                      bk_buffered_delta_count := bk_buffered_delta_count b + 1 \<rparr>, True))
          else (case advance_sequence_if_present b (effective_sequence_id event) of
                  (b, False) \<Rightarrow> reject_event b
                | (b, True) \<Rightarrow>
                   (case apply_delta_data b delta of
                      (b, False) \<Rightarrow> reject_event b
                    | (b, True) \<Rightarrow> (b\<lparr>bk_delta_count := bk_delta_count b + 1\<rparr>, True)))
      | _ \<Rightarrow> reject_event b)"

definition apply_trade_event :: "BookState \<Rightarrow> NormalizedEvent \<Rightarrow> BookState \<times> bool" where
  "apply_trade_event b event =
     (case ne_data event of
        Data_Trade trade \<Rightarrow>
          if bk_desynced b then reject_event b
          else (case advance_sequence_if_present b (effective_sequence_id event) of
                  (b, False) \<Rightarrow> reject_event b
                | (b, True) \<Rightarrow> (b\<lparr>bk_last_trade := Some trade, bk_trade_count := bk_trade_count b + 1\<rparr>, True))
      | _ \<Rightarrow> reject_event b)"

definition apply_to_book :: "BookState \<Rightarrow> NormalizedEvent \<Rightarrow> BookState \<times> bool" where
  "apply_to_book b event =
     (case ne_type event of
        Ev_kSnapshot \<Rightarrow> apply_snapshot_event b event
      | Ev_kDelta \<Rightarrow> apply_delta_event b event
      | Ev_kTrade \<Rightarrow> apply_trade_event b event
      | _ \<Rightarrow> reject_event b)"

definition book_or_new :: "BookStore \<Rightarrow> string \<Rightarrow> BookState" where
  "book_or_new books ticker =
     (case map_of books ticker of Some b \<Rightarrow> b
      | None \<Rightarrow> BookState_default\<lparr>bk_market_ticker := ticker\<rparr>)"

definition BookStore_apply :: "BookStore \<Rightarrow> NormalizedEvent \<Rightarrow> BookStore \<times> bool" where
  "BookStore_apply books event =
     (if ne_market_ticker event = '''' \<or> ne_type event = Ev_kUnknown then (books, False)
      else let r = apply_to_book (book_or_new books (ne_market_ticker event)) event
           in (AList.update (ne_market_ticker event) (fst r) books, snd r))"

definition BookStore_find :: "BookStore \<Rightarrow> string \<Rightarrow> BookState option" where
  "BookStore_find books ticker = map_of books ticker"

definition BookStore_size :: "BookStore \<Rightarrow> usize" where
  "BookStore_size books = length books"

section \<open>Outcomes of the operations on one book\<close>

definition bid_side :: "Side \<Rightarrow> bool" where
  "bid_side s \<longleftrightarrow> s = Side_kBid \<or> s = Side_kBuy"

definition delta_valid :: "DeltaData \<Rightarrow> bool" where
  "delta_valid d \<longleftrightarrow> 0 \<le> dd_price_ticks d \<and> dd_side d \<noteq> Side_kUnknown"

definition stale :: "SequenceId option \<Rightarrow> SequenceId option \<Rightarrow> bool" where
  "stale prev s \<longleftrightarrow> (case (prev, s) of (Some l, Some n) \<Rightarrow> n \<le> l | _ \<Rightarrow> False)"

definition next_last :: "SequenceId option \<Rightarrow> SequenceId option \<Rightarrow> SequenceId option" where
  "next_last prev s = (if s = None then prev else s)"

lemma advance_eq:
  "advance_sequence_if_present b s =
     (if stale (bk_last_seq_id b) s
      then (b\<lparr>bk_stale_sequence_count := bk_stale_sequence_count b + 1\<rparr>, False)
      else (b\<lparr>bk_last_seq_id := next_last (bk_last_seq_id b) s\<rparr>, True))"
  by (simp add: advance_sequence_if_present_def stale_def next_last_def split: option.split)

definition delta_bids :: "DeltaData \<Rightarrow> BookLevels \<Rightarrow> BookLevels" where
  "delta_bids d m = (if bid_side (dd_side d) then bump_level m (dd_price_ticks d) (dd_delta_qty_lots d) else m)"

definition delta_asks :: "DeltaData \<Rightarrow> BookLevels \<Rightarrow> BookLevels" where
  "delta_asks d m = (if bid_side (dd_side d) then m else bump_level m (dd_price_ticks d) (dd_delta_qty_lots d))"

lemma apply_delta_eq:
  "apply_delta_data b d =
     (if delta_valid d
      then (b\<lparr>bk_bids := delta_bids d (bk_bids b), bk_asks := delta_asks d (bk_asks b)\<rparr>, True)
      else (b, False))"
  by (cases "dd_side d")
    (simp_all add: apply_delta_data_def delta_valid_def delta_bids_def delta_asks_def bid_side_def)

lemma replay_nil [simp]: "bk_pending_deltas b = [] \<Longrightarrow> replay_pending_deltas b = (b, True)"
  by (subst replay_pending_deltas.simps) simp

lemma replay_cons:
  assumes "bk_pending_deltas b = p # ps"
  shows "replay_pending_deltas b =
    (if stale (bk_last_seq_id b) (pd_sequence_id p)
     then replay_pending_deltas (b\<lparr> bk_pending_deltas := ps,
        bk_stale_sequence_count := bk_stale_sequence_count b + 1,
        bk_dropped_pending_delta_count := bk_dropped_pending_delta_count b + 1 \<rparr>)
     else if delta_valid (pd_delta p)
     then replay_pending_deltas (b\<lparr> bk_pending_deltas := ps,
        bk_last_seq_id := next_last (bk_last_seq_id b) (pd_sequence_id p),
        bk_bids := delta_bids (pd_delta p) (bk_bids b), bk_asks := delta_asks (pd_delta p) (bk_asks b),
        bk_delta_count := bk_delta_count b + 1,
        bk_replayed_delta_count := bk_replayed_delta_count b + 1 \<rparr>)
     else (mark_desynced (b\<lparr> bk_pending_deltas := ps,
        bk_last_seq_id := next_last (bk_last_seq_id b) (pd_sequence_id p) \<rparr>) (of_nat (length ps) + 1), False))"
  by (subst replay_pending_deltas.simps) (simp add: assms advance_eq apply_delta_eq Let_def)

text \<open>Induction over the rounds of the replay loop.\<close>

lemma replay_induct [case_names finished stale applied failed]:
  assumes "\<And>b. bk_pending_deltas b = [] \<Longrightarrow> P b (b, True)"
    and "\<And>b p ps r. bk_pending_deltas b = p # ps \<Longrightarrow> stale (bk_last_seq_id b) (pd_sequence_id p) \<Longrightarrow>
      P (b\<lparr> bk_pending_deltas := ps, bk_stale_sequence_count := bk_stale_sequence_count b + 1,
            bk_dropped_pending_delta_count := bk_dropped_pending_delta_count b + 1 \<rparr>) r \<Longrightarrow> P b r"
    and "\<And>b p ps r. bk_pending_deltas b = p # ps \<Longrightarrow> \<not> stale (bk_last_seq_id b) (pd_sequence_id p) \<Longrightarrow>
      delta_valid (pd_delta p) \<Longrightarrow>
      P (b\<lparr> bk_pending_deltas := ps,
        bk_last_seq_id := next_last (bk_last_seq_id b) (pd_sequence_id p),
        bk_bids := delta_bids (pd_delta p) (bk_bids b), bk_asks := delta_asks (pd_delta p) (bk_asks b),
        bk_delta_count := bk_delta_count b + 1,
        bk_replayed_delta_count := bk_replayed_delta_count b + 1 \<rparr>) r \<Longrightarrow> P b r"
    and "\<And>b p ps. bk_pending_deltas b = p # ps \<Longrightarrow> \<not> stale (bk_last_seq_id b) (pd_sequence_id p) \<Longrightarrow>
      \<not> delta_valid (pd_delta p) \<Longrightarrow>
      P b (mark_desynced (b\<lparr> bk_pending_deltas := ps,
        bk_last_seq_id := next_last (bk_last_seq_id b) (pd_sequence_id p) \<rparr>) (of_nat (length ps) + 1), False)"
  shows "P b (replay_pending_deltas b)"
proof (induction "bk_pending_deltas b" arbitrary: b)
  case Nil
  then show ?case using assms(1) [of b] by simp
next
  case (Cons p ps)
  note pend = Cons.hyps(2) [symmetric]
  show ?case
    unfolding replay_cons [OF pend]
    using Cons.hyps(1) assms(2) [OF pend] assms(3) [OF pend] assms(4) [OF pend] by simp
qed

section \<open>The invariant of a book\<close>

text \<open>
  Price levels are non-negative with positive quantity; the buffer is bounded and empty once a
  snapshot is in; a desynchronised book has no snapshot, no buffer and no sequence number.
\<close>

definition levels_ok :: "BookLevels \<Rightarrow> bool" where
  "levels_ok m \<longleftrightarrow> (\<forall>p q. m p = Some q \<longrightarrow> 0 \<le> p \<and> 0 < q)"

definition sync_ok :: "BookState \<Rightarrow> bool" where
  "sync_ok b \<longleftrightarrow> length (bk_pending_deltas b) \<le> kMaxPendingDeltas \<and>
     (bk_has_snapshot b \<longrightarrow> bk_pending_deltas b = [] \<and> \<not> bk_desynced b) \<and>
     (bk_desynced b \<longrightarrow> bk_pending_deltas b = [] \<and> bk_last_seq_id b = None)"

definition book_ok :: "string \<Rightarrow> BookState \<Rightarrow> bool" where
  "book_ok t b \<longleftrightarrow> bk_market_ticker b = t \<and> levels_ok (bk_bids b) \<and> levels_ok (bk_asks b) \<and> sync_ok b"

definition store_inv :: "BookStore \<Rightarrow> bool" where
  "store_inv books \<longleftrightarrow> distinct (map fst books) \<and>
     (\<forall>t b. map_of books t = Some b \<longrightarrow> t \<noteq> '''' \<and> book_ok t b)"

lemma levels_ok_simps [simp]:
  "levels_ok Map.empty" "levels_ok m \<Longrightarrow> levels_ok (m(p := None))"
  "levels_ok m \<Longrightarrow> 0 \<le> p \<Longrightarrow> 0 < q \<Longrightarrow> levels_ok (m(p \<mapsto> q))"
  by (auto simp: levels_ok_def)

lemma bump_level_ok [simp]: "levels_ok m \<Longrightarrow> 0 \<le> p \<Longrightarrow> levels_ok (bump_level m p d)"
  by (simp add: bump_level_def Let_def)

lemma load_levels_ok [simp]: "levels_ok m \<Longrightarrow> levels_ok (fst (load_levels m ls))"
  by (induction m ls rule: load_levels.induct) simp_all

lemma load_levels_okD: "load_levels m ls = (m', ok) \<Longrightarrow> levels_ok m \<Longrightarrow> levels_ok m'"
  using load_levels_ok [of m ls] by simp

lemma delta_levels_ok [simp]:
  "delta_valid d \<Longrightarrow> levels_ok m \<Longrightarrow> levels_ok (delta_bids d m)"
  "delta_valid d \<Longrightarrow> levels_ok m \<Longrightarrow> levels_ok (delta_asks d m)"
  by (simp_all add: delta_bids_def delta_asks_def delta_valid_def)

lemma book_ok_reject [simp]: "book_ok t (fst (reject_event b)) \<longleftrightarrow> book_ok t b"
  by (simp add: reject_event_def book_ok_def sync_ok_def)

lemma book_ok_desynced [simp]: "bk_market_ticker b = t \<Longrightarrow> book_ok t (mark_desynced b n)"
  by (simp add: mark_desynced_def book_ok_def sync_ok_def)

lemma replay_ok:
  assumes "bk_market_ticker b = t" "levels_ok (bk_bids b)" "levels_ok (bk_asks b)" "\<not> bk_desynced b"
  shows "book_ok t (fst (replay_pending_deltas b)) \<and>
    (snd (replay_pending_deltas b) \<longrightarrow> bk_has_snapshot (fst (replay_pending_deltas b)) = bk_has_snapshot b)"
  using assms
proof (induction rule: replay_induct)
  case (finished b)
  then show ?case by (simp add: book_ok_def sync_ok_def)
qed simp_all

lemma apply_snapshot_ticker [simp]:
  "bk_market_ticker (fst (apply_snapshot_data b s)) = bk_market_ticker b"
  "bk_pending_deltas (fst (apply_snapshot_data b s)) = bk_pending_deltas b"
  "bk_has_snapshot (fst (apply_snapshot_data b s)) = bk_has_snapshot b"
  "bk_desynced (fst (apply_snapshot_data b s)) = bk_desynced b"
  "bk_last_seq_id (fst (apply_snapshot_data b s)) = bk_last_seq_id b"
  by (simp_all add: apply_snapshot_data_def Let_def split: prod.split)

lemma apply_snapshot_levels:
  "levels_ok (bk_bids (fst (apply_snapshot_data b s)))" "levels_ok (bk_asks (fst (apply_snapshot_data b s)))"
  by (auto simp: apply_snapshot_data_def Let_def dest: load_levels_okD split: prod.split)

lemma apply_to_book_ok:
  assumes "book_ok t b"
  shows "book_ok t (fst (apply_to_book b e))"
proof -
  have snap: "book_ok t (fst (apply_snapshot_event b e))"
  proof (cases "ne_data e")
    case (Data_Snapshot s)
    obtain b1 ok where b1: "apply_snapshot_data b s = (b1, ok)" by fastforce
    then have "book_ok t b1"
      using assms apply_snapshot_ticker [of b s] apply_snapshot_levels [of b s]
      by (simp add: book_ok_def sync_ok_def)
    moreover let ?b2 = "b1\<lparr> bk_has_snapshot := True, bk_desynced := False,
      bk_last_seq_id := effective_sequence_id e, bk_snapshot_count := bk_snapshot_count b1 + 1 \<rparr>"
    have "book_ok t b1 \<Longrightarrow> book_ok t (fst (replay_pending_deltas ?b2))"
      using replay_ok [of ?b2 t] by (simp add: book_ok_def)
    ultimately show ?thesis
      by (auto simp: apply_snapshot_event_def Data_Snapshot b1 split: prod.split bool.split)
  qed (simp_all add: apply_snapshot_event_def assms)
  have del: "book_ok t (fst (apply_delta_event b e))"
    using assms
    by (cases "ne_data e"; cases "bk_desynced b"; cases "bk_has_snapshot b")
      (simp_all add: apply_delta_event_def advance_eq apply_delta_eq book_ok_def sync_ok_def
        reject_event_def mark_desynced_def)
  have trd: "book_ok t (fst (apply_trade_event b e))"
    using assms
    by (auto simp: apply_trade_event_def advance_eq split: EventData.split)
      (auto simp: book_ok_def sync_ok_def)
  show ?thesis
    using snap del trd assms by (simp add: apply_to_book_def split: EventType.split)
qed


section \<open>Runs of the store\<close>

definition store_run :: "BookStore \<Rightarrow> NormalizedEvent list \<Rightarrow> BookStore" where
  "store_run books es = fold (\<lambda>e books. fst (BookStore_apply books e)) es books"

definition book_run :: "BookState \<Rightarrow> NormalizedEvent list \<Rightarrow> BookState" where
  "book_run b es = fold (\<lambda>e b. fst (apply_to_book b e)) es b"

definition concerns :: "string \<Rightarrow> NormalizedEvent \<Rightarrow> bool" where
  "concerns t e \<longleftrightarrow> ne_market_ticker e = t \<and> ne_type e \<noteq> Ev_kUnknown"

lemma store_run_simps [simp]:
  "store_run books [] = books" "store_run books (e # es) = store_run (fst (BookStore_apply books e)) es"
  by (simp_all add: store_run_def)

lemma book_run_simps [simp]:
  "book_run b [] = b" "book_run b (e # es) = book_run (fst (apply_to_book b e)) es"
  "book_run b (es @ fs) = book_run (book_run b es) fs"
  by (simp_all add: book_run_def)

lemma book_or_new_ok:
  assumes "store_inv books"
  shows "book_ok t (book_or_new books t)"
  using assms
  by (cases "map_of books t")
    (simp_all add: book_or_new_def store_inv_def book_ok_def sync_ok_def BookState_default_def)

lemma store_apply_inv:
  assumes inv: "store_inv books"
  shows "store_inv (fst (BookStore_apply books e))"
proof (cases "ne_market_ticker e = '''' \<or> ne_type e = Ev_kUnknown")
  case True
  then show ?thesis using inv by (simp add: BookStore_apply_def)
next
  case False
  let ?t = "ne_market_ticker e" and ?r = "apply_to_book (book_or_new books (ne_market_ticker e)) e"
  have eq: "fst (BookStore_apply books e) = AList.update ?t (fst ?r) books"
    using False by (simp add: BookStore_apply_def Let_def)
  have ok: "book_ok ?t (fst ?r)"
    by (rule apply_to_book_ok [OF book_or_new_ok [OF inv]])
  have "t \<noteq> '''' \<and> book_ok t b" if "map_of (AList.update ?t (fst ?r) books) t = Some b" for t b
    using that ok False inv unfolding map_of_upd store_inv_def by (auto split: if_splits)
  moreover have "distinct (map fst (AList.update ?t (fst ?r) books))"
    using inv unfolding store_inv_def by (intro distinct_upd) simp
  ultimately show ?thesis unfolding eq store_inv_def by blast
qed

lemma store_run_inv: "store_inv books \<Longrightarrow> store_inv (store_run books es)"
  by (induction es arbitrary: books) (simp_all add: store_apply_inv)

text \<open>The events of other markets do not touch a book.\<close>

lemma book_or_new_apply:
  assumes "t \<noteq> ''''"
  shows "book_or_new (fst (BookStore_apply books e)) t =
    (if concerns t e then fst (apply_to_book (book_or_new books t) e) else book_or_new books t)"
  using assms by (auto simp: BookStore_apply_def concerns_def book_or_new_def Let_def)

lemma store_run_book:
  "t \<noteq> '''' \<Longrightarrow> book_or_new (store_run books es) t = book_run (book_or_new books t) (filter (concerns t) es)"
  by (induction es arbitrary: books) (simp_all add: book_or_new_apply)

section \<open>The view of a book and what events do to it\<close>

text \<open>
  The abstract book: the last sequence number and the two sides. Live deltas and replayed deltas
  act on it in the same way.
\<close>

type_synonym BookView = "SequenceId option \<times> BookLevels \<times> BookLevels"

definition book_view :: "BookState \<Rightarrow> BookView" where
  "book_view b = (bk_last_seq_id b, bk_bids b, bk_asks b)"

definition view_delta :: "PendingDelta \<Rightarrow> BookView \<Rightarrow> BookView" where
  "view_delta p v = (case v of (l, bids, asks) \<Rightarrow>
     if stale l (pd_sequence_id p) then v
     else (next_last l (pd_sequence_id p), delta_bids (pd_delta p) bids, delta_asks (pd_delta p) asks))"

definition good_delta :: "NormalizedEvent \<Rightarrow> bool" where
  "good_delta e \<longleftrightarrow> ne_type e = Ev_kDelta \<and> (case ne_data e of Data_Delta d \<Rightarrow> delta_valid d | _ \<Rightarrow> False)"

definition level_valid :: "Level \<Rightarrow> bool" where
  "level_valid l \<longleftrightarrow> 0 \<le> lv_price_ticks l \<and> 0 < lv_qty_lots l"

definition good_snapshot :: "NormalizedEvent \<Rightarrow> bool" where
  "good_snapshot e \<longleftrightarrow> ne_type e = Ev_kSnapshot \<and> (case ne_data e of
     Data_Snapshot s \<Rightarrow> list_all level_valid (sd_bids s) \<and> list_all level_valid (sd_asks s) | _ \<Rightarrow> False)"

definition pending_of :: "NormalizedEvent \<Rightarrow> PendingDelta" where
  "pending_of e = \<lparr> pd_sequence_id = effective_sequence_id e,
     pd_delta = (case ne_data e of Data_Delta d \<Rightarrow> d
       | _ \<Rightarrow> \<lparr> dd_side = Side_kUnknown, dd_price_ticks = 0, dd_delta_qty_lots = 0 \<rparr>) \<rparr>"

definition levels_of :: "Level list \<Rightarrow> BookLevels" where
  "levels_of ls = map_of (rev (map (\<lambda>l. (lv_price_ticks l, lv_qty_lots l)) ls))"

definition snapshot_view :: "NormalizedEvent \<Rightarrow> BookView" where
  "snapshot_view e = (effective_sequence_id e, case ne_data e of
     Data_Snapshot s \<Rightarrow> (levels_of (sd_bids s), levels_of (sd_asks s)) | _ \<Rightarrow> (Map.empty, Map.empty))"

lemma load_levels_valid:
  "list_all level_valid ls \<Longrightarrow> load_levels m ls = (m ++ levels_of ls, True)"
  by (induction ls arbitrary: m) (simp_all add: level_valid_def levels_of_def not_less not_le)

lemma replay_view:
  assumes "list_all (delta_valid \<circ> pd_delta) (bk_pending_deltas b)"
  shows "snd (replay_pending_deltas b) \<and>
    book_view (fst (replay_pending_deltas b)) = fold view_delta (bk_pending_deltas b) (book_view b) \<and>
    bk_has_snapshot (fst (replay_pending_deltas b)) = bk_has_snapshot b \<and>
    bk_desynced (fst (replay_pending_deltas b)) = bk_desynced b"
  using assms by (induction rule: replay_induct) (simp_all add: book_view_def view_delta_def)

text \<open>A good snapshot brings any book into sync: its levels, then the buffered deltas.\<close>

lemma snapshot_syncs:
  assumes "good_snapshot e" "list_all (delta_valid \<circ> pd_delta) (bk_pending_deltas b)"
  defines "r \<equiv> apply_to_book b e"
  shows "snd r \<and> book_view (fst r) = fold view_delta (bk_pending_deltas b) (snapshot_view e) \<and>
    bk_has_snapshot (fst r) \<and> \<not> bk_desynced (fst r)"
proof -
  obtain s where s: "ne_type e = Ev_kSnapshot" "ne_data e = Data_Snapshot s"
      "list_all level_valid (sd_bids s)" "list_all level_valid (sd_asks s)"
    using assms(1) by (auto simp: good_snapshot_def split: EventData.splits)
  let ?b = "b\<lparr> bk_bids := levels_of (sd_bids s), bk_asks := levels_of (sd_asks s),
    bk_has_snapshot := True, bk_desynced := False,
    bk_last_seq_id := effective_sequence_id e, bk_snapshot_count := bk_snapshot_count b + 1 \<rparr>"
  obtain b' ok where b': "replay_pending_deltas ?b = (b', ok)" by fastforce
  then have "ok" using replay_view [of ?b] assms(2) by simp
  with b' have "r = replay_pending_deltas ?b"
    by (simp add: r_def apply_to_book_def apply_snapshot_event_def s apply_snapshot_data_def
        load_levels_valid)
  then show ?thesis
    using replay_view [of ?b] assms(2) by (simp add: snapshot_view_def s book_view_def)
qed

lemma live_delta:
  assumes "good_delta e" "bk_has_snapshot b" "\<not> bk_desynced b"
  defines "b' \<equiv> fst (apply_to_book b e)"
  shows "book_view b' = view_delta (pending_of e) (book_view b)" "bk_has_snapshot b'" "\<not> bk_desynced b'"
  using assms
  by (auto simp: good_delta_def apply_to_book_def apply_delta_event_def advance_eq apply_delta_eq
      reject_event_def book_view_def view_delta_def pending_of_def split: EventData.splits)

lemma live_run:
  assumes "list_all good_delta es" "bk_has_snapshot b" "\<not> bk_desynced b"
  shows "book_view (book_run b es) = fold (view_delta \<circ> pending_of) es (book_view b) \<and>
    bk_has_snapshot (book_run b es)"
  using assms
proof (induction es arbitrary: b)
  case (Cons e es)
  then show ?case using live_delta [of e b] by simp
qed simp

lemma buffered_run:
  assumes "list_all good_delta es" "\<not> bk_has_snapshot b" "\<not> bk_desynced b"
    "length (bk_pending_deltas b) + length es \<le> kMaxPendingDeltas"
  shows "bk_pending_deltas (book_run b es) = bk_pending_deltas b @ map pending_of es \<and>
    \<not> bk_has_snapshot (book_run b es) \<and> \<not> bk_desynced (book_run b es)"
  using assms
proof (induction es arbitrary: b)
  case (Cons e es)
  then have "fst (apply_to_book b e) = b\<lparr> bk_pending_deltas := bk_pending_deltas b @ [pending_of e],
      bk_buffered_delta_count := bk_buffered_delta_count b + 1 \<rparr>"
    by (auto simp: good_delta_def apply_to_book_def apply_delta_event_def pending_of_def
        split: EventData.splits)
  then show ?case using Cons by simp
qed simp

lemma good_delta_pending:
  "list_all good_delta es \<Longrightarrow> list_all (delta_valid \<circ> pd_delta) (map pending_of es)"
  by (induction es) (auto simp: good_delta_def pending_of_def split: EventData.splits)


section \<open>Sequence numbers between snapshots\<close>

text \<open>The sequence numbers of the events that a run of one book accepts.\<close>

fun accepted_seqs :: "BookState \<Rightarrow> NormalizedEvent list \<Rightarrow> SequenceId list" where
  "accepted_seqs b [] = []"
| "accepted_seqs b (e # es) =
     (if snd (apply_to_book b e)
      then (case effective_sequence_id e of Some s \<Rightarrow> [s] | None \<Rightarrow> []) else [])
     @ accepted_seqs (fst (apply_to_book b e)) es"

definition above :: "SequenceId option \<Rightarrow> SequenceId \<Rightarrow> bool" where
  "above l s \<longleftrightarrow> (case l of Some n \<Rightarrow> n < s | None \<Rightarrow> True)"

lemma synced_step:
  assumes "bk_has_snapshot b" "\<not> bk_desynced b" "ne_type e \<noteq> Ev_kSnapshot"
  defines "b' \<equiv> fst (apply_to_book b e)"
  shows "bk_has_snapshot b'" "\<not> bk_desynced b'"
    and "bk_last_seq_id b' = bk_last_seq_id b \<or>
      (\<exists>s. effective_sequence_id e = Some s \<and> bk_last_seq_id b' = Some s \<and> above (bk_last_seq_id b) s)"
    and "snd (apply_to_book b e) \<Longrightarrow> effective_sequence_id e = Some s \<Longrightarrow>
      bk_last_seq_id b' = Some s \<and> above (bk_last_seq_id b) s"
  using assms
  by (auto simp: apply_to_book_def apply_delta_event_def apply_trade_event_def advance_eq
      apply_delta_eq reject_event_def next_last_def stale_def above_def
      split: EventType.splits EventData.splits option.splits if_splits)

lemma above_trans: "above l s \<Longrightarrow> s < s' \<Longrightarrow> above l s'"
  by (auto simp: above_def split: option.splits)

lemma accepted_increasing:
  assumes "bk_has_snapshot b" "\<not> bk_desynced b" "\<forall>e \<in> set es. ne_type e \<noteq> Ev_kSnapshot"
  shows "sorted_wrt (<) (accepted_seqs b es) \<and> (\<forall>s \<in> set (accepted_seqs b es). above (bk_last_seq_id b) s)"
  using assms
proof (induction es arbitrary: b)
  case (Cons e es)
  let ?r = "apply_to_book b e"
  have type: "ne_type e \<noteq> Ev_kSnapshot" using Cons.prems(3) by simp
  note step = synced_step [OF Cons.prems(1,2) type]
  have IH: "sorted_wrt (<) (accepted_seqs (fst ?r) es)"
    "\<forall>s \<in> set (accepted_seqs (fst ?r) es). above (bk_last_seq_id (fst ?r)) s"
    using Cons.IH [OF step(1,2)] Cons.prems(3) by auto
  have rest: "\<forall>s \<in> set (accepted_seqs (fst ?r) es). above (bk_last_seq_id b) s"
    using IH(2) step(3) by (auto simp: above_def split: option.splits intro: less_trans)
  show ?case
  proof (cases "snd ?r")
    case True
    then show ?thesis
      using IH rest step(4) by (cases "effective_sequence_id e") (auto simp: above_def)
  next
    case False
    then show ?thesis using IH rest by simp
  qed
qed simp

section \<open>Desynchronised books\<close>

lemma desynced_run:
  assumes "bk_desynced b" "\<not> bk_has_snapshot b" "bk_pending_deltas b = []"
    "\<forall>e \<in> set es. ne_type e \<noteq> Ev_kSnapshot"
  shows "bk_desynced (book_run b es) \<and> \<not> bk_has_snapshot (book_run b es) \<and>
    bk_pending_deltas (book_run b es) = [] \<and> book_view (book_run b es) = book_view b \<and>
    bk_last_trade (book_run b es) = bk_last_trade b"
  using assms
proof (induction es arbitrary: b)
  case (Cons e es)
  then have "fst (apply_to_book b e) = fst (reject_event b)"
    by (auto simp: apply_to_book_def apply_delta_event_def apply_trade_event_def
        split: EventType.splits EventData.splits)
  then show ?case using Cons by (simp add: reject_event_def book_view_def)
qed simp

lemma overflow_desyncs:
  assumes "good_delta e" "\<not> bk_has_snapshot b" "\<not> bk_desynced b"
    "length (bk_pending_deltas b) = kMaxPendingDeltas"
  shows "bk_desynced (fst (apply_to_book b e)) \<and> \<not> bk_has_snapshot (fst (apply_to_book b e)) \<and>
    bk_pending_deltas (fst (apply_to_book b e)) = []"
  using assms
  by (auto simp: good_delta_def apply_to_book_def apply_delta_event_def mark_desynced_def
      reject_event_def split: EventData.splits)

section \<open>Accounting of buffered deltas\<close>

text \<open>
  Every buffered delta is still in the buffer, was replayed, or was dropped; the delta that
  overflows a buffer is counted as dropped without ever having been buffered.
\<close>

definition delta_balance :: "BookState \<Rightarrow> u64" where
  "delta_balance b = bk_replayed_delta_count b + bk_dropped_pending_delta_count b
     + of_nat (length (bk_pending_deltas b)) - bk_buffered_delta_count b"

definition overflows :: "BookState \<Rightarrow> NormalizedEvent \<Rightarrow> bool" where
  "overflows b e \<longleftrightarrow> ne_type e = Ev_kDelta \<and> (\<exists>d. ne_data e = Data_Delta d) \<and> \<not> bk_desynced b \<and>
     \<not> bk_has_snapshot b \<and> kMaxPendingDeltas \<le> length (bk_pending_deltas b)"

lemma delta_balance_reject [simp]: "delta_balance (fst (reject_event b)) = delta_balance b"
  by (simp add: reject_event_def delta_balance_def)

lemma replay_balance: "delta_balance (fst (replay_pending_deltas b)) = delta_balance b"
  by (induction rule: replay_induct) (simp_all add: delta_balance_def mark_desynced_def)

lemma apply_to_book_balance:
  "delta_balance (fst (apply_to_book b e)) = delta_balance b + (if overflows b e then 1 else 0)"
proof (cases "ne_type e = Ev_kSnapshot")
  case True
  have "delta_balance (fst (apply_snapshot_event b e)) = delta_balance b"
  proof (cases "ne_data e")
    case (Data_Snapshot s)
    obtain b1 ok where b1: "apply_snapshot_data b s = (b1, ok)" by fastforce
    then have bal: "delta_balance b1 = delta_balance b"
      by (auto simp: apply_snapshot_data_def Let_def delta_balance_def split: prod.splits if_splits)
    let ?b2 = "b1\<lparr> bk_has_snapshot := True, bk_desynced := False,
      bk_last_seq_id := effective_sequence_id e, bk_snapshot_count := bk_snapshot_count b1 + 1 \<rparr>"
    obtain b3 ok' where b3: "replay_pending_deltas ?b2 = (b3, ok')" by fastforce
    then have "delta_balance b3 = delta_balance b"
      using replay_balance [of ?b2] bal by (simp add: delta_balance_def)
    with b1 b3 bal show ?thesis
      by (cases ok; cases ok') (simp_all add: apply_snapshot_event_def Data_Snapshot)
  qed (simp_all add: apply_snapshot_event_def)
  with True show ?thesis by (simp add: apply_to_book_def overflows_def)
next
  case False
  then show ?thesis
    by (auto simp: apply_to_book_def apply_delta_event_def apply_trade_event_def advance_eq
        apply_delta_eq overflows_def reject_event_def delta_balance_def mark_desynced_def
        split: EventType.splits EventData.splits)
qed


section \<open>Claims about the book store\<close>

text \<open>Events used by the witnesses.\<close>

definition example_snapshot_event :: NormalizedEvent where
  "example_snapshot_event = NormalizedEvent_default\<lparr> ne_type := Ev_kSnapshot, ne_market_ticker := ''MKT'',
     ne_raw_sequence_id := Some 10,
     ne_data := Data_Snapshot \<lparr> sd_bids = [\<lparr>lv_price_ticks = 40, lv_qty_lots = 5\<rparr>],
                                sd_asks = [\<lparr>lv_price_ticks = 60, lv_qty_lots = 7\<rparr>] \<rparr> \<rparr>"

definition example_delta_event :: "SequenceId \<Rightarrow> PriceTicks \<Rightarrow> QtyLots \<Rightarrow> NormalizedEvent" where
  "example_delta_event s p q = NormalizedEvent_default\<lparr> ne_type := Ev_kDelta, ne_market_ticker := ''MKT'',
     ne_raw_sequence_id := Some s,
     ne_data := Data_Delta \<lparr> dd_side = Side_kBid, dd_price_ticks = p, dd_delta_qty_lots = q \<rparr> \<rparr>"

lemmas example_event_defs = example_snapshot_event_def example_delta_event_def NormalizedEvent_default_def

lemma example_events [simp]:
  "good_snapshot example_snapshot_event" "concerns ''MKT'' example_snapshot_event"
  "0 \<le> p \<Longrightarrow> good_delta (example_delta_event s p q)" "concerns ''MKT'' (example_delta_event s p q)"
  "ne_type (example_delta_event s p q) = Ev_kDelta" "effective_sequence_id (example_delta_event s p q) = Some s"
  by (simp_all add: good_snapshot_def good_delta_def concerns_def level_valid_def delta_valid_def
      example_event_defs effective_sequence_id_def)

definition example_synced_book :: BookState where
  "example_synced_book = fst (apply_to_book (BookState_default\<lparr>bk_market_ticker := ''MKT''\<rparr>) example_snapshot_event)"

lemma example_synced_book:
  "bk_has_snapshot example_synced_book" "\<not> bk_desynced example_synced_book"
  "book_view example_synced_book = (Some 10, [40 \<mapsto> 5], [60 \<mapsto> 7])"
  using snapshot_syncs [of example_snapshot_event "BookState_default\<lparr>bk_market_ticker := ''MKT''\<rparr>"]
  by (simp_all add: example_synced_book_def)
    (simp_all add: BookState_default_def snapshot_view_def levels_of_def example_event_defs
      effective_sequence_id_def)

definition example_desynced_store :: BookStore where
  "example_desynced_store = [(''MKT'', mark_desynced (BookState_default\<lparr>bk_market_ticker := ''MKT''\<rparr>) 0)]"

lemma example_desynced_store:
  "store_inv example_desynced_store" "bk_desynced (book_or_new example_desynced_store ''MKT'')"
  by (simp_all add: example_desynced_store_def store_inv_def book_or_new_def)
    (simp_all add: mark_desynced_def BookState_default_def)

text \<open>
  Whatever events arrive, the store stays consistent: one book per market under its own
  ticker, levels with non-negative price and positive quantity, at most \<open>kMaxPendingDeltas\<close>
  buffered deltas and none once a snapshot is in, and a desynchronised book without snapshot,
  buffer or sequence number.
\<close>

theorem store_consistent: "store_inv (store_run [] es)"
  by (rule store_run_inv) (simp add: store_inv_def)

text \<open>
  C9. Buffering is transparent: for a market without a snapshot yet, receiving deltas first and
  then the snapshot gives the same sides and the same last sequence number as receiving the
  snapshot first and the deltas live, whatever other markets do in between. At most
  \<open>kMaxPendingDeltas\<close> well-formed deltas are assumed; they may be stale.
\<close>

theorem buffered_replay_equals_live:
  assumes "t \<noteq> ''''" and "list_all good_delta ds" and "length ds \<le> kMaxPendingDeltas" and "good_snapshot s"
    and "\<not> bk_has_snapshot (book_or_new books t)" and "\<not> bk_desynced (book_or_new books t)"
    and "bk_pending_deltas (book_or_new books t) = []"
    and "filter (concerns t) es = ds @ [s]" and "filter (concerns t) fs = s # ds"
  shows "book_view (book_or_new (store_run books es) t) = book_view (book_or_new (store_run books fs) t) \<and>
    bk_has_snapshot (book_or_new (store_run books es) t) \<and> bk_has_snapshot (book_or_new (store_run books fs) t)"
proof -
  let ?b = "book_or_new books t"
  have buf: "bk_pending_deltas (book_run ?b ds) = map pending_of ds"
    using buffered_run [OF assms(2,5,6)] assms(3,7) by simp
  have "book_view (book_run ?b (ds @ [s])) = fold view_delta (map pending_of ds) (snapshot_view s)"
    "bk_has_snapshot (book_run ?b (ds @ [s]))"
    using snapshot_syncs [OF assms(4), of "book_run ?b ds"] good_delta_pending [OF assms(2)]
    by (simp_all add: buf)
  moreover have "book_view (book_run ?b (s # ds)) = fold (view_delta \<circ> pending_of) ds (snapshot_view s)"
    "bk_has_snapshot (book_run ?b (s # ds))"
    using snapshot_syncs [OF assms(4), of ?b] assms(7) live_run [OF assms(2), of "fst (apply_to_book ?b s)"]
    by simp_all
  ultimately show ?thesis
    by (simp add: store_run_book [OF assms(1)] assms(8,9) fold_map)
qed

theorem buffered_replay_equals_live_witness:
  "book_view (book_or_new (store_run [] [example_delta_event 9 40 1, example_delta_event 11 41 2, example_snapshot_event]) ''MKT'')
   = book_view (book_or_new (store_run [] [example_snapshot_event, example_delta_event 9 40 1, example_delta_event 11 41 2]) ''MKT'')"
proof -
  have "book_or_new [] ''MKT'' = BookState_default\<lparr>bk_market_ticker := ''MKT''\<rparr>"
    by (simp add: book_or_new_def)
  then show ?thesis
    using buffered_replay_equals_live [of "''MKT''" "[example_delta_event 9 40 1, example_delta_event 11 41 2]"
        example_snapshot_event "[]" "[example_delta_event 9 40 1, example_delta_event 11 41 2, example_snapshot_event]"
        "[example_snapshot_event, example_delta_event 9 40 1, example_delta_event 11 41 2]"]
    by (simp add: kMaxPendingDeltas_def BookState_default_def)
qed

text \<open>
  C19. Between snapshots a synchronised book accepts only strictly increasing sequence numbers,
  all above the last one it had: stale and repeated deltas and trades are rejected.
\<close>

theorem accepted_sequences_increase:
  assumes "bk_has_snapshot b" and "\<not> bk_desynced b" and "\<forall>e \<in> set es. ne_type e \<noteq> Ev_kSnapshot"
  shows "sorted_wrt (<) (accepted_seqs b es) \<and>
    (\<forall>s \<in> set (accepted_seqs b es). above (bk_last_seq_id b) s)"
  using assms by (rule accepted_increasing)

theorem accepted_sequences_increase_witness:
  "sorted_wrt (<) (accepted_seqs example_synced_book [example_delta_event 11 41 2, example_delta_event 11 42 2])"
  using accepted_sequences_increase [OF example_synced_book(1,2),
      of "[example_delta_event 11 41 2, example_delta_event 11 42 2]"] by (simp del: accepted_seqs.simps)

text \<open>
  C35. A desynchronised book ignores everything but snapshots: it keeps its levels, its last trade
  and its desynchronised state, and the next good snapshot brings it back with exactly the
  levels and sequence number of that snapshot.
\<close>

theorem desynced_until_snapshot:
  assumes "store_inv books" and "t \<noteq> ''''" and "bk_desynced (book_or_new books t)"
    and "\<forall>e \<in> set es. concerns t e \<longrightarrow> ne_type e \<noteq> Ev_kSnapshot"
    and "good_snapshot s" and "concerns t s"
  shows "bk_desynced (book_or_new (store_run books es) t) \<and>
    book_view (book_or_new (store_run books es) t) = book_view (book_or_new books t) \<and>
    bk_last_trade (book_or_new (store_run books es) t) = bk_last_trade (book_or_new books t) \<and>
    book_view (book_or_new (store_run books (es @ [s])) t) = snapshot_view s \<and>
    \<not> bk_desynced (book_or_new (store_run books (es @ [s])) t)"
proof -
  let ?b = "book_or_new books t" and ?es = "filter (concerns t) es"
  have "\<not> bk_has_snapshot ?b" "bk_pending_deltas ?b = []"
    using book_or_new_ok [OF assms(1), of t] assms(3) by (auto simp: book_ok_def sync_ok_def)
  then have run: "bk_desynced (book_run ?b ?es) \<and> bk_pending_deltas (book_run ?b ?es) = [] \<and>
      book_view (book_run ?b ?es) = book_view ?b \<and> bk_last_trade (book_run ?b ?es) = bk_last_trade ?b"
    using desynced_run [OF assms(3), of ?es] assms(4) by auto
  then show ?thesis
    using snapshot_syncs [OF assms(5), of "book_run ?b ?es"]
    by (simp add: store_run_book [OF assms(2)] assms(6))
qed

theorem desynced_until_snapshot_witness:
  "bk_desynced (book_or_new (store_run example_desynced_store [example_delta_event 11 41 2]) ''MKT'') \<and>
   book_view (book_or_new (store_run example_desynced_store [example_delta_event 11 41 2, example_snapshot_event]) ''MKT'')
     = (Some 10, [40 \<mapsto> 5], [60 \<mapsto> 7])"
proof -
  have "snapshot_view example_snapshot_event = (Some 10, [40 \<mapsto> 5], [60 \<mapsto> 7])"
    by (simp add: snapshot_view_def levels_of_def example_event_defs effective_sequence_id_def)
  then show ?thesis
    using desynced_until_snapshot [OF example_desynced_store(1) _ example_desynced_store(2),
        of "[example_delta_event 11 41 2]" example_snapshot_event]
    by simp
qed

text \<open>
  One delta more than the buffer holds desynchronises a book that has no snapshot: the
  buffer is discarded rather than replayed with a hole in it.
\<close>

theorem buffer_overflow_desyncs:
  assumes "t \<noteq> ''''" and "\<not> bk_has_snapshot (book_or_new books t)" and "\<not> bk_desynced (book_or_new books t)"
    and "bk_pending_deltas (book_or_new books t) = []"
    and "list_all good_delta (filter (concerns t) es)"
    and "length (filter (concerns t) es) = kMaxPendingDeltas + 1"
  shows "bk_desynced (book_or_new (store_run books es) t) \<and>
    bk_pending_deltas (book_or_new (store_run books es) t) = []"
proof -
  obtain ds d where split: "filter (concerns t) es = ds @ [d]"
    using assms(6) by (metis append_butlast_last_id length_0_conv add_is_0 one_neq_zero)
  then have ds: "list_all good_delta ds" "good_delta d" "length ds = kMaxPendingDeltas"
    using assms(5,6) by simp_all
  then show ?thesis
    using buffered_run [OF ds(1) assms(2,3)] assms(4) overflow_desyncs [OF ds(2), of "book_run (book_or_new books t) ds"]
    by (simp add: store_run_book [OF assms(1)] split)
qed

theorem buffer_overflow_desyncs_witness:
  "bk_desynced (book_or_new (store_run [] (replicate 513 (example_delta_event 1 40 1))) ''MKT'')"
proof -
  have "filter (concerns ''MKT'') (replicate n (example_delta_event 1 40 1)) = replicate n (example_delta_event 1 40 1)"
    "list_all good_delta (replicate n (example_delta_event 1 40 1))" for n
    by (induction n) simp_all
  then show ?thesis
    using buffer_overflow_desyncs [of "''MKT''" "[]" "replicate 513 (example_delta_event 1 40 1)"]
    by (simp add: kMaxPendingDeltas_def book_or_new_def BookState_default_def)
qed

text \<open>
  Books are independent: what the store holds for a market is what its own events make of
  it, in their order; events of other markets and unknown events never matter.
\<close>

theorem markets_are_independent:
  assumes "t \<noteq> ''''"
  shows "book_or_new (store_run books es) t = book_run (book_or_new books t) (filter (concerns t) es)"
  using assms by (rule store_run_book)

theorem markets_are_independent_witness:
  "book_or_new (store_run [] [example_snapshot_event]) ''OTHER'' = book_or_new [] ''OTHER''"
proof -
  have "\<not> concerns ''OTHER'' example_snapshot_event" by (simp add: concerns_def example_event_defs)
  then show ?thesis
    using markets_are_independent [of "''OTHER''" "[]" "[example_snapshot_event]"] by simp
qed

fun overflow_count :: "BookState \<Rightarrow> NormalizedEvent list \<Rightarrow> nat" where
  "overflow_count b [] = 0"
| "overflow_count b (e # es) =
     (if overflows b e then 1 else 0) + overflow_count (fst (apply_to_book b e)) es"

text \<open>
  No buffered delta is lost or counted twice: modulo \<open>2 ^ 64\<close>, replayed plus dropped plus still
  buffered equals buffered, plus one for every delta that overflowed a full buffer.
\<close>

theorem buffered_deltas_accounted:
  "delta_balance (book_run b es) = delta_balance b + of_nat (overflow_count b es)"
proof (induction es arbitrary: b)
  case (Cons e es)
  then show ?case by (simp add: apply_to_book_balance)
qed simp




end
