(* ===== verification/Shard_Worker.thy ===== *)
theory Shard_Worker
  imports Shard_Router Book_Store
begin

text \<open>
  \<open>shards/shard.cpp\<close> and \<open>shards/message_parser.cpp\<close>: the worker of a shard takes routed events off
  its queue, parses them, applies them to the shard's books and hands the applied ones to the
  event handler. One round of the worker's loop is \<open>shard_iteration\<close>; the stop token decides how
  many rounds there are. The parser of Kalshi payloads is an argument; the sleep of an idle round
  has no effect on the state.
\<close>

section \<open>Parsing\<close>

datatype ParseError = Pe_kNone | Pe_kInvalidJson | Pe_kMissingField | Pe_kInvalidField
  | Pe_kUnsupportedMessageType

record 'a ParseResult =
  pres_value :: "'a option"
  pres_error :: ParseError

definition parse_success :: "'a \<Rightarrow> 'a ParseResult" where
  "parse_success v = \<lparr> pres_value = Some v, pres_error = Pe_kNone \<rparr>"

definition parse_failure :: "ParseError \<Rightarrow> 'a ParseResult" where
  "parse_failure e = \<lparr> pres_value = None, pres_error = e \<rparr>"

definition parse_ok :: "'a ParseResult \<Rightarrow> bool" where
  "parse_ok r \<longleftrightarrow> pres_value r \<noteq> None"

record RouterFrame =
  rof_exchange :: ExchangeId
  rof_market_ticker :: string
  rof_sequence_id :: "SequenceId option"
  rof_recv_ns :: TimestampNs
  rof_raw_payload_view :: string

type_synonym ExchangeParser = "RouterFrame \<Rightarrow> NormalizedEvent ParseResult"

definition polymarket_parse :: ExchangeParser where
  "polymarket_parse frame = parse_failure Pe_kUnsupportedMessageType"

definition RoutedEventParser_parse :: "ExchangeParser \<Rightarrow> RoutedEvent \<Rightarrow> NormalizedEvent ParseResult" where
  "RoutedEventParser_parse kalshi_parse routed_event =
     (let f = rev_frame routed_event;
          frame = \<lparr> rof_exchange = rtf_exchange f, rof_market_ticker = rtf_market_ticker f,
                    rof_sequence_id = rtf_sequence_id f, rof_recv_ns = rtf_recv_ns f,
                    rof_raw_payload_view = rtf_raw_payload f \<rparr>
      in case rtf_exchange f of
           Ex_kKalshi \<Rightarrow> kalshi_parse frame
         | Ex_kPolymarket \<Rightarrow> polymarket_parse frame
         | Ex_kUnknown \<Rightarrow> parse_failure Pe_kUnsupportedMessageType)"

section \<open>The shard\<close>

record ShardStats =
  ss_consumed :: u64
  ss_parsed :: u64
  ss_parse_errors :: u64
  ss_applied :: u64
  ss_handler_invoked :: u64
  ss_handler_errors :: u64

definition ShardStats_zero :: ShardStats where
  "ShardStats_zero = \<lparr> ss_consumed = 0, ss_parsed = 0, ss_parse_errors = 0, ss_applied = 0,
     ss_handler_invoked = 0, ss_handler_errors = 0 \<rparr>"

record Shard =
  sh_shard_id :: usize
  sh_worker_joinable :: bool
  sh_running :: bool
  sh_stats :: ShardStats

definition Shard_new :: "usize \<Rightarrow> Shard" where
  "Shard_new shard_id = \<lparr> sh_shard_id = shard_id, sh_worker_joinable = False, sh_running = False,
     sh_stats = ShardStats_zero \<rparr>"

definition shard_start :: "Shard \<Rightarrow> Shard \<times> bool" where
  "shard_start s =
     (if sh_worker_joinable s then (s, False)
      else (s\<lparr> sh_stats := ShardStats_zero, sh_running := True, sh_worker_joinable := True \<rparr>, True))"

definition shard_stop :: "Shard \<Rightarrow> Shard" where
  "shard_stop s = (if \<not> sh_worker_joinable s then s\<lparr>sh_running := False\<rparr>
     else s\<lparr>sh_worker_joinable := False, sh_running := False\<rparr>)"

text \<open>What a shard works on: the dispatch, its books and the state of its event handler.\<close>

record 'h ShardContext =
  sc_shard :: Shard
  sc_dispatch :: ShardedEventDispatch
  sc_books :: BookStore
  sc_handler :: 'h

text \<open>An event that was parsed: applied to the books, then handed to the handler if there is one.\<close>

definition apply_parsed ::
    "('h \<Rightarrow> NormalizedEvent \<Rightarrow> 'h \<times> bool) option \<Rightarrow> NormalizedEvent \<Rightarrow> ShardStats \<times> BookStore \<times> 'h
      \<Rightarrow> ShardStats \<times> BookStore \<times> 'h" where
  "apply_parsed on_event event = (\<lambda>(st, books, h).
     let st = st\<lparr>ss_parsed := ss_parsed st + 1\<rparr>; r = BookStore_apply books event in
     if snd r then
       (case on_event of
          None \<Rightarrow> (st\<lparr>ss_applied := ss_applied st + 1\<rparr>, fst r, h)
        | Some handle \<Rightarrow>
            (st\<lparr> ss_applied := ss_applied st + 1, ss_handler_invoked := ss_handler_invoked st + 1,
                 ss_handler_errors := (if snd (handle h event) then ss_handler_errors st
                                       else ss_handler_errors st + 1) \<rparr>,
             fst r, fst (handle h event)))
     else (st\<lparr>ss_parse_errors := ss_parse_errors st + 1\<rparr>, fst r, h))"

definition consume_event ::
    "(RoutedEvent \<Rightarrow> NormalizedEvent ParseResult) \<Rightarrow> ('h \<Rightarrow> NormalizedEvent \<Rightarrow> 'h \<times> bool) option \<Rightarrow>
     RoutedEvent \<Rightarrow> ShardStats \<times> BookStore \<times> 'h \<Rightarrow> ShardStats \<times> BookStore \<times> 'h" where
  "consume_event parse on_event routed = (\<lambda>(st, books, h).
     let st = st\<lparr>ss_consumed := ss_consumed st + 1\<rparr> in
     case pres_value (parse routed) of
       None \<Rightarrow> (st\<lparr>ss_parse_errors := ss_parse_errors st + 1\<rparr>, books, h)
     | Some event \<Rightarrow> apply_parsed on_event event (st, books, h))"

definition shard_iteration ::
    "(RoutedEvent \<Rightarrow> RoutedEvent) \<Rightarrow> (RoutedEvent \<Rightarrow> NormalizedEvent ParseResult) \<Rightarrow>
     ('h \<Rightarrow> NormalizedEvent \<Rightarrow> 'h \<times> bool) option \<Rightarrow> 'h ShardContext \<Rightarrow> 'h ShardContext" where
  "shard_iteration moved_from parse on_event c =
     (case sharded_try_pop moved_from (sc_dispatch c) (sh_shard_id (sc_shard c)) of
        (dispatch, None) \<Rightarrow> c\<lparr>sc_dispatch := dispatch\<rparr>
      | (dispatch, Some routed) \<Rightarrow>
          (case consume_event parse on_event routed (sh_stats (sc_shard c), sc_books c, sc_handler c) of
             (stats, books, h) \<Rightarrow> c\<lparr> sc_dispatch := dispatch, sc_books := books, sc_handler := h,
               sc_shard := (sc_shard c)\<lparr>sh_stats := stats\<rparr> \<rparr>))"

section \<open>Taking events off the queue\<close>

lemma sharded_popE:
  assumes ok: "sharded_ok d" and pop: "sharded_try_pop moved_from d i = (d', r)"
  obtains (empty) "r = None" "shard_items d i = []" "sharded_ok d'" "shard_items d' = shard_items d"
    | (event) e where "r = Some e" "shard_items d i = e # shard_items d' i" "sharded_ok d'"
      "\<And>j. j \<noteq> i \<Longrightarrow> shard_items d' j = shard_items d j"
proof (cases "i < length (sd_queues d)")
  case True
  let ?q = "sd_queues d ! i"
  have q: "rq_ok ?q" using ok True by (simp add: sharded_ok_def list_all_length)
  show ?thesis
  proof (rule routed_queue.pop_cases [OF q, of moved_from])
    assume none: "rq_try_pop moved_from ?q = (?q, None)" "rq_items ?q = []"
    then have "d' = d" "r = None" using pop True by (simp_all add: sharded_try_pop_def Let_def)
    with none ok True show ?thesis by (intro empty) (simp_all add: shard_items_def)
  next
    fix q' e assume e: "rq_try_pop moved_from ?q = (q', Some e)" "rq_items ?q = e # rq_items q'" "rq_ok q'"
    have d': "d' = d\<lparr>sd_queues := (sd_queues d)[i := q']\<rparr>" "r = Some e"
      using pop e(1) True by (simp_all add: sharded_try_pop_def Let_def)
    show ?thesis
      by (rule event [OF d'(2)])
        (use ok e True in \<open>auto simp: d'(1) shard_items_def sharded_ok_def list_all_length nth_list_update\<close>)
  qed
next
  case False
  then have "d' = d" "r = None" using pop by (simp_all add: sharded_try_pop_def)
  with False ok show ?thesis by (intro empty) (simp_all add: shard_items_def)
qed

section \<open>Draining a shard\<close>

definition parsed_events :: "(RoutedEvent \<Rightarrow> NormalizedEvent ParseResult) \<Rightarrow> RoutedEvent list \<Rightarrow> NormalizedEvent list" where
  "parsed_events parse evs = List.map_filter (\<lambda>e. pres_value (parse e)) evs"

lemma parsed_events_simps [simp]:
  "parsed_events parse [] = []"
  "parsed_events parse (e # es) = (case pres_value (parse e) of None \<Rightarrow> parsed_events parse es
     | Some ev \<Rightarrow> ev # parsed_events parse es)"
  by (simp_all add: parsed_events_def split: option.split)

lemma consume_event_books:
  "fst (snd (consume_event parse on_event e (st, books, h))) = store_run books (parsed_events parse [e])"
  by (simp add: consume_event_def apply_parsed_def Let_def split: option.split)

definition stats_balanced :: "bool \<Rightarrow> ShardStats \<Rightarrow> bool" where
  "stats_balanced has_handler st \<longleftrightarrow> ss_consumed st = ss_applied st + ss_parse_errors st \<and>
     ss_handler_invoked st = (if has_handler then ss_applied st else 0)"

lemma consume_event_balanced:
  "stats_balanced (on_event \<noteq> None) st \<Longrightarrow>
   stats_balanced (on_event \<noteq> None) (fst (consume_event parse on_event e (st, books, h)))"
  by (auto simp: stats_balanced_def consume_event_def apply_parsed_def Let_def split: option.split)

lemma shard_iterationE:
  assumes ok: "sharded_ok (sc_dispatch c)" and c': "c' = shard_iteration moved_from parse on_event c"
  defines "i \<equiv> sh_shard_id (sc_shard c)"
  obtains (idle) "shard_items (sc_dispatch c) i = []" "sc_shard c' = sc_shard c" "sc_books c' = sc_books c"
      "sc_handler c' = sc_handler c" "sharded_ok (sc_dispatch c')" "shard_items (sc_dispatch c') = shard_items (sc_dispatch c)"
    | (event) e where "shard_items (sc_dispatch c) i = e # shard_items (sc_dispatch c') i"
      "sharded_ok (sc_dispatch c')" "\<And>j. j \<noteq> i \<Longrightarrow> shard_items (sc_dispatch c') j = shard_items (sc_dispatch c) j"
      "sh_shard_id (sc_shard c') = i"
      "(sh_stats (sc_shard c'), sc_books c', sc_handler c')
        = consume_event parse on_event e (sh_stats (sc_shard c), sc_books c, sc_handler c)"
proof -
  obtain d r where pop: "sharded_try_pop moved_from (sc_dispatch c) i = (d, r)" by fastforce
  show ?thesis
  proof (rule sharded_popE [OF ok pop])
    assume "r = None" "shard_items (sc_dispatch c) i = []" "sharded_ok d" "shard_items d = shard_items (sc_dispatch c)"
    then show ?thesis using pop c' by (intro idle) (simp_all add: shard_iteration_def i_def)
  next
    fix e assume e: "r = Some e" "shard_items (sc_dispatch c) i = e # shard_items d i" "sharded_ok d"
      "\<And>j. j \<noteq> i \<Longrightarrow> shard_items d j = shard_items (sc_dispatch c) j"
    obtain st books h where res: "consume_event parse on_event e (sh_stats (sc_shard c), sc_books c, sc_handler c)
        = (st, books, h)" by (metis prod_cases3)
    then have "c' = c\<lparr> sc_dispatch := d, sc_books := books, sc_handler := h,
        sc_shard := (sc_shard c)\<lparr>sh_stats := st\<rparr> \<rparr>"
      using pop e(1) c' by (simp add: shard_iteration_def i_def)
    then show ?thesis using e res by (intro event [of e]) (simp_all add: i_def)
  qed
qed

definition shard_rounds ::
    "(RoutedEvent \<Rightarrow> RoutedEvent) \<Rightarrow> (RoutedEvent \<Rightarrow> NormalizedEvent ParseResult) \<Rightarrow>
     ('h \<Rightarrow> NormalizedEvent \<Rightarrow> 'h \<times> bool) option \<Rightarrow> nat \<Rightarrow> 'h ShardContext \<Rightarrow> 'h ShardContext" where
  "shard_rounds moved_from parse on_event n c = (shard_iteration moved_from parse on_event ^^ n) c"

lemma store_run_append [simp]: "store_run books (es @ fs) = store_run (store_run books es) fs"
  by (simp add: store_run_def)

lemma parsed_events_append [simp]: "parsed_events parse (es @ fs) = parsed_events parse es @ parsed_events parse fs"
  by (induction es) (simp_all split: option.split)

lemma shard_rounds_drain:
  fixes c :: "'h ShardContext" and moved_from parse on_event
  assumes "sharded_ok (sc_dispatch c)"
  defines "i \<equiv> sh_shard_id (sc_shard c)"
  defines "c' \<equiv> \<lambda>n. shard_rounds moved_from parse on_event n c"
  shows "sharded_ok (sc_dispatch (c' n)) \<and> sh_shard_id (sc_shard (c' n)) = i \<and>
    shard_items (sc_dispatch (c' n)) i = drop n (shard_items (sc_dispatch c) i) \<and>
    (\<forall>j. j \<noteq> i \<longrightarrow> shard_items (sc_dispatch (c' n)) j = shard_items (sc_dispatch c) j) \<and>
    sc_books (c' n) = store_run (sc_books c) (parsed_events parse (take n (shard_items (sc_dispatch c) i)))"
proof (induction n)
  case 0
  then show ?case using assms(1) by (simp add: c'_def i_def shard_rounds_def)
next
  case (Suc n)
  let ?items = "shard_items (sc_dispatch c) i"
  have id: "sh_shard_id (sc_shard (c' n)) = i" and ok: "sharded_ok (sc_dispatch (c' n))"
    and items: "shard_items (sc_dispatch (c' n)) i = drop n ?items" using Suc by simp_all
  have step: "c' (Suc n) = shard_iteration moved_from parse on_event (c' n)"
    by (simp add: c'_def shard_rounds_def)
  from ok step show ?case
  proof (cases rule: shard_iterationE)
    case idle
    then have "drop n ?items = []" using items id by simp
    then have "take (Suc n) ?items = take n ?items" "drop (Suc n) ?items = drop n ?items" by simp_all
    with idle Suc id show ?thesis by simp
  next
    case (event e)
    then have d: "drop n ?items = e # shard_items (sc_dispatch (c' (Suc n))) i" using items id by simp
    then have n: "n < length ?items" by (metis drop_eq_Nil2 list.distinct(1) not_le)
    have "?items ! n = e" "drop (Suc n) ?items = shard_items (sc_dispatch (c' (Suc n))) i"
      using d n by (simp_all add: Cons_nth_drop_Suc [symmetric])
    moreover have "sc_books (c' (Suc n)) = store_run (sc_books (c' n)) (parsed_events parse [e])"
      using consume_event_books [of parse on_event e "sh_stats (sc_shard (c' n))" "sc_books (c' n)" "sc_handler (c' n)"]
        event(5) by (metis fst_conv snd_conv)
    ultimately show ?thesis
      using event(2,3,4) Suc id n by (simp add: take_Suc_conv_app_nth del: parsed_events_simps(2))
  qed
qed

lemma shard_rounds_balanced:
  assumes "sharded_ok (sc_dispatch c)" "stats_balanced (on_event \<noteq> None) (sh_stats (sc_shard c))"
  shows "stats_balanced (on_event \<noteq> None) (sh_stats (sc_shard (shard_rounds moved_from parse on_event n c)))"
proof (induction n)
  case 0
  then show ?case using assms(2) by (simp add: shard_rounds_def)
next
  case (Suc n)
  let ?c = "shard_rounds moved_from parse on_event n c"
  have ok: "sharded_ok (sc_dispatch ?c)" using shard_rounds_drain [OF assms(1)] by blast
  have step: "shard_rounds moved_from parse on_event (Suc n) c = shard_iteration moved_from parse on_event ?c"
    by (simp add: shard_rounds_def)
  from ok step show ?case
  proof (cases rule: shard_iterationE)
    case (event e)
    then show ?thesis using consume_event_balanced [OF Suc, of parse e "sc_books ?c" "sc_handler ?c"]
      by (metis fst_conv)
  qed (use Suc in simp)
qed

section \<open>Claims about the shard worker\<close>

definition example_routed :: RoutedEvent where
  "example_routed = RoutedEvent_default\<lparr>rev_frame := (rev_frame RoutedEvent_default)\<lparr>rtf_exchange := Ex_kKalshi\<rparr>\<rparr>"

definition example_parse :: "RoutedEvent \<Rightarrow> NormalizedEvent ParseResult" where
  "example_parse = RoutedEventParser_parse (\<lambda>f. parse_success example_snapshot_event)"

definition example_context :: "unit ShardContext" where
  "example_context = \<lparr> sc_shard = fst (shard_start (Shard_new 0)),
     sc_dispatch = fst (sharded_dispatch (ShardedEventDispatch_new \<lparr> sdc_shard_count = 1, sdc_per_shard_queue_capacity = 4 \<rparr>)
        (rev_route_key example_routed) (rev_frame example_routed)),
     sc_books = [], sc_handler = () \<rparr>"

lemma example_context_ok:
  "sharded_ok (sc_dispatch example_context)" "sh_shard_id (sc_shard example_context) = 0"
  using sharded.dispatch_valid [OF sharded_new(1)]
  by (simp_all add: example_context_def shard_start_def Shard_new_def)

lemma example_context_items: "shard_items (sc_dispatch example_context) 0 = [example_routed]"
proof -
  let ?d = "ShardedEventDispatch_new \<lparr> sdc_shard_count = 1, sdc_per_shard_queue_capacity = 4 \<rparr>"
  have "snd (sharded_dispatch ?d (rev_route_key example_routed) (rev_frame example_routed))"
    by (simp add: sharded_dispatch_def ShardedEventDispatch_new_def example_routed_def RoutedEvent_default_def
        rq_try_push_def rq_increment_def SpscRoutedEventQueue_new_def kMinQueueCapacity_def Let_def)
  then show ?thesis
    using sharded.dispatch_accepts [OF sharded_new(1)] sharded_new(2) [of "\<lparr> sdc_shard_count = 1, sdc_per_shard_queue_capacity = 4 \<rparr>"]
    by (simp add: example_context_def) (simp add: example_routed_def RoutedEvent_default_def)
qed

text \<open>
  A worker that runs enough rounds drains its queue and applies it faithfully: after as many
  rounds as there are queued events its queue is empty, the other shards' queues are untouched,
  and its books are what the parsed events make of them, in queue order.
\<close>

theorem shard_drains_queue:
  assumes "sharded_ok (sc_dispatch c)" and "i = sh_shard_id (sc_shard c)"
    and "length (shard_items (sc_dispatch c) i) \<le> n"
  shows "shard_items (sc_dispatch (shard_rounds moved_from parse on_event n c)) i = [] \<and>
    (\<forall>j. j \<noteq> i \<longrightarrow> shard_items (sc_dispatch (shard_rounds moved_from parse on_event n c)) j
      = shard_items (sc_dispatch c) j) \<and>
    sc_books (shard_rounds moved_from parse on_event n c)
      = store_run (sc_books c) (parsed_events parse (shard_items (sc_dispatch c) i))"
  using shard_rounds_drain [OF assms(1), of moved_from parse on_event n] assms(2,3) by simp

theorem shard_drains_queue_witness:
  "sc_books (shard_rounds (\<lambda>e. e) example_parse None 1 example_context) = store_run [] [example_snapshot_event]"
proof -
  have "parsed_events example_parse [example_routed] = [example_snapshot_event]"
    by (simp add: example_parse_def RoutedEventParser_parse_def example_routed_def RoutedEvent_default_def
        parse_success_def)
  then show ?thesis
    using shard_drains_queue [OF example_context_ok(1), of 0 1 "\<lambda>e. e" example_parse None]
    by (simp add: example_context_ok(2) example_context_items del: parsed_events_simps)
      (simp add: example_context_def)
qed

text \<open>
  The counters of a started worker balance after any number of rounds: every consumed event
  was either applied to a book or counted as an error, and the handler ran exactly once per
  applied event (never, when there is none).
\<close>

theorem shard_counters_balance:
  assumes "sharded_ok (sc_dispatch c)" and "shard_start s = (sc_shard c, True)"
  shows "stats_balanced (on_event \<noteq> None) (sh_stats (sc_shard (shard_rounds moved_from parse on_event n c)))"
proof (rule shard_rounds_balanced [OF assms(1)])
  have "sh_stats (sc_shard c) = ShardStats_zero"
    using assms(2) by (auto simp: shard_start_def dest: arg_cong [where f = sh_stats] split: if_splits)
  then show "stats_balanced (on_event \<noteq> None) (sh_stats (sc_shard c))"
    by (simp add: stats_balanced_def ShardStats_zero_def)
qed

theorem shard_counters_balance_witness:
  "stats_balanced False (sh_stats (sc_shard (shard_rounds (\<lambda>e. e) example_parse None 3 example_context)))"
proof -
  have "shard_start (Shard_new 0) = (sc_shard example_context, True)"
    by (simp add: example_context_def shard_start_def Shard_new_def)
  from shard_counters_balance [OF example_context_ok(1) this, of None] show ?thesis by simp
qed


end
