(* ===== verification/Live_Pipeline.thy ===== *)
theory Live_Pipeline
  imports Shard_Worker
begin

text \<open>
  \<open>pipeline/live_pipeline.cpp\<close>: the frame pool, the frame queue, the router and the shards put
  together, with the pump that moves frames from the queue to the shards. The pointers to
  shards are never null (the constructor fills them all), so the null checks of \<open>start\<close> and \<open>stop\<close>
  always take the same branch. The event handlers are created by a callback and belong to the
  shard contexts.
\<close>

section \<open>Data\<close>

record LivePipelineConfig =
  lpc_source :: string
  lpc_decode_exchange :: DecodeExchangeId
  lpc_router_exchange :: ExchangeId
  lpc_frame_pool_capacity :: usize
  lpc_frame_queue_capacity :: usize
  lpc_shard_count :: usize
  lpc_per_shard_queue_capacity :: usize
  lpc_shard_idle_sleep_ms :: i64

record LivePipelineStats =
  lps_ingest_frames_pumped :: u64
  lps_route_success :: u64
  lps_route_drop :: u64
  lps_frame_release_failures :: u64
  lps_ingest_sink_dropped :: u64
  lps_shard_dispatch_dropped :: u64

record LivePipeline =
  lp_sink :: MessageSink
  lp_dispatch :: ShardedEventDispatch
  lp_router :: Router
  lp_books :: "BookStore list"
  lp_shards :: "Shard list"
  lp_running :: bool
  lp_ingest_frames_pumped :: u64
  lp_route_success :: u64
  lp_route_drop :: u64
  lp_frame_release_failures :: u64

definition LivePipeline_new :: "DecodeFn \<Rightarrow> LivePipelineConfig \<Rightarrow> LivePipeline" where
  "LivePipeline_new kalshi_extract config =
     (let dispatch = ShardedEventDispatch_new \<lparr> sdc_shard_count = lpc_shard_count config,
            sdc_per_shard_queue_capacity = lpc_per_shard_queue_capacity config \<rparr>;
          resolved_shard_count = sharded_shard_count dispatch
      in \<lparr> lp_sink = \<lparr> ms_pool = FramePool_new (lpc_frame_pool_capacity config),
             ms_queue = SpscFrameQueue_new (lpc_frame_queue_capacity config),
             ms_source = lpc_source config, ms_dropped_count = 0 \<rparr>,
           lp_dispatch = dispatch,
           lp_router = Router_new kalshi_extract
             (Some (resolve_decoder kalshi_extract (lpc_decode_exchange config)))
             resolved_shard_count (lpc_router_exchange config),
           lp_books = replicate resolved_shard_count [],
           lp_shards = map Shard_new [0..<resolved_shard_count],
           lp_running = False, lp_ingest_frames_pumped = 0, lp_route_success = 0,
           lp_route_drop = 0, lp_frame_release_failures = 0 \<rparr>)"

section \<open>Start and stop\<close>

text \<open>
  Shards are started in order; when one refuses, those already started are stopped again. The
  first argument holds the shards started so far.
\<close>

fun start_shards :: "Shard list \<Rightarrow> Shard list \<Rightarrow> Shard list \<times> bool" where
  "start_shards started [] = (started, True)"
| "start_shards started (s # rest) =
     (if snd (shard_start s) then start_shards (started @ [fst (shard_start s)]) rest
      else (map shard_stop started @ fst (shard_start s) # rest, False))"

definition pipeline_start :: "LivePipeline \<Rightarrow> LivePipeline \<times> bool" where
  "pipeline_start p =
     (if lp_running p then (p, False)
      else let r = start_shards [] (lp_shards p) in
        if \<not> snd r then (p\<lparr>lp_shards := fst r\<rparr>, False)
        else (p\<lparr> lp_shards := fst r, lp_ingest_frames_pumped := 0, lp_route_success := 0,
                 lp_route_drop := 0, lp_frame_release_failures := 0, lp_running := True \<rparr>, True))"

definition pipeline_stop :: "LivePipeline \<Rightarrow> LivePipeline" where
  "pipeline_stop p = (if \<not> lp_running p then p
     else p\<lparr>lp_shards := map shard_stop (lp_shards p), lp_running := False\<rparr>)"

section \<open>The pump\<close>

record PumpState =
  pu_pool :: FramePool
  pu_queue :: SpscFrameQueue
  pu_dispatch :: ShardedEventDispatch
  pu_popped :: usize
  pu_success :: usize
  pu_drop :: usize
  pu_failures :: usize

text \<open>One round of the loop, for a handle that was popped.\<close>

definition pump_frame :: "(string \<Rightarrow> usize) \<Rightarrow> Router \<Rightarrow> FrameRef \<Rightarrow> PumpState \<Rightarrow> PumpState" where
  "pump_frame hash r ref st =
     (let routed = (case pool_frame (pu_pool st) ref of
            Some frame \<Rightarrow> Router_route sharded_dispatch hash r (pu_dispatch st) frame
          | None \<Rightarrow> (pu_dispatch st, False));
          released = pool_release (pu_pool st) ref
      in st\<lparr> pu_popped := pu_popped st + 1, pu_dispatch := fst routed,
             pu_success := (if snd routed then pu_success st + 1 else pu_success st),
             pu_drop := (if snd routed then pu_drop st else pu_drop st + 1),
             pu_pool := fst released,
             pu_failures := (if snd released then pu_failures st else pu_failures st + 1) \<rparr>)"

fun pump_loop :: "(string \<Rightarrow> usize) \<Rightarrow> Router \<Rightarrow> nat \<Rightarrow> PumpState \<Rightarrow> PumpState" where
  "pump_loop hash r 0 st = st"
| "pump_loop hash r (Suc n) st =
     (case fq_try_pop (pu_queue st) of
        (queue, None) \<Rightarrow> st\<lparr>pu_queue := queue\<rparr>
      | (queue, Some ref) \<Rightarrow> pump_loop hash r n (pump_frame hash r ref (st\<lparr>pu_queue := queue\<rparr>)))"

definition pump_ingest :: "(string \<Rightarrow> usize) \<Rightarrow> LivePipeline \<Rightarrow> usize \<Rightarrow> LivePipeline \<times> usize" where
  "pump_ingest hash p max_frames =
     (if max_frames = 0 then (p, 0)
      else let st = pump_loop hash (lp_router p) max_frames
             \<lparr> pu_pool = ms_pool (lp_sink p), pu_queue = ms_queue (lp_sink p), pu_dispatch = lp_dispatch p,
               pu_popped = 0, pu_success = 0, pu_drop = 0, pu_failures = 0 \<rparr>
           in (p\<lparr> lp_sink := (lp_sink p)\<lparr>ms_pool := pu_pool st, ms_queue := pu_queue st\<rparr>,
                  lp_dispatch := pu_dispatch st,
                  lp_ingest_frames_pumped := lp_ingest_frames_pumped p + of_nat (pu_popped st),
                  lp_route_success := lp_route_success p + of_nat (pu_success st),
                  lp_route_drop := lp_route_drop p + of_nat (pu_drop st),
                  lp_frame_release_failures := lp_frame_release_failures p + of_nat (pu_failures st) \<rparr>,
               pu_popped st))"

definition pipeline_stats :: "LivePipeline \<Rightarrow> LivePipelineStats" where
  "pipeline_stats p = \<lparr> lps_ingest_frames_pumped = lp_ingest_frames_pumped p,
     lps_route_success = lp_route_success p, lps_route_drop = lp_route_drop p,
     lps_frame_release_failures = lp_frame_release_failures p,
     lps_ingest_sink_dropped = of_nat (ms_dropped_count (lp_sink p)),
     lps_shard_dispatch_dropped = of_nat (sd_dropped_count (lp_dispatch p)) \<rparr>"

definition pipeline_book_store :: "LivePipeline \<Rightarrow> usize \<Rightarrow> BookStore option" where
  "pipeline_book_store p shard_id =
     (if shard_id \<ge> length (lp_books p) then None else Some (lp_books p ! shard_id))"

section \<open>The pump routes what was queued\<close>

text \<open>The frames behind a list of handles, as far as they resolve.\<close>

definition frame_of :: "FramePool \<Rightarrow> FrameRef \<Rightarrow> RawFrame" where
  "frame_of p r = fp_slots p ! unat (fr_slot r)"

lemma pool_frame_of: "live p r \<Longrightarrow> pool_frame p r = Some (frame_of p r)"
  by (simp add: pool_frame_live frame_of_def)

definition pump_ready :: "FramePool \<Rightarrow> SpscFrameQueue \<Rightarrow> bool" where
  "pump_ready pool queue \<longleftrightarrow> fq_ok queue \<and> handles_ok pool (fq_items queue)"

text \<open>Releasing the first handle leaves the others as they were.\<close>

lemma release_first:
  assumes "handles_ok p (r # rs)"
  shows "snd (pool_release p r)" and "handles_ok (fst (pool_release p r)) rs"
    and "map (frame_of (fst (pool_release p r))) rs = map (frame_of p) rs"
proof -
  have inv: "pool_inv p" and l: "live p r" and ls: "list_all (live p) rs"
    and d: "fr_slot r \<notin> fr_slot ` set rs" "distinct (map fr_slot rs)"
    using assms by (auto simp: handles_ok_def)
  show "snd (pool_release p r)" using l by (simp add: pool_release_live)
  then obtain p' where rel: "pool_release p r = (p', True)" by (cases "pool_release p r") simp
  note h = release_handles [OF inv rel]
  have "fp_slot_count p' = fp_slot_count p" using rel l by (auto simp: pool_release_live)
  moreover have "live p' x" if "x \<in> set rs" for x
  proof -
    have "fr_slot x \<noteq> fr_slot r" using that d(1) by (metis imageI)
    then show ?thesis using that ls h(4) [of x] by (simp add: list_all_iff)
  qed
  then have "list_all (live p') rs" by (simp add: list_all_iff)
  ultimately show "handles_ok (fst (pool_release p r)) rs"
    using assms h(2) pool_release_inv [OF inv rel] d by (simp add: handles_ok_def rel)
  show "map (frame_of (fst (pool_release p r))) rs = map (frame_of p) rs"
    using l by (simp add: pool_release_live frame_of_def)
qed

lemma route_all_step:
  "sharded.route_all hash r d (f # fs) =
    (fst (sharded.route_all hash r (fst (Router_route sharded_dispatch hash r d f)) fs),
     (if snd (Router_route sharded_dispatch hash r d f) then [sharded.event_of hash r f] else [])
      @ snd (sharded.route_all hash r (fst (Router_route sharded_dispatch hash r d f)) fs))"
  by (simp add: Let_def)

lemma pump_loop_routes:
  fixes n hash r
  assumes "pump_ready (pu_pool st) (pu_queue st)"
  defines "frames \<equiv> map (frame_of (pu_pool st)) (take n (fq_items (pu_queue st)))"
  defines "run \<equiv> sharded.route_all hash r (pu_dispatch st) frames"
  defines "st' \<equiv> pump_loop hash r n st"
  shows "pump_ready (pu_pool st') (pu_queue st') \<and> fq_items (pu_queue st') = drop n (fq_items (pu_queue st)) \<and>
    pu_dispatch st' = fst run \<and> pu_failures st' = pu_failures st \<and>
    pu_success st' = pu_success st + length (snd run) \<and>
    pu_popped st' = pu_popped st + length frames \<and>
    pu_drop st' = pu_drop st + (length frames - length (snd run)) \<and> length (snd run) \<le> length frames"
  using assms(1) unfolding frames_def run_def st'_def
proof (induction n arbitrary: st)
  case (Suc n)
  have ok: "fq_ok (pu_queue st)" using Suc.prems by (simp add: pump_ready_def)
  show ?case
  proof (rule frame_queue.pop_cases [OF ok])
    assume "fq_try_pop (pu_queue st) = (pu_queue st, None)" "fq_items (pu_queue st) = []"
    then show ?thesis using Suc.prems by simp
  next
    fix q ref assume pop: "fq_try_pop (pu_queue st) = (q, Some ref)" "fq_items (pu_queue st) = ref # fq_items q" "fq_ok q"
    let ?p = "pu_pool st" and ?st = "pump_frame hash r ref (st\<lparr>pu_queue := q\<rparr>)"
    let ?res = "Router_route sharded_dispatch hash r (pu_dispatch st) (frame_of ?p ref)"
    have h: "handles_ok ?p (ref # fq_items q)" using Suc.prems pop by (simp add: pump_ready_def)
    then have "live ?p ref" by (simp add: handles_ok_def)
    then have st: "pu_queue ?st = q" "pu_pool ?st = fst (pool_release ?p ref)" "pu_dispatch ?st = fst ?res"
      "pu_failures ?st = pu_failures st" "pu_popped ?st = pu_popped st + 1"
      "pu_success ?st = (if snd ?res then pu_success st + 1 else pu_success st)"
      "pu_drop ?st = (if snd ?res then pu_drop st else pu_drop st + 1)"
      using release_first(1) [OF h] by (simp_all add: pump_frame_def pool_frame_of Let_def)
    have ready: "pump_ready (pu_pool ?st) (pu_queue ?st)"
      using release_first(2) [OF h] pop(3) by (simp add: pump_ready_def st)
    have eq: "map (frame_of (fst (pool_release ?p ref))) (take n (fq_items q)) = map (frame_of ?p) (take n (fq_items q))"
      unfolding take_map [symmetric] release_first(3) [OF h] ..
    note IH = Suc.IH [OF ready, unfolded st eq]
    have frames: "map (frame_of ?p) (take (Suc n) (fq_items (pu_queue st)))
        = frame_of ?p ref # map (frame_of ?p) (take n (fq_items q))"
      "pump_loop hash r (Suc n) st = pump_loop hash r n ?st"
      using pop by simp_all
    show ?thesis
      unfolding frames route_all_step using IH pop(2) by (cases "snd ?res") auto
  qed
qed simp

text \<open>Receiving a message keeps the pump ready.\<close>

lemma receive_pump_ready:
  assumes ready: "pump_ready (ms_pool s) (ms_queue s)"
    and push: "sink_push_message s now_ns now message = (s', ok)"
  shows "pump_ready (ms_pool s') (ms_queue s')"
proof -
  have i: "pool_inv (ms_pool s)" "fq_ok (ms_queue s)" and h: "handles_ok (ms_pool s) (fq_items (ms_queue s))"
    using ready by (simp_all add: pump_ready_def handles_ok_def)
  note live = handles_ok_live [OF h]
  from i push show ?thesis
  proof (cases rule: sink_push_messageE)
    case dropped
    then show ?thesis using ready live by (auto simp: pump_ready_def handles_ok_def list_all_iff)
  next
    case (queued ref)
    have "fr_slot ref \<notin> fr_slot ` set (fq_items (ms_queue s))" using live queued(10) by (metis imageE)
    moreover have "list_all (live (ms_pool s')) (fq_items (ms_queue s))"
      using live queued(10) by (auto simp: list_all_iff)
    ultimately show ?thesis using h queued by (auto simp: pump_ready_def handles_ok_def)
  qed
qed

section \<open>Runs of the pipeline\<close>

text \<open>The network thread delivers messages, the main loop pumps; the pool is used by no one else.\<close>

inductive pipeline_step :: "(string \<Rightarrow> usize) \<Rightarrow> LivePipeline \<Rightarrow> LivePipeline \<Rightarrow> bool" for hash where
  deliver: "sink_push_message (lp_sink p) now_ns now message = (sink', ok) \<Longrightarrow>
    pipeline_step hash p (p\<lparr>lp_sink := sink'\<rparr>)"
| pump: "pump_ingest hash p n = (p', popped) \<Longrightarrow> pipeline_step hash p p'"

definition pipeline_inv :: "LivePipeline \<Rightarrow> bool" where
  "pipeline_inv p \<longleftrightarrow> pump_ready (ms_pool (lp_sink p)) (ms_queue (lp_sink p)) \<and>
     lp_ingest_frames_pumped p = lp_route_success p + lp_route_drop p \<and> lp_frame_release_failures p = 0"

definition pump_frames :: "LivePipeline \<Rightarrow> usize \<Rightarrow> RawFrame list" where
  "pump_frames p n = map (frame_of (ms_pool (lp_sink p))) (take n (fq_items (ms_queue (lp_sink p))))"

lemma pump_ingest_effect:
  assumes ready: "pump_ready (ms_pool (lp_sink p)) (ms_queue (lp_sink p))"
    and pump: "pump_ingest hash p n = (p', popped)"
  defines "run \<equiv> sharded.route_all hash (lp_router p) (lp_dispatch p) (pump_frames p n)"
  shows "pump_ready (ms_pool (lp_sink p')) (ms_queue (lp_sink p'))" and "popped = length (pump_frames p n)"
    and "fq_items (ms_queue (lp_sink p')) = drop n (fq_items (ms_queue (lp_sink p)))"
    and "lp_dispatch p' = fst run"
    and "lp_ingest_frames_pumped p' = lp_ingest_frames_pumped p + of_nat (length (pump_frames p n))"
    and "lp_route_success p' = lp_route_success p + of_nat (length (snd run))"
    and "lp_route_drop p' = lp_route_drop p + of_nat (length (pump_frames p n) - length (snd run))"
    and "lp_frame_release_failures p' = lp_frame_release_failures p"
    and "length (snd run) \<le> length (pump_frames p n)"
proof -
  let ?st = "\<lparr> pu_pool = ms_pool (lp_sink p), pu_queue = ms_queue (lp_sink p), pu_dispatch = lp_dispatch p,
    pu_popped = 0, pu_success = 0, pu_drop = 0, pu_failures = 0 \<rparr>"
  let ?st' = "pump_loop hash (lp_router p) n ?st"
  note routes = pump_loop_routes [where st = ?st and n = n and hash = hash and r = "lp_router p"]
  have zero: "p' = p \<and> popped = 0" if "n = 0" using pump that by (simp add: pump_ingest_def)
  have p': "p' = p\<lparr> lp_sink := (lp_sink p)\<lparr>ms_pool := pu_pool ?st', ms_queue := pu_queue ?st'\<rparr>,
      lp_dispatch := pu_dispatch ?st',
      lp_ingest_frames_pumped := lp_ingest_frames_pumped p + of_nat (pu_popped ?st'),
      lp_route_success := lp_route_success p + of_nat (pu_success ?st'),
      lp_route_drop := lp_route_drop p + of_nat (pu_drop ?st'),
      lp_frame_release_failures := lp_frame_release_failures p + of_nat (pu_failures ?st') \<rparr>"
    and pop: "popped = pu_popped ?st'"
    using pump zero by (cases "n = 0"; simp add: pump_ingest_def Let_def)+
  show "pump_ready (ms_pool (lp_sink p')) (ms_queue (lp_sink p'))" "popped = length (pump_frames p n)"
    "fq_items (ms_queue (lp_sink p')) = drop n (fq_items (ms_queue (lp_sink p)))"
    "lp_dispatch p' = fst run"
    "lp_ingest_frames_pumped p' = lp_ingest_frames_pumped p + of_nat (length (pump_frames p n))"
    "lp_route_success p' = lp_route_success p + of_nat (length (snd run))"
    "lp_route_drop p' = lp_route_drop p + of_nat (length (pump_frames p n) - length (snd run))"
    "lp_frame_release_failures p' = lp_frame_release_failures p"
    "length (snd run) \<le> length (pump_frames p n)"
    using routes ready by (simp_all add: p' pop run_def pump_frames_def)
qed

lemma pipeline_step_inv: "pipeline_step hash p p' \<Longrightarrow> pipeline_inv p \<Longrightarrow> pipeline_inv p'"
proof (induction rule: pipeline_step.induct)
  case (deliver p now_ns now message sink' ok)
  then show ?case using receive_pump_ready [of "lp_sink p"] by (simp add: pipeline_inv_def)
next
  case (pump p n p' popped)
  then have "pump_ready (ms_pool (lp_sink p)) (ms_queue (lp_sink p))" by (simp add: pipeline_inv_def)
  note e = pump_ingest_effect [OF this pump.hyps]
  show ?case
    using pump.prems e(1,5-9) by (simp add: pipeline_inv_def of_nat_diff algebra_simps)
qed

lemma pipeline_new_inv:
  assumes "lpc_frame_pool_capacity cfg < 2 ^ 32"
  shows "pipeline_inv (LivePipeline_new kalshi_extract cfg)"
  using pool_new_inv [OF assms] fq_new_ok [of "lpc_frame_queue_capacity cfg"] unat_of_nat_u32 [OF assms]
  by (simp add: pipeline_inv_def LivePipeline_new_def pump_ready_def handles_ok_def Let_def)
    (simp add: FramePool_new_def Let_def)

lemma pipeline_steps_inv: "(pipeline_step hash)\<^sup>*\<^sup>* p p' \<Longrightarrow> pipeline_inv p \<Longrightarrow> pipeline_inv p'"
  by (induction rule: rtranclp_induct) (auto intro: pipeline_step_inv)


section \<open>Claims about the pipeline\<close>

definition example_pipeline_config :: LivePipelineConfig where
  "example_pipeline_config = \<lparr> lpc_source = ''kalshi'', lpc_decode_exchange = De_kKalshi,
     lpc_router_exchange = Ex_kKalshi, lpc_frame_pool_capacity = 8, lpc_frame_queue_capacity = 8,
     lpc_shard_count = 2, lpc_per_shard_queue_capacity = 4, lpc_shard_idle_sleep_ms = 1 \<rparr>"

definition example_pipeline :: LivePipeline where
  "example_pipeline = LivePipeline_new (rt_decode_fn example_router) example_pipeline_config"

definition example_loaded_pipeline :: LivePipeline where
  "example_loaded_pipeline = example_pipeline\<lparr>lp_sink := fst (sink_push_message (lp_sink example_pipeline) 7 7 ''hello'')\<rparr>"

lemma example_pipeline_steps: "(pipeline_step length)\<^sup>*\<^sup>* example_pipeline example_loaded_pipeline"
proof -
  have "pipeline_step length example_pipeline example_loaded_pipeline"
    unfolding example_loaded_pipeline_def by (rule deliver) (rule prod.collapse [symmetric])
  then show ?thesis ..
qed

text \<open>
  Pumping routes exactly the queued frames: from any state reached by deliveries and pumps, a
  pump of at most \<open>n\<close> frames takes the first \<open>n\<close> queued frames, passes them to the router in order,
  leaves the rest queued, and releases every slot it took (no release fails).
\<close>

theorem pump_routes_queued_frames:
  assumes "lpc_frame_pool_capacity cfg < 2 ^ 32"
    and "(pipeline_step hash)\<^sup>*\<^sup>* (LivePipeline_new kalshi_extract cfg) p"
    and "pump_ingest hash p n = (p', popped)"
  shows "lp_dispatch p' = fst (sharded.route_all hash (lp_router p) (lp_dispatch p) (pump_frames p n)) \<and>
    fq_items (ms_queue (lp_sink p')) = drop n (fq_items (ms_queue (lp_sink p))) \<and>
    popped = length (pump_frames p n) \<and>
    lp_frame_release_failures p' = 0"
proof -
  have inv: "pipeline_inv p" using pipeline_steps_inv [OF assms(2) pipeline_new_inv [OF assms(1)]] .
  then have "pump_ready (ms_pool (lp_sink p)) (ms_queue (lp_sink p))" "lp_frame_release_failures p = 0"
    by (simp_all add: pipeline_inv_def)
  then show ?thesis using pump_ingest_effect [OF _ assms(3)] by simp
qed

theorem pump_routes_queued_frames_witness:
  "fq_items (ms_queue (lp_sink (fst (pump_ingest length example_loaded_pipeline 1024))))
     = drop 1024 (fq_items (ms_queue (lp_sink example_loaded_pipeline)))"
proof -
  have "lpc_frame_pool_capacity example_pipeline_config < 2 ^ 32" by (simp add: example_pipeline_config_def)
  from pump_routes_queued_frames [OF this example_pipeline_steps [unfolded example_pipeline_def] prod.collapse [symmetric]]
  show ?thesis by blast
qed

text \<open>
  The counters of the pipeline always balance: frames pumped equal frames routed plus frames
  dropped, and no frame release ever fails.
\<close>

theorem pipeline_counters_balance:
  assumes "lpc_frame_pool_capacity cfg < 2 ^ 32"
    and "(pipeline_step hash)\<^sup>*\<^sup>* (LivePipeline_new kalshi_extract cfg) p"
  shows "lps_ingest_frames_pumped (pipeline_stats p) = lps_route_success (pipeline_stats p) + lps_route_drop (pipeline_stats p) \<and>
    lps_frame_release_failures (pipeline_stats p) = 0"
  using pipeline_steps_inv [OF assms(2) pipeline_new_inv [OF assms(1)]]
  by (simp add: pipeline_inv_def pipeline_stats_def)

theorem pipeline_counters_balance_witness:
  "lps_frame_release_failures (pipeline_stats example_loaded_pipeline) = 0"
proof -
  have "lpc_frame_pool_capacity example_pipeline_config < 2 ^ 32" by (simp add: example_pipeline_config_def)
  from pipeline_counters_balance [OF this example_pipeline_steps [unfolded example_pipeline_def]]
  show ?thesis by blast
qed

lemma start_shards_spec:
  "start_shards started ss =
    (if \<forall>s \<in> set ss. \<not> sh_worker_joinable s then (started @ map (fst \<circ> shard_start) ss, True)
     else (map shard_stop started @ map (shard_stop \<circ> fst \<circ> shard_start) (takeWhile (\<lambda>s. \<not> sh_worker_joinable s) ss)
       @ dropWhile (\<lambda>s. \<not> sh_worker_joinable s) ss, False))"
  by (induction started ss rule: start_shards.induct) (auto simp: shard_start_def)

text \<open>
  Starting the pipeline is all or nothing: when no shard has a worker left from an earlier
  run, all shards are started with cleared counters; otherwise no shard is running that was
  not before, and the pipeline stays stopped. Stopping leaves no worker behind, so it can be
  started again.
\<close>

theorem pipeline_start_all_or_nothing:
  assumes "\<not> lp_running p"
  shows "(if \<forall>s \<in> set (lp_shards p). \<not> sh_worker_joinable s
      then snd (pipeline_start p) \<and> (\<forall>s \<in> set (lp_shards (fst (pipeline_start p))). sh_running s \<and> sh_stats s = ShardStats_zero) \<and>
        snd (pipeline_start (pipeline_stop (fst (pipeline_start p))))
      else \<not> snd (pipeline_start p) \<and> \<not> lp_running (fst (pipeline_start p)) \<and>
        (\<forall>i < length (lp_shards p). sh_running (lp_shards (fst (pipeline_start p)) ! i) \<longrightarrow> sh_running (lp_shards p ! i)))"
proof (cases "\<forall>s \<in> set (lp_shards p). \<not> sh_worker_joinable s")
  case True
  then show ?thesis
    using assms by (auto simp: pipeline_start_def pipeline_stop_def start_shards_spec shard_start_def shard_stop_def)
next
  case False
  let ?fresh = "\<lambda>s. \<not> sh_worker_joinable s"
  let ?ss = "map (shard_stop \<circ> fst \<circ> shard_start) (takeWhile ?fresh (lp_shards p)) @ dropWhile ?fresh (lp_shards p)"
  have start: "pipeline_start p = (p\<lparr>lp_shards := ?ss\<rparr>, False)"
    using assms False by (simp add: pipeline_start_def start_shards_spec)
  have "\<not> sh_running (shard_stop s)" for s by (simp add: shard_stop_def)
  then have "sh_running (?ss ! i) \<longrightarrow> sh_running (lp_shards p ! i)" for i
    using nth_append [of "takeWhile ?fresh (lp_shards p)" "dropWhile ?fresh (lp_shards p)" i]
    by (cases "i < length (takeWhile ?fresh (lp_shards p))") (simp_all add: nth_append)
  then show ?thesis using False assms by (simp add: start)
qed

theorem pipeline_start_all_or_nothing_witness: "snd (pipeline_start example_pipeline)"
proof -
  have "\<not> lp_running example_pipeline" "\<forall>s \<in> set (lp_shards example_pipeline). \<not> sh_worker_joinable s"
    by (auto simp: example_pipeline_def LivePipeline_new_def Shard_new_def Let_def)
  then show ?thesis using pipeline_start_all_or_nothing [of example_pipeline] by simp
qed


end
