(* ===== verification/Json_Text.thy ===== *)
theory Json_Text
  imports Trading_Prelude Complex_Main "HOL-Library.Finite_Map"
begin

text \<open>
  Text and JSON as the exchange-facing code uses them: \<open>std::to_string\<close> and \<open>std::from_chars\<close>
  on unsigned decimal numbers, the two JSON libraries the program links.

  \<open>nlohmann::json\<close> documents are values of the datatype \<open>json\<close>. Its objects are finite maps,
  since the library keeps them in a \<open>std::map\<close>; signed and unsigned integers share one
  constructor: \<open>is_number_integer()\<close> holds for both and \<open>get\<close> casts, and \<open>is_number_unsigned()\<close> holds
  for the non-negative ones a parser delivers (the literal \<open>-0\<close>, which the library reads as a
  signed zero, is the one it tells apart); a finite double is the rational number it stands for. The
  text syntax is the library's own: \<open>parse\<close> and \<open>dump\<close> are fields of \<open>Nlohmann\<close>, and
  \<open>nl_lawful\<close> is what the program relies on: a dumped document parses back to
  itself, and \<open>get\<close> on an integer casts.

  \<open>simdjson\<close>'s on-demand documents are handles of a type \<open>'v\<close>, which the code only accesses
  through the functions gathered in \<open>Simdjson\<close>; a function returns \<open>None\<close> where the library
  reports an error. An access is a function of the handle: the position of the on-demand
  iterator, which lets a field be looked up again and in any order, is not modelled.
\<close>

section \<open>Decimal text\<close>

definition digit_char :: "nat \<Rightarrow> char" where
  "digit_char d = char_of (48 + d)"

definition digit_value :: "char \<Rightarrow> nat" where
  "digit_value c = of_char c - 48"

definition digit_ok :: "char \<Rightarrow> bool" where
  "digit_ok c \<longleftrightarrow> 48 \<le> (of_char c :: nat) \<and> (of_char c :: nat) \<le> 57"

text \<open>\<open>std::to_string\<close> of an unsigned number.\<close>

fun std_to_string :: "nat \<Rightarrow> string" where
  "std_to_string n = (if n < 10 then [digit_char n] else std_to_string (n div 10) @ [digit_char (n mod 10)])"

declare std_to_string.simps [simp del]

definition decimal_value :: "string \<Rightarrow> nat" where
  "decimal_value s = foldl (\<lambda>acc c. 10 * acc + digit_value c) 0 s"

text \<open>
  \<open>std::from_chars\<close> into a \<open>std::uint64_t\<close>, on text that consists of digits: it consumes all of
  it and fails only when the number does not fit.
\<close>

definition from_chars_u64 :: "string \<Rightarrow> u64 option" where
  "from_chars_u64 s = (if decimal_value s < 2 ^ 64 then Some (of_nat (decimal_value s)) else None)"

lemma digit_round_trip: "d < 10 \<Longrightarrow> digit_value (digit_char d) = d" "d < 10 \<Longrightarrow> digit_ok (digit_char d)"
  by (simp_all add: digit_value_def digit_char_def digit_ok_def)

lemma decimal_value_snoc: "decimal_value (s @ [c]) = 10 * decimal_value s + digit_value c"
  by (simp add: decimal_value_def)

lemma decimal_value_to_string [simp]: "decimal_value (std_to_string n) = n"
proof (induction n rule: std_to_string.induct)
  case (1 n)
  then show ?case
    by (subst std_to_string.simps)
      (auto simp: decimal_value_snoc digit_round_trip decimal_value_def [of "[_]"])
qed

lemma to_string_digits: "c \<in> set (std_to_string n) \<Longrightarrow> digit_ok c"
proof (induction n rule: std_to_string.induct)
  case (1 n)
  then show ?case
    by (subst (asm) (2) std_to_string.simps) (auto simp: digit_round_trip split: if_splits)
qed

lemma to_string_not_empty [simp]: "std_to_string n \<noteq> []"
  by (subst std_to_string.simps) simp

lemma to_string_inject [simp]: "std_to_string m = std_to_string n \<longleftrightarrow> m = n"
  by (metis decimal_value_to_string)

lemma from_chars_to_string: "n < 2 ^ 64 \<Longrightarrow> from_chars_u64 (std_to_string n) = Some (of_nat n)"
  by (simp add: from_chars_u64_def)

section \<open>Searching text\<close>

text \<open>\<open>std::string::find\<close>: the first position from \<open>from\<close> on where the pattern occurs.\<close>

fun str_find_at :: "string \<Rightarrow> string \<Rightarrow> nat \<Rightarrow> nat option" where
  "str_find_at pat [] pos = (if pat = [] then Some pos else None)"
| "str_find_at pat (c # cs) pos =
     (if take (length pat) (c # cs) = pat then Some pos else str_find_at pat cs (pos + 1))"

definition str_find :: "string \<Rightarrow> string \<Rightarrow> nat \<Rightarrow> nat option" where
  "str_find pat s from = (if from > length s then None else str_find_at pat (drop from s) from)"

section \<open>nlohmann::json\<close>

datatype json =
    Json_null
  | Json_boolean bool
  | Json_integer int
  | Json_float rat
  | Json_string string
  | Json_array "json list"
  | Json_object "(string, json) fmap"

text \<open>
  \<open>parse\<close> throws on malformed text (\<open>None\<close>; \<open>nl_parse_what\<close> is the \<open>what()\<close> of that exception), \<open>dump\<close> on strings that are not UTF-8 (the left
  summand is \<open>what()\<close>), \<open>get<unsigned>\<close> on values that are not numbers (\<open>None\<close>).
\<close>

record Nlohmann =
  nl_parse :: "string \<Rightarrow> json option"
  nl_parse_what :: "string \<Rightarrow> string"
  nl_dump :: "json \<Rightarrow> string + string"
  nl_get_unsigned :: "json \<Rightarrow> u32 option"

definition nl_lawful :: "Nlohmann \<Rightarrow> bool" where
  "nl_lawful nl \<longleftrightarrow> (\<forall>j s. nl_dump nl j = Inr s \<longrightarrow> nl_parse nl s = Some j)
     \<and> (\<forall>n. nl_get_unsigned nl (Json_integer n) = Some (word_of_int n))"

text \<open>\<open>find(key)\<close> on a value that is an object; a field that is absent is \<open>None\<close>.\<close>

fun json_find :: "json \<Rightarrow> string \<Rightarrow> json option" where
  "json_find (Json_object m) key = fmlookup m key"
| "json_find _ key = None"

fun json_is_object :: "json \<Rightarrow> bool" where
  "json_is_object (Json_object m) = True"
| "json_is_object _ = False"

fun json_is_unsigned :: "json \<Rightarrow> bool" where
  "json_is_unsigned (Json_integer n) = (0 \<le> n)"
| "json_is_unsigned _ = False"

text \<open>An object written as an initializer list, its keys distinct.\<close>

definition json_obj :: "(string \<times> json) list \<Rightarrow> json" where
  "json_obj fs = Json_object (fmap_of_list fs)"

definition json_set :: "json \<Rightarrow> string \<Rightarrow> json \<Rightarrow> json" where
  "json_set j key v = (case j of Json_object m \<Rightarrow> Json_object (fmupd key v m) | _ \<Rightarrow> j)"

lemma json_find_obj [simp]: "json_find (json_obj fs) key = map_of fs key"
  by (simp add: json_obj_def fmlookup_of_list)

lemma json_is_object_obj [simp]: "json_is_object (json_obj fs)"
  by (simp add: json_obj_def)

lemma json_find_set [simp]:
  "json_is_object j \<Longrightarrow> json_find (json_set j key v) k = (if k = key then Some v else json_find j k)"
  by (cases j) (simp_all add: json_set_def)

lemma json_is_object_set [simp]: "json_is_object (json_set j key v) = json_is_object j"
  by (cases j) (simp_all add: json_set_def)

text \<open>
  \<open>try_get_string\<close>, \<open>try_get_int64\<close> and their like, which the adapter and the paper transport
  each define for themselves: an optional with the field's value if it has the type asked for.
  \<open>get<std::int64_t>\<close> casts an unsigned value above \<open>INT64_MAX\<close>.
\<close>

definition try_get_string :: "json \<Rightarrow> string \<Rightarrow> string option" where
  "try_get_string object key = (case json_find object key of Some (Json_string s) \<Rightarrow> Some s | _ \<Rightarrow> None)"

definition try_get_int64 :: "json \<Rightarrow> string \<Rightarrow> i64 option" where
  "try_get_int64 object key = (case json_find object key of Some (Json_integer n) \<Rightarrow> Some (wrap_i64 n) | _ \<Rightarrow> None)"

lemma try_get_simps [simp]:
  "json_find j k = Some (Json_string s) \<Longrightarrow> try_get_string j k = Some s"
  "json_find j k = None \<Longrightarrow> try_get_string j k = None"
  "json_find j k = Some (Json_integer n) \<Longrightarrow> try_get_int64 j k = Some (wrap_i64 n)"
  "json_find j k = None \<Longrightarrow> try_get_int64 j k = None"
  by (simp_all add: try_get_string_def try_get_int64_def)

lemma try_get_int64_range: "try_get_int64 j k = Some n \<Longrightarrow> in_i64 n"
  by (auto simp: try_get_int64_def split: option.splits json.splits)

section \<open>simdjson\<close>

record 'v Simdjson =
  sj_iterate :: "string \<Rightarrow> 'v option"
  sj_get_object :: "'v \<Rightarrow> 'v option"
  sj_find_field_unordered :: "'v \<Rightarrow> string \<Rightarrow> 'v option"
  sj_get_string :: "'v \<Rightarrow> string option"
  sj_get_int64 :: "'v \<Rightarrow> i64 option"
  sj_get_uint64 :: "'v \<Rightarrow> u64 option"
  sj_get_double :: "'v \<Rightarrow> rat option"
  sj_get_array :: "'v \<Rightarrow> 'v option list option"

text \<open>
  What is relied on: \<open>get_int64\<close> returns values of its type, and where both integer accessors
  succeed they agree. (An array is the list of its elements; an element that cannot be read is \<open>None\<close>.)
\<close>

definition sj_lawful :: "'v Simdjson \<Rightarrow> bool" where
  "sj_lawful sj \<longleftrightarrow> (\<forall>v n. sj_get_int64 sj v = Some n \<longrightarrow> in_i64 n)
     \<and> (\<forall>v n u. sj_get_int64 sj v = Some n \<longrightarrow> sj_get_uint64 sj v = Some u \<longrightarrow> uint u = n)"

text \<open>The accessors on the documents of the datatype \<open>json\<close>, for concrete examples.\<close>

definition json_reader :: "(string \<Rightarrow> json option) \<Rightarrow> json Simdjson" where
  "json_reader parse = \<lparr>
     sj_iterate = parse,
     sj_get_object = (\<lambda>j. if json_is_object j then Some j else None),
     sj_find_field_unordered = json_find,
     sj_get_string = (\<lambda>j. case j of Json_string s \<Rightarrow> Some s | _ \<Rightarrow> None),
     sj_get_int64 = (\<lambda>j. case j of Json_integer n \<Rightarrow> if in_i64 n then Some n else None | _ \<Rightarrow> None),
     sj_get_uint64 = (\<lambda>j. case j of Json_integer n \<Rightarrow> if 0 \<le> n \<and> n < 2 ^ 64 then Some (of_int n) else None | _ \<Rightarrow> None),
     sj_get_double = (\<lambda>j. case j of Json_integer n \<Rightarrow> Some (of_int n) | Json_float r \<Rightarrow> Some r | _ \<Rightarrow> None),
     sj_get_array = (\<lambda>j. case j of Json_array xs \<Rightarrow> Some (map Some xs) | _ \<Rightarrow> None) \<rparr>"

lemma json_reader_lawful: "sj_lawful (json_reader parse)"
  by (auto simp: sj_lawful_def json_reader_def uint_word_of_int take_bit_eq_mod split: json.splits if_splits)

end
