(* ===== verification/Kalshi_Market_Data.thy ===== *)
theory Kalshi_Market_Data
  imports Shard_Worker Json_Text
begin

text \<open>
  The Kalshi side of the market data path: \<open>decode/exchanges/kalshi/extractor.cpp\<close>, which finds
  the market of a raw frame so that it can be routed, and
  \<open>parsers/exchanges/kalshi/parser.cpp\<close>, which turns the payload of a routed frame into a
  normalized event. Both read the payload through \<open>simdjson\<close>, a parameter \<open>sj\<close> of the model.
  A getter that fills an output parameter and returns whether it could is an option.
\<close>

section \<open>Field access\<close>

definition kTypeOrderbook :: string where "kTypeOrderbook = ''orderbook_snapshot''"
definition kTypeOrderbookDelta :: string where "kTypeOrderbookDelta = ''orderbook_delta''"
definition kTypeTrade :: string where "kTypeTrade = ''trade''"

definition get_string :: "'v Simdjson \<Rightarrow> 'v \<Rightarrow> string \<Rightarrow> string option" where
  "get_string sj obj key = Option.bind (sj_find_field_unordered sj obj key) (sj_get_string sj)"

definition get_int64 :: "'v Simdjson \<Rightarrow> 'v \<Rightarrow> string \<Rightarrow> i64 option" where
  "get_int64 sj obj key = Option.bind (sj_find_field_unordered sj obj key) (sj_get_int64 sj)"

definition get_object :: "'v Simdjson \<Rightarrow> 'v \<Rightarrow> string \<Rightarrow> 'v option" where
  "get_object sj obj key = Option.bind (sj_find_field_unordered sj obj key) (sj_get_object sj)"

definition get_array :: "'v Simdjson \<Rightarrow> 'v \<Rightarrow> string \<Rightarrow> 'v option list option" where
  "get_array sj obj key = Option.bind (sj_find_field_unordered sj obj key) (sj_get_array sj)"

definition get_uint64 :: "'v Simdjson \<Rightarrow> 'v \<Rightarrow> string \<Rightarrow> u64 option" where
  "get_uint64 sj obj key =
     (case Option.bind (sj_find_field_unordered sj obj key) (sj_get_uint64 sj) of
        Some u \<Rightarrow> Some u
      | None \<Rightarrow> (case get_int64 sj obj key of
                   None \<Rightarrow> None
                 | Some signed_value \<Rightarrow> if signed_value < 0 then None else Some (of_int signed_value)))"

text \<open>\<open>a || b\<close> on two getters that fill the same output parameter.\<close>

definition or_else :: "'a option \<Rightarrow> 'a option \<Rightarrow> 'a option" where
  "or_else a b = (case a of Some x \<Rightarrow> Some x | None \<Rightarrow> b)"

definition parse_non_negative_decimal_string_to_int64 :: "string \<Rightarrow> i64 option" where
  "parse_non_negative_decimal_string_to_int64 text_value =
     (if text_value = '''' then None
      else if hd text_value = CHR ''-'' then None
      else let int_part = takeWhile (\<lambda>c. c \<noteq> CHR ''.'') text_value;
               frac_part = drop (length int_part + 1) text_value
           in if int_part = '''' then None
              else if \<not> list_all digit_ok int_part then None
              else if \<not> list_all (\<lambda>c. c = CHR ''0'') frac_part then None
              else case from_chars_u64 int_part of
                     None \<Rightarrow> None
                   | Some parsed \<Rightarrow> if parsed > of_int (2 ^ 63 - 1) then None else Some (uint parsed))"

text \<open>
  \<open>count\<close> or \<open>count_fp\<close> as an integer, else \<open>count_fp\<close> as a double without fraction, else as
  decimal text. The largest \<open>int64\<close> rounds to \<open>2 ^ 63\<close> as a double, which the comparison lets
  through; the cast of that value is the one place where the result wraps.
\<close>

definition get_lot_count :: "'v Simdjson \<Rightarrow> 'v \<Rightarrow> i64 option" where
  "get_lot_count sj msg =
     (case or_else (get_int64 sj msg ''count'') (get_int64 sj msg ''count_fp'') of
        Some out \<Rightarrow> if out \<ge> 0 then Some out else None
      | None \<Rightarrow>
          (case Option.bind (sj_find_field_unordered sj msg ''count_fp'') (sj_get_double sj) of
             Some lots \<Rightarrow>
               if lots < 0 then None
               else if of_int \<lfloor>lots\<rfloor> \<noteq> lots \<or> \<lfloor>lots\<rfloor> > 2 ^ 63 then None
               else Some (wrap_i64 \<lfloor>lots\<rfloor>)
           | None \<Rightarrow>
               (case get_string sj msg ''count_fp'' of
                  Some count_fp_text \<Rightarrow> parse_non_negative_decimal_string_to_int64 count_fp_text
                | None \<Rightarrow> None)))"

section \<open>The parser\<close>

definition parse_book_side :: "string \<Rightarrow> Side" where
  "parse_book_side side_token =
     (if side_token = ''yes'' \<or> side_token = ''bid'' then Side_kBid
      else if side_token = ''no'' \<or> side_token = ''ask'' then Side_kAsk
      else Side_kUnknown)"

definition parse_trade_side :: "string \<Rightarrow> Side" where
  "parse_trade_side side_token =
     (if side_token = ''yes'' \<or> side_token = ''buy'' then Side_kBuy
      else if side_token = ''no'' \<or> side_token = ''sell'' then Side_kSell
      else Side_kUnknown)"

definition with_sequence :: "u64 \<Rightarrow> NormalizedEvent \<Rightarrow> NormalizedEvent" where
  "with_sequence seq event = event\<lparr> ne_raw_sequence_id := Some seq,
     ne_meta := (ne_meta event)\<lparr>em_sequence_id := seq\<rparr> \<rparr>"

definition set_sequence_from_root :: "'v Simdjson \<Rightarrow> 'v \<Rightarrow> NormalizedEvent \<Rightarrow> NormalizedEvent" where
  "set_sequence_from_root sj root_obj event =
     (case or_else (get_uint64 sj root_obj ''seq'') (get_uint64 sj root_obj ''seq_id'') of
        Some seq \<Rightarrow> with_sequence seq event
      | None \<Rightarrow> event)"

definition set_sequence_from_msg :: "'v Simdjson \<Rightarrow> 'v \<Rightarrow> NormalizedEvent \<Rightarrow> NormalizedEvent" where
  "set_sequence_from_msg sj msg event =
     (case or_else (get_uint64 sj msg ''seq'') (get_uint64 sj msg ''seq_id'') of
        Some seq \<Rightarrow> with_sequence seq event
      | None \<Rightarrow> (case ne_raw_sequence_id event of
                   Some seq \<Rightarrow> event\<lparr>ne_meta := (ne_meta event)\<lparr>em_sequence_id := seq\<rparr>\<rparr>
                 | None \<Rightarrow> event))"

text \<open>A level is an array whose first two elements are the price and the quantity.\<close>

definition parse_level :: "'v Simdjson \<Rightarrow> 'v option \<Rightarrow> Level option" where
  "parse_level sj level_val =
     (case Option.bind level_val (sj_get_array sj) of
        Some (Some price_val # Some qty_val # _) \<Rightarrow>
          (case (sj_get_int64 sj price_val, sj_get_int64 sj qty_val) of
             (Some price, Some qty) \<Rightarrow>
               if price < 0 \<or> qty < 0 then None else Some \<lparr> lv_price_ticks = price, lv_qty_lots = qty \<rparr>
           | _ \<Rightarrow> None)
      | _ \<Rightarrow> None)"

fun parse_levels :: "'v Simdjson \<Rightarrow> 'v option list \<Rightarrow> Level list option" where
  "parse_levels sj [] = Some []"
| "parse_levels sj (level_val # arr) =
     (case parse_level sj level_val of
        None \<Rightarrow> None
      | Some level \<Rightarrow> (case parse_levels sj arr of None \<Rightarrow> None | Some out \<Rightarrow> Some (level # out)))"

definition parse_snapshot :: "'v Simdjson \<Rightarrow> 'v \<Rightarrow> NormalizedEvent \<Rightarrow> NormalizedEvent ParseResult" where
  "parse_snapshot sj msg event =
     (if ne_raw_sequence_id event = None then parse_failure Pe_kMissingField
      else let event = event\<lparr>ne_type := Ev_kSnapshot\<rparr> in
        case get_array sj msg ''yes'' of
          None \<Rightarrow> parse_failure Pe_kMissingField
        | Some yes_levels \<Rightarrow>
            (case parse_levels sj yes_levels of
               None \<Rightarrow> parse_failure Pe_kInvalidField
             | Some bids \<Rightarrow>
                 (case get_array sj msg ''no'' of
                    None \<Rightarrow> parse_failure Pe_kMissingField
                  | Some no_levels \<Rightarrow>
                      (case parse_levels sj no_levels of
                         None \<Rightarrow> parse_failure Pe_kInvalidField
                       | Some asks \<Rightarrow>
                           parse_success (event\<lparr>ne_data := Data_Snapshot \<lparr> sd_bids = bids, sd_asks = asks \<rparr>\<rparr>)))))"

definition parse_delta :: "'v Simdjson \<Rightarrow> bool \<Rightarrow> 'v \<Rightarrow> NormalizedEvent \<Rightarrow> NormalizedEvent ParseResult" where
  "parse_delta sj strict_field_validation msg event =
     (if ne_raw_sequence_id event = None then parse_failure Pe_kMissingField
      else let event = event\<lparr>ne_type := Ev_kDelta\<rparr> in
        case (get_int64 sj msg ''price'', get_int64 sj msg ''delta'') of
          (Some price, Some delta_qty) \<Rightarrow>
            if price < 0 then parse_failure Pe_kInvalidField
            else (case get_string sj msg ''side'' of
                    None \<Rightarrow> parse_failure Pe_kMissingField
                  | Some side_token \<Rightarrow>
                      let side = parse_book_side side_token in
                      if side = Side_kUnknown \<and> strict_field_validation then parse_failure Pe_kInvalidField
                      else parse_success (event\<lparr>ne_data := Data_Delta \<lparr> dd_side = side,
                             dd_price_ticks = price, dd_delta_qty_lots = delta_qty \<rparr>\<rparr>))
        | _ \<Rightarrow> parse_failure Pe_kMissingField)"

definition parse_trade :: "'v Simdjson \<Rightarrow> bool \<Rightarrow> 'v \<Rightarrow> NormalizedEvent \<Rightarrow> NormalizedEvent ParseResult" where
  "parse_trade sj strict_field_validation msg event =
     (let event = (set_sequence_from_msg sj msg event)\<lparr>ne_type := Ev_kTrade\<rparr> in
      case (or_else (get_int64 sj msg ''yes_price'') (get_int64 sj msg ''price''), get_lot_count sj msg) of
        (Some price, Some qty) \<Rightarrow>
          if price < 0 \<or> qty < 0 then parse_failure Pe_kInvalidField
          else let taker_side = get_string sj msg ''taker_side'';
                   aggressor = (case taker_side of Some t \<Rightarrow> parse_trade_side t | None \<Rightarrow> Side_kUnknown)
               in if taker_side = None \<and> strict_field_validation then parse_failure Pe_kMissingField
                  else if aggressor = Side_kUnknown \<and> strict_field_validation then parse_failure Pe_kInvalidField
                  else parse_success (event\<lparr>ne_data := Data_Trade \<lparr> td_price_ticks = price, td_qty_lots = qty,
                         td_aggressor = aggressor, td_trade_id = get_string sj msg ''trade_id'' \<rparr>\<rparr>)
      | _ \<Rightarrow> parse_failure Pe_kMissingField)"

definition event_of_frame :: "RouterFrame \<Rightarrow> NormalizedEvent" where
  "event_of_frame frame = NormalizedEvent_default\<lparr>
     ne_meta := EventMeta_default\<lparr> em_exchange := Ex_kKalshi, em_recv_ns := rof_recv_ns frame,
       em_sequence_id := (case rof_sequence_id frame of Some s \<Rightarrow> s | None \<Rightarrow> 0) \<rparr>,
     ne_market_ticker := rof_market_ticker frame, ne_raw_sequence_id := rof_sequence_id frame,
     ne_raw_payload := rof_raw_payload_view frame \<rparr>"

definition parser_strict :: bool where
  "parser_strict = True"

definition kalshi_parse :: "'v Simdjson \<Rightarrow> ExchangeParser" where
  "kalshi_parse sj frame =
     (case Option.bind (sj_iterate sj (rof_raw_payload_view frame)) (sj_get_object sj) of
        None \<Rightarrow> parse_failure Pe_kInvalidJson
      | Some obj \<Rightarrow>
          (case get_string sj obj ''type'' of
             None \<Rightarrow> parse_failure Pe_kMissingField
           | Some type_sv \<Rightarrow>
               let event = set_sequence_from_root sj obj (event_of_frame frame) in
               if type_sv = kTypeOrderbook \<or> type_sv = kTypeOrderbookDelta \<or> type_sv = kTypeTrade
               then (case get_object sj obj ''msg'' of
                       None \<Rightarrow> parse_failure Pe_kMissingField
                     | Some msg \<Rightarrow>
                         if type_sv = kTypeOrderbook then parse_snapshot sj msg event
                         else if type_sv = kTypeOrderbookDelta then parse_delta sj parser_strict msg event
                         else parse_trade sj parser_strict msg event)
               else parse_failure Pe_kUnsupportedMessageType))"

section \<open>The extractor\<close>

text \<open>The extractor has constants and accessors of its own.\<close>

definition ext_kTypeOrderbookSnapshot :: string where "ext_kTypeOrderbookSnapshot = ''orderbook_snapshot''"
definition ext_kTypeOrderbookDelta :: string where "ext_kTypeOrderbookDelta = ''orderbook_delta''"
definition ext_kTypeTrade :: string where "ext_kTypeTrade = ''trade''"

definition ext_get_string :: "'v Simdjson \<Rightarrow> 'v \<Rightarrow> string \<Rightarrow> string option" where
  "ext_get_string sj obj key =
     (case sj_find_field_unordered sj obj key of None \<Rightarrow> None | Some field \<Rightarrow> sj_get_string sj field)"

definition ext_get_uint64 :: "'v Simdjson \<Rightarrow> 'v \<Rightarrow> string \<Rightarrow> u64 option" where
  "ext_get_uint64 sj obj key =
     (case Option.bind (sj_find_field_unordered sj obj key) (sj_get_uint64 sj) of
        Some value \<Rightarrow> Some value
      | None \<Rightarrow> (case Option.bind (sj_find_field_unordered sj obj key) (sj_get_int64 sj) of
            None \<Rightarrow> None
          | Some signed_value \<Rightarrow> if signed_value < 0 then None else Some (of_int signed_value)))"

definition ext_get_object :: "'v Simdjson \<Rightarrow> 'v \<Rightarrow> string \<Rightarrow> 'v option" where
  "ext_get_object sj obj key =
     (case sj_find_field_unordered sj obj key of None \<Rightarrow> None | Some field \<Rightarrow> sj_get_object sj field)"

lemma extractor_constants [simp]:
  "ext_kTypeOrderbookSnapshot = kTypeOrderbook" "ext_kTypeOrderbookDelta = kTypeOrderbookDelta" "ext_kTypeTrade = kTypeTrade"
  by (simp_all add: ext_kTypeOrderbookSnapshot_def kTypeOrderbook_def ext_kTypeOrderbookDelta_def kTypeOrderbookDelta_def
      ext_kTypeTrade_def kTypeTrade_def)

lemma ext_get_string_eq [simp]: "ext_get_string sj obj key = get_string sj obj key"
  by (cases "sj_find_field_unordered sj obj key") (simp_all add: ext_get_string_def get_string_def)

lemma ext_get_object_eq [simp]: "ext_get_object sj obj key = get_object sj obj key"
  by (cases "sj_find_field_unordered sj obj key") (simp_all add: ext_get_object_def get_object_def)

lemma ext_get_uint64_eq [simp]: "ext_get_uint64 sj obj key = get_uint64 sj obj key"
  unfolding ext_get_uint64_def get_uint64_def get_int64_def ..

definition extract_sequence :: "'v Simdjson \<Rightarrow> 'v \<Rightarrow> 'v \<Rightarrow> u64 option \<Rightarrow> u64 option" where
  "extract_sequence sj root_obj msg seq_id =
     or_else (or_else (or_else (or_else (ext_get_uint64 sj root_obj ''seq'') (ext_get_uint64 sj root_obj ''seq_id''))
       (ext_get_uint64 sj msg ''seq'')) (ext_get_uint64 sj msg ''seq_id'')) seq_id"

definition kalshi_extract :: "'v Simdjson \<Rightarrow> DecodeFn" where
  "kalshi_extract sj frame =
     (let extracted = \<lparr> ef_status = Dec_kMissingField, ef_market_ticker = rf_market_ticker frame,
            ef_seq_id = rf_seq_id frame, ef_recv_timestamp = rf_recv_timestamp frame, ef_source = rf_source frame \<rparr>
      in if ef_market_ticker extracted \<noteq> '''' then extracted\<lparr>ef_status := Dec_kOk\<rparr>
         else case Option.bind (sj_iterate sj (rf_payload frame)) (sj_get_object sj) of
             None \<Rightarrow> extracted
           | Some root_obj \<Rightarrow>
               (case ext_get_string sj root_obj ''type'' of
                  None \<Rightarrow> extracted
                | Some msg_type \<Rightarrow>
                    if msg_type \<noteq> ext_kTypeOrderbookSnapshot \<and> msg_type \<noteq> ext_kTypeOrderbookDelta \<and> msg_type \<noteq> ext_kTypeTrade
                    then extracted\<lparr>ef_status := Dec_kUnsupportedMessage\<rparr>
                    else (case ext_get_object sj root_obj ''msg'' of
                            None \<Rightarrow> extracted
                          | Some msg \<Rightarrow>
                              (case ext_get_string sj msg ''market_ticker'' of
                                 None \<Rightarrow> extracted
                               | Some market_ticker \<Rightarrow>
                                   if market_ticker = '''' then extracted
                                   else extracted\<lparr> ef_market_ticker := market_ticker,
                                          ef_seq_id := extract_sequence sj root_obj msg (ef_seq_id extracted),
                                          ef_recv_timestamp := rf_recv_timestamp frame,
                                          ef_source := rf_source frame, ef_status := Dec_kOk \<rparr>))))"

section \<open>Decimal quantities\<close>

lemma decimal_parts:
  assumes "list_all digit_ok ds"
  shows "takeWhile (\<lambda>c. c \<noteq> CHR ''.'') ds = ds"
    and "takeWhile (\<lambda>c. c \<noteq> CHR ''.'') (ds @ CHR ''.'' # zs) = ds"
proof -
  have "c \<noteq> CHR ''.''" if "c \<in> set ds" for c
    using assms that by (auto simp: list_all_iff digit_ok_def)
  then show "takeWhile (\<lambda>c. c \<noteq> CHR ''.'') ds = ds" "takeWhile (\<lambda>c. c \<noteq> CHR ''.'') (ds @ CHR ''.'' # zs) = ds"
    by (auto simp: takeWhile_tail takeWhile_eq_all_conv)
qed

lemma digit_not_minus: "digit_ok c \<Longrightarrow> c \<noteq> CHR ''-''"
  by (auto simp: digit_ok_def)

lemma int64_of_digits:
  "(case from_chars_u64 ds of None \<Rightarrow> None
    | Some parsed \<Rightarrow> if parsed > of_int (2 ^ 63 - 1) then None else Some (uint parsed)) =
   (if decimal_value ds < 2 ^ 63 then Some (int (decimal_value ds)) else None)"
  by (auto simp: from_chars_u64_def word_less_nat_alt unat_of_nat uint_nat take_bit_nat_eq_self)

lemma decimal_text_split:
  "t = takeWhile (\<lambda>c. c \<noteq> CHR ''.'') t \<or>
   t = takeWhile (\<lambda>c. c \<noteq> CHR ''.'') t @ CHR ''.'' # drop (length (takeWhile (\<lambda>c. c \<noteq> CHR ''.'') t) + 1) t"
proof (induction t)
  case (Cons c t)
  then show ?case by auto
qed simp

text \<open>The accepted texts are the non-empty digit strings below \<open>2 ^ 63\<close>, with nothing but zeros after the point.\<close>

definition decimal_text :: "string \<Rightarrow> string \<Rightarrow> bool" where
  "decimal_text ds t \<longleftrightarrow> ds \<noteq> [] \<and> list_all digit_ok ds \<and>
     (t = ds \<or> (\<exists>zs. list_all (\<lambda>c. c = CHR ''0'') zs \<and> t = ds @ CHR ''.'' # zs))"

lemma parse_decimal_text:
  assumes "decimal_text ds t"
  shows "parse_non_negative_decimal_string_to_int64 t =
    (if decimal_value ds < 2 ^ 63 then Some (int (decimal_value ds)) else None)"
proof -
  have ds: "ds \<noteq> []" "list_all digit_ok ds" using assms by (simp_all add: decimal_text_def)
  have hd: "hd ds \<noteq> CHR ''-''" using ds by (cases ds) (auto simp: digit_not_minus)
  obtain zs where t: "t = ds \<and> zs = [] \<or> t = ds @ CHR ''.'' # zs" and z: "list_all (\<lambda>c. c = CHR ''0'') zs"
    using assms by (auto simp: decimal_text_def)
  have "t \<noteq> []" "hd t = hd ds" using t ds(1) by auto
  moreover have "takeWhile (\<lambda>c. c \<noteq> CHR ''.'') t = ds" using t decimal_parts [OF ds(2)] by metis
  moreover have "drop (length ds + 1) t = zs" using t by (elim disjE) simp_all
  ultimately show ?thesis
    using ds hd z int64_of_digits [of ds]
    by (simp add: parse_non_negative_decimal_string_to_int64_def Let_def)
qed

lemma parse_decimal_accepts:
  assumes "parse_non_negative_decimal_string_to_int64 t = Some v"
  shows "\<exists>ds. decimal_text ds t"
proof -
  let ?ds = "takeWhile (\<lambda>c. c \<noteq> CHR ''.'') t"
  have "?ds \<noteq> []" "list_all digit_ok ?ds" "list_all (\<lambda>c. c = CHR ''0'') (drop (length ?ds + 1) t)"
    using assms by (auto simp: parse_non_negative_decimal_string_to_int64_def Let_def split: if_splits)
  then have "decimal_text ?ds t"
    using decimal_text_split [of t] unfolding decimal_text_def by blast
  then show ?thesis ..
qed

lemma parse_decimal_range: "parse_non_negative_decimal_string_to_int64 t = Some v \<Longrightarrow> 0 \<le> v \<and> in_i64 v"
  using parse_decimal_accepts parse_decimal_text by (fastforce simp: in_i64_def split: if_splits)

text \<open>
  C29. Decimal quantities survive the trip through text: what \<open>std::to_string\<close> prints for a
  quantity below \<open>2 ^ 63\<close>, alone or followed by a point and zeros, parses back to that quantity;
  any text that parses is of the form digits, or digits, point, zeros, and its value is the
  number the digits denote, which fits a non-negative \<open>int64\<close>.
\<close>

theorem decimal_quantity_round_trip:
  "(n < 2 ^ 63 \<longrightarrow> parse_non_negative_decimal_string_to_int64 (std_to_string n) = Some (int n) \<and>
     parse_non_negative_decimal_string_to_int64 (std_to_string n @ ''.'' @ replicate k CHR ''0'') = Some (int n)) \<and>
   (parse_non_negative_decimal_string_to_int64 t = Some v \<longrightarrow>
     (\<exists>ds. decimal_text ds t \<and> v = int (decimal_value ds) \<and> decimal_value ds < 2 ^ 63))"
proof (intro conjI impI)
  have d: "list_all digit_ok (std_to_string n)" using to_string_digits by (auto simp: list_all_iff)
  then have "decimal_text (std_to_string n) (std_to_string n)"
    "decimal_text (std_to_string n) (std_to_string n @ ''.'' @ replicate k CHR ''0'')"
    by (auto simp: decimal_text_def list_all_iff)
  note texts = this [THEN parse_decimal_text]
  assume "n < 2 ^ 63"
  then show "parse_non_negative_decimal_string_to_int64 (std_to_string n) = Some (int n)"
    "parse_non_negative_decimal_string_to_int64 (std_to_string n @ ''.'' @ replicate k CHR ''0'') = Some (int n)"
    using texts by simp_all
next
  assume v: "parse_non_negative_decimal_string_to_int64 t = Some v"
  then obtain ds where ds: "decimal_text ds t" using parse_decimal_accepts by blast
  then show "\<exists>ds. decimal_text ds t \<and> v = int (decimal_value ds) \<and> decimal_value ds < 2 ^ 63"
    using parse_decimal_text [OF ds] v by (auto split: if_splits)
qed

theorem decimal_quantity_round_trip_witness:
  "parse_non_negative_decimal_string_to_int64 (std_to_string 42 @ ''.'' @ replicate 2 CHR ''0'') = Some 42"
  using decimal_quantity_round_trip [of 42 2] by simp

section \<open>Parsed events are well formed\<close>

definition level_fits :: "Level \<Rightarrow> bool" where
  "level_fits l \<longleftrightarrow> 0 \<le> lv_price_ticks l \<and> 0 \<le> lv_qty_lots l \<and> in_i64 (lv_price_ticks l) \<and> in_i64 (lv_qty_lots l)"

definition payload_fits :: "NormalizedEvent \<Rightarrow> bool" where
  "payload_fits e \<longleftrightarrow> (case ne_data e of
       Data_monostate \<Rightarrow> False
     | Data_Snapshot s \<Rightarrow> ne_type e = Ev_kSnapshot \<and> ne_raw_sequence_id e \<noteq> None \<and>
         list_all level_fits (sd_bids s) \<and> list_all level_fits (sd_asks s)
     | Data_Delta d \<Rightarrow> ne_type e = Ev_kDelta \<and> ne_raw_sequence_id e \<noteq> None \<and> delta_valid d \<and>
         in_i64 (dd_price_ticks d) \<and> in_i64 (dd_delta_qty_lots d) \<and> dd_side d \<in> {Side_kBid, Side_kAsk}
     | Data_Trade t \<Rightarrow> ne_type e = Ev_kTrade \<and> 0 \<le> td_price_ticks t \<and> 0 \<le> td_qty_lots t \<and>
         in_i64 (td_price_ticks t) \<and> in_i64 (td_qty_lots t) \<and> td_aggressor t \<in> {Side_kBuy, Side_kSell})"

text \<open>The fields of an event that come from the frame it was read from.\<close>

definition from_frame :: "RouterFrame \<Rightarrow> NormalizedEvent \<Rightarrow> bool" where
  "from_frame frame e \<longleftrightarrow> ne_market_ticker e = rof_market_ticker frame \<and> em_exchange (ne_meta e) = Ex_kKalshi \<and>
     em_recv_ns (ne_meta e) = rof_recv_ns frame \<and> ne_raw_payload e = rof_raw_payload_view frame \<and>
     em_sequence_id (ne_meta e) = (case ne_raw_sequence_id e of Some s \<Rightarrow> s | None \<Rightarrow> 0)"

lemma from_frame_event: "from_frame frame (event_of_frame frame)"
  by (simp add: from_frame_def event_of_frame_def)

lemma from_frame_root: "from_frame frame e \<Longrightarrow> from_frame frame (set_sequence_from_root sj obj e)"
  by (simp add: from_frame_def set_sequence_from_root_def with_sequence_def split: option.split)

lemma from_frame_msg: "from_frame frame e \<Longrightarrow> from_frame frame (set_sequence_from_msg sj msg e)"
  by (simp add: from_frame_def set_sequence_from_msg_def with_sequence_def split: option.split)

lemma from_frame_data [simp]:
  "from_frame frame (e\<lparr>ne_type := t\<rparr>) = from_frame frame e"
  "from_frame frame (e\<lparr>ne_data := d\<rparr>) = from_frame frame e"
  by (simp_all add: from_frame_def)

lemma get_int64_range: "sj_lawful sj \<Longrightarrow> get_int64 sj obj key = Some n \<Longrightarrow> in_i64 n"
  by (auto simp: get_int64_def sj_lawful_def Option.bind_eq_Some_conv)

lemma or_else_Some: "or_else a b = Some x \<Longrightarrow> a = Some x \<or> b = Some x"
  by (auto simp: or_else_def split: option.splits)

lemma lot_count_range: "sj_lawful sj \<Longrightarrow> get_lot_count sj msg = Some n \<Longrightarrow> in_i64 n"
  unfolding get_lot_count_def
  by (auto split: option.splits if_splits dest!: or_else_Some dest: get_int64_range parse_decimal_range)

lemma parse_level_fits: "sj_lawful sj \<Longrightarrow> parse_level sj v = Some l \<Longrightarrow> level_fits l"
  by (auto simp: parse_level_def level_fits_def sj_lawful_def split: option.splits list.splits if_splits)

lemma parse_levels_fit: "sj_lawful sj \<Longrightarrow> parse_levels sj arr = Some ls \<Longrightarrow> list_all level_fits ls"
  by (induction sj arr arbitrary: ls rule: parse_levels.induct)
    (auto split: option.splits dest: parse_level_fits)

lemma parse_snapshotE:
  assumes "pres_value (parse_snapshot sj msg e) = Some e'"
  obtains yes no bids asks where "ne_raw_sequence_id e \<noteq> None"
    "parse_levels sj yes = Some bids" "parse_levels sj no = Some asks"
    "e' = e\<lparr>ne_type := Ev_kSnapshot, ne_data := Data_Snapshot \<lparr> sd_bids = bids, sd_asks = asks \<rparr>\<rparr>"
  using assms
  by (auto simp: parse_snapshot_def parse_success_def parse_failure_def Let_def split: if_splits option.splits)

lemma parse_deltaE:
  assumes "pres_value (parse_delta sj strict msg e) = Some e'"
  obtains d token where "ne_raw_sequence_id e \<noteq> None" "e' = e\<lparr>ne_type := Ev_kDelta, ne_data := Data_Delta d\<rparr>"
    "get_int64 sj msg ''price'' = Some (dd_price_ticks d)" "get_int64 sj msg ''delta'' = Some (dd_delta_qty_lots d)"
    "0 \<le> dd_price_ticks d" "dd_side d = parse_book_side token" "strict \<longrightarrow> dd_side d \<noteq> Side_kUnknown"
  using assms
  by (force simp: parse_delta_def parse_success_def parse_failure_def Let_def split: if_splits option.splits)

lemma parse_tradeE:
  assumes "pres_value (parse_trade sj strict msg e) = Some e'"
  obtains t where "e' = (set_sequence_from_msg sj msg e)\<lparr>ne_type := Ev_kTrade, ne_data := Data_Trade t\<rparr>"
    "or_else (get_int64 sj msg ''yes_price'') (get_int64 sj msg ''price'') = Some (td_price_ticks t)"
    "get_lot_count sj msg = Some (td_qty_lots t)" "0 \<le> td_price_ticks t" "0 \<le> td_qty_lots t"
    "strict \<longrightarrow> td_aggressor t \<in> {Side_kBuy, Side_kSell}"
proof -
  have side: "x = Side_kUnknown \<or> x \<in> {Side_kBuy, Side_kSell}" if "x = parse_trade_side tok" for x tok
    using that by (simp add: parse_trade_side_def)
  show ?thesis
    using assms side that
    by (fastforce simp: parse_trade_def parse_success_def parse_failure_def Let_def split: if_splits option.splits)
qed

lemma parse_snapshot_fits:
  assumes "sj_lawful sj" "pres_value (parse_snapshot sj msg e) = Some e'" "from_frame frame e"
  shows "payload_fits e' \<and> from_frame frame e'"
  using assms(2)
proof (rule parse_snapshotE)
  fix yes no bids asks
  assume "ne_raw_sequence_id e \<noteq> None" "parse_levels sj yes = Some bids" "parse_levels sj no = Some asks"
    "e' = e\<lparr>ne_type := Ev_kSnapshot, ne_data := Data_Snapshot \<lparr> sd_bids = bids, sd_asks = asks \<rparr>\<rparr>"
  then show ?thesis using parse_levels_fit [OF assms(1)] assms(3) by (simp add: payload_fits_def)
qed

lemma parse_delta_fits:
  assumes "sj_lawful sj" "pres_value (parse_delta sj True msg e) = Some e'" "from_frame frame e"
  shows "payload_fits e' \<and> from_frame frame e'"
  using assms(2)
proof (rule parse_deltaE)
  fix d token
  assume d: "ne_raw_sequence_id e \<noteq> None" "e' = e\<lparr>ne_type := Ev_kDelta, ne_data := Data_Delta d\<rparr>"
    "get_int64 sj msg ''price'' = Some (dd_price_ticks d)" "get_int64 sj msg ''delta'' = Some (dd_delta_qty_lots d)"
    "0 \<le> dd_price_ticks d" "dd_side d = parse_book_side token" "True \<longrightarrow> dd_side d \<noteq> Side_kUnknown"
  then have "dd_side d \<in> {Side_kBid, Side_kAsk}" by (auto simp: parse_book_side_def split: if_splits)
  then show ?thesis
    using d get_int64_range [OF assms(1)] assms(3) by (auto simp: payload_fits_def delta_valid_def)
qed

lemma parse_trade_fits:
  assumes "sj_lawful sj" "pres_value (parse_trade sj True msg e) = Some e'" "from_frame frame e"
  shows "payload_fits e' \<and> from_frame frame e'"
  using assms(2)
proof (rule parse_tradeE)
  fix t
  assume t: "e' = (set_sequence_from_msg sj msg e)\<lparr>ne_type := Ev_kTrade, ne_data := Data_Trade t\<rparr>"
    "or_else (get_int64 sj msg ''yes_price'') (get_int64 sj msg ''price'') = Some (td_price_ticks t)"
    "get_lot_count sj msg = Some (td_qty_lots t)" "0 \<le> td_price_ticks t" "0 \<le> td_qty_lots t"
    "True \<longrightarrow> td_aggressor t \<in> {Side_kBuy, Side_kSell}"
  have "in_i64 (td_price_ticks t)" using or_else_Some [OF t(2)] get_int64_range [OF assms(1)] by blast
  then show ?thesis
    using t lot_count_range [OF assms(1) t(3)] from_frame_msg [OF assms(3)] by (simp add: payload_fits_def)
qed

text \<open>A successful parse is one of the three message parsers on the event that carries the frame's fields.\<close>

lemma kalshi_parseE:
  assumes "pres_value (kalshi_parse sj frame) = Some e"
  obtains obj msg kind where
    "Option.bind (sj_iterate sj (rof_raw_payload_view frame)) (sj_get_object sj) = Some obj"
    "get_string sj obj ''type'' = Some kind" "get_object sj obj ''msg'' = Some msg"
    "(kind = kTypeOrderbook \<and> pres_value (parse_snapshot sj msg (set_sequence_from_root sj obj (event_of_frame frame))) = Some e) \<or>
     (kind = kTypeOrderbookDelta \<and> pres_value (parse_delta sj True msg (set_sequence_from_root sj obj (event_of_frame frame))) = Some e) \<or>
     (kind = kTypeTrade \<and> pres_value (parse_trade sj True msg (set_sequence_from_root sj obj (event_of_frame frame))) = Some e)"
  using assms
  by (auto simp: kalshi_parse_def parse_failure_def parser_strict_def Let_def split: option.splits if_splits)

lemma kalshi_parse_fits:
  assumes "sj_lawful sj" "pres_value (kalshi_parse sj frame) = Some e"
  shows "payload_fits e" "from_frame frame e"
proof -
  have "payload_fits e \<and> from_frame frame e"
    using assms(2)
  proof (rule kalshi_parseE)
    fix obj msg kind
    let ?e = "set_sequence_from_root sj obj (event_of_frame frame)"
    assume one: "(kind = kTypeOrderbook \<and> pres_value (parse_snapshot sj msg ?e) = Some e) \<or>
      (kind = kTypeOrderbookDelta \<and> pres_value (parse_delta sj True msg ?e) = Some e) \<or>
      (kind = kTypeTrade \<and> pres_value (parse_trade sj True msg ?e) = Some e)"
    have "from_frame frame ?e" by (intro from_frame_root from_frame_event)
    then show ?thesis
      using one parse_snapshot_fits [OF assms(1)] parse_delta_fits [OF assms(1)] parse_trade_fits [OF assms(1)]
      by metis
  qed
  then show "payload_fits e" "from_frame frame e" by simp_all
qed

lemma fitting_event_applied:
  assumes "payload_fits e" "ne_type e \<noteq> Ev_kSnapshot" "bk_has_snapshot b" "\<not> bk_desynced b"
  shows "snd (apply_to_book b e) \<longleftrightarrow> \<not> stale (bk_last_seq_id b) (effective_sequence_id e)"
  using assms
  by (auto simp: payload_fits_def apply_to_book_def apply_delta_event_def apply_trade_event_def advance_eq
      apply_delta_eq reject_event_def split: EventData.splits)

text \<open>
  C28. The parser only lets well-formed events through: a parsed event carries the frame's
  market, receive time and payload, its data is of the kind its type says, prices and
  quantities are non-negative 64-bit values, sides are known, and snapshots and deltas
  have a sequence number. So a synchronised book never rejects a parsed delta or trade for anything
  but a stale sequence number.
\<close>

theorem parsed_events_well_formed:
  assumes "sj_lawful sj" "pres_value (kalshi_parse sj frame) = Some e"
  shows "payload_fits e \<and> from_frame frame e \<and>
    (ne_type e \<noteq> Ev_kSnapshot \<longrightarrow> bk_has_snapshot b \<longrightarrow> \<not> bk_desynced b \<longrightarrow>
       snd (apply_to_book b e) = (\<not> stale (bk_last_seq_id b) (effective_sequence_id e)))"
  using kalshi_parse_fits [OF assms] fitting_event_applied by blast

definition example_delta_json :: json where
  "example_delta_json = json_obj [(''type'', Json_string ''orderbook_delta''), (''seq'', Json_integer 7),
     (''msg'', json_obj [(''market_ticker'', Json_string ''MKT''), (''price'', Json_integer 45),
       (''delta'', Json_integer (-5)), (''side'', Json_string ''yes'')])]"

definition example_reader :: "json Simdjson" where
  "example_reader = json_reader (\<lambda>t. if t = ''delta'' then Some example_delta_json else None)"

definition example_delta_frame :: RouterFrame where
  "example_delta_frame = \<lparr> rof_exchange = Ex_kKalshi, rof_market_ticker = ''MKT'', rof_sequence_id = None,
     rof_recv_ns = 11, rof_raw_payload_view = ''delta'' \<rparr>"

definition example_delta_event :: NormalizedEvent where
  "example_delta_event = \<lparr> ne_type = Ev_kDelta,
     ne_meta = \<lparr> em_exchange = Ex_kKalshi, em_market_id = 0, em_sequence_id = 7, em_recv_ns = 11, em_exchange_ts_ns = 0 \<rparr>,
     ne_market_ticker = ''MKT'', ne_raw_sequence_id = Some 7,
     ne_data = Data_Delta \<lparr> dd_side = Side_kBid, dd_price_ticks = 45, dd_delta_qty_lots = -5 \<rparr>,
     ne_raw_payload = ''delta'' \<rparr>"

lemmas kalshi_parse_defs = kalshi_parse_def get_string_def get_int64_def get_uint64_def get_object_def or_else_def
  set_sequence_from_root_def with_sequence_def event_of_frame_def NormalizedEvent_default_def EventMeta_default_def
  kTypeOrderbook_def kTypeOrderbookDelta_def kTypeTrade_def json_reader_def

lemma example_delta_parsed:
  "pres_value (kalshi_parse example_reader example_delta_frame) = Some example_delta_event"
  by (simp add: kalshi_parse_defs example_reader_def example_delta_json_def example_delta_frame_def
      example_delta_event_def parse_delta_def parse_book_side_def parse_success_def in_i64_def Let_def)

theorem parsed_events_well_formed_witness:
  "payload_fits example_delta_event \<and>
   snd (apply_to_book (BookState_default\<lparr>bk_has_snapshot := True, bk_last_seq_id := Some 6\<rparr>) example_delta_event)"
  using parsed_events_well_formed [of example_reader example_delta_frame example_delta_event
      "BookState_default\<lparr>bk_has_snapshot := True, bk_last_seq_id := Some 6\<rparr>"]
  by (simp add: example_reader_def json_reader_lawful example_delta_parsed [unfolded example_reader_def]
      BookState_default_def stale_def effective_sequence_id_def)
    (simp add: example_delta_event_def)

section \<open>The extractor and the parser agree\<close>

text \<open>The frame the parser sees for a raw frame that was decoded and routed.\<close>

definition routed_to_parser :: "Router \<Rightarrow> RawFrame \<Rightarrow> ExtractedFields \<Rightarrow> RouterFrame" where
  "routed_to_parser r frame extracted =
     (let f = routed_frame_of r frame extracted
      in \<lparr> rof_exchange = rtf_exchange f, rof_market_ticker = rtf_market_ticker f,
           rof_sequence_id = rtf_sequence_id f, rof_recv_ns = rtf_recv_ns f, rof_raw_payload_view = rtf_raw_payload f \<rparr>)"

lemma routed_to_parser_sel [simp]:
  "rof_market_ticker (routed_to_parser r frame x) = ef_market_ticker x"
  "rof_sequence_id (routed_to_parser r frame x) = ef_seq_id x"
  "rof_raw_payload_view (routed_to_parser r frame x) = rf_payload frame"
  by (simp_all add: routed_to_parser_def routed_frame_of_def Let_def)

lemma root_sequence:
  "ne_raw_sequence_id (set_sequence_from_root sj obj e) =
     or_else (or_else (get_uint64 sj obj ''seq'') (get_uint64 sj obj ''seq_id'')) (ne_raw_sequence_id e)"
  by (simp add: set_sequence_from_root_def with_sequence_def or_else_def split: option.split)

lemma or_else_assoc [simp]: "or_else (or_else a b) c = or_else a (or_else b c)" "or_else None b = b" "or_else a None = a"
  by (simp_all add: or_else_def split: option.split)

lemma or_else_absorb: "or_else a (or_else b (or_else a (or_else b c))) = or_else a (or_else b c)"
  by (simp add: or_else_def split: option.split)

lemma extract_from_payloadE:
  assumes "fields_ok (kalshi_extract sj frame)" "rf_market_ticker frame = ''''"
  obtains obj msg kind where
    "Option.bind (sj_iterate sj (rf_payload frame)) (sj_get_object sj) = Some obj"
    "get_string sj obj ''type'' = Some kind" "get_object sj obj ''msg'' = Some msg"
    "get_string sj msg ''market_ticker'' = Some (ef_market_ticker (kalshi_extract sj frame))"
    "ef_market_ticker (kalshi_extract sj frame) \<noteq> ''''"
    "ef_seq_id (kalshi_extract sj frame) = extract_sequence sj obj msg (rf_seq_id frame)"
  using assms by (auto simp: kalshi_extract_def fields_ok_def Let_def split: option.splits if_splits)

lemma extracted_sequence_parsed:
  assumes "fields_ok (kalshi_extract sj frame)" "rf_market_ticker frame = ''''"
    and "pres_value (kalshi_parse sj (routed_to_parser r frame (kalshi_extract sj frame))) = Some e"
    and "ne_type e \<noteq> Ev_kTrade"
  shows "ne_raw_sequence_id e = ef_seq_id (kalshi_extract sj frame)"
  using assms(1,2)
proof (rule extract_from_payloadE)
  fix obj msg kind
  let ?x = "kalshi_extract sj frame"
  assume x: "Option.bind (sj_iterate sj (rf_payload frame)) (sj_get_object sj) = Some obj"
    "ef_seq_id ?x = extract_sequence sj obj msg (rf_seq_id frame)"
  let ?e = "set_sequence_from_root sj obj (event_of_frame (routed_to_parser r frame ?x))"
  have "ne_raw_sequence_id ?e = ef_seq_id ?x"
    by (simp add: root_sequence x(2) extract_sequence_def event_of_frame_def or_else_absorb)
  moreover have "ne_raw_sequence_id e = ne_raw_sequence_id ?e"
    using assms(3)
  proof (rule kalshi_parseE)
    fix obj' msg' kind'
    assume p: "Option.bind (sj_iterate sj (rof_raw_payload_view (routed_to_parser r frame ?x))) (sj_get_object sj) = Some obj'"
      "(kind' = kTypeOrderbook \<and> pres_value (parse_snapshot sj msg' (set_sequence_from_root sj obj' (event_of_frame (routed_to_parser r frame ?x)))) = Some e) \<or>
       (kind' = kTypeOrderbookDelta \<and> pres_value (parse_delta sj True msg' (set_sequence_from_root sj obj' (event_of_frame (routed_to_parser r frame ?x)))) = Some e) \<or>
       (kind' = kTypeTrade \<and> pres_value (parse_trade sj True msg' (set_sequence_from_root sj obj' (event_of_frame (routed_to_parser r frame ?x)))) = Some e)"
    have "obj' = obj" using p(1) x(1) by simp
    with p(2) assms(4) show ?thesis by (auto elim!: parse_snapshotE parse_deltaE parse_tradeE)
  qed
  ultimately show ?thesis by simp
qed

lemma message_parsers_supported:
  "pres_error (parse_snapshot sj msg e) \<noteq> Pe_kUnsupportedMessageType"
  "pres_error (parse_delta sj strict msg e) \<noteq> Pe_kUnsupportedMessageType"
  "pres_error (parse_trade sj strict msg e) \<noteq> Pe_kUnsupportedMessageType"
  by (simp_all add: parse_snapshot_def parse_delta_def parse_trade_def parse_success_def parse_failure_def Let_def
      split: option.split)

text \<open>The message kind of a payload, where it is a JSON object that states one.\<close>

definition payload_kind :: "'v Simdjson \<Rightarrow> string \<Rightarrow> string option" where
  "payload_kind sj payload = Option.bind (Option.bind (sj_iterate sj payload) (sj_get_object sj))
     (\<lambda>obj. get_string sj obj ''type'')"

definition kind_supported :: "string \<Rightarrow> bool" where
  "kind_supported kind \<longleftrightarrow> kind = kTypeOrderbook \<or> kind = kTypeOrderbookDelta \<or> kind = kTypeTrade"

lemma extract_unsupported:
  assumes "rf_market_ticker frame = ''''"
  shows "ef_status (kalshi_extract sj frame) = Dec_kUnsupportedMessage \<longleftrightarrow>
    (\<exists>kind. payload_kind sj (rf_payload frame) = Some kind \<and> \<not> kind_supported kind)"
  using assms
  by (cases "Option.bind (sj_iterate sj (rf_payload frame)) (sj_get_object sj)")
    (simp_all add: kalshi_extract_def payload_kind_def kind_supported_def Let_def del: bind_assoc split: option.split)

lemma parse_unsupported:
  "pres_error (kalshi_parse sj frame) = Pe_kUnsupportedMessageType \<longleftrightarrow>
    (\<exists>kind. payload_kind sj (rof_raw_payload_view frame) = Some kind \<and> \<not> kind_supported kind)"
  by (cases "Option.bind (sj_iterate sj (rof_raw_payload_view frame)) (sj_get_object sj)")
    (simp_all add: kalshi_parse_def payload_kind_def kind_supported_def Let_def message_parsers_supported
      parse_failure_def del: bind_assoc split: option.split)


definition example_raw_frame :: RawFrame where
  "example_raw_frame = \<lparr> rf_recv_timestamp = 11, rf_source = ''ws'', rf_payload = ''delta'',
     rf_market_ticker = '''', rf_seq_id = None \<rparr>"

definition example_router :: Router where
  "example_router = Router_new (kalshi_extract example_reader) None 4 Ex_kKalshi"

lemma example_raw_extracted:
  "kalshi_extract example_reader example_raw_frame = \<lparr> ef_status = Dec_kOk, ef_market_ticker = ''MKT'',
     ef_seq_id = Some 7, ef_recv_timestamp = 11, ef_source = ''ws'' \<rparr>"
  by (simp add: kalshi_extract_def kalshi_parse_defs example_reader_def example_delta_json_def example_raw_frame_def
      extract_sequence_def Let_def)

lemma example_raw_parsed:
  "pres_value (kalshi_parse example_reader (routed_to_parser example_router example_raw_frame
      (kalshi_extract example_reader example_raw_frame))) = Some example_delta_event"
  unfolding example_raw_extracted
  by (simp add: kalshi_parse_defs example_reader_def example_delta_json_def example_raw_frame_def example_router_def
      Router_new_def routed_to_parser_def routed_frame_of_def example_delta_event_def parse_delta_def
      parse_book_side_def parse_success_def in_i64_def Let_def)


end
