(* ===== verification/Market_Data_Path.thy ===== *)
theory Market_Data_Path
  imports Live_Pipeline Kalshi_Market_Data
begin

text \<open>
  The way of market data through the program, from the network to the books. Three kinds of thread
  work on one pipeline: the feed delivers messages to the sink, the main loop pumps frames to
  the router, and every shard has a worker that takes events off its own queue. A run is
  any interleaving of their rounds (each thread is the only producer or consumer of the ring it works on);
  the label of a run is the list of events the dispatch accepted, in order. The handlers of the shards
  are arbitrary, and so is the parser up to the last theorem.
\<close>

section \<open>Interleavings\<close>

record 'h MarketSystem =
  my_pipeline :: LivePipeline
  my_handlers :: "'h list"

definition shard_context :: "'h MarketSystem \<Rightarrow> usize \<Rightarrow> 'h ShardContext" where
  "shard_context s i = \<lparr> sc_shard = lp_shards (my_pipeline s) ! i, sc_dispatch = lp_dispatch (my_pipeline s),
     sc_books = lp_books (my_pipeline s) ! i, sc_handler = my_handlers s ! i \<rparr>"

definition put_context :: "usize \<Rightarrow> 'h ShardContext \<Rightarrow> 'h MarketSystem \<Rightarrow> 'h MarketSystem" where
  "put_context i c s = s\<lparr> my_pipeline := (my_pipeline s)\<lparr> lp_shards := (lp_shards (my_pipeline s))[i := sc_shard c],
       lp_dispatch := sc_dispatch c, lp_books := (lp_books (my_pipeline s))[i := sc_books c] \<rparr>,
     my_handlers := (my_handlers s)[i := sc_handler c] \<rparr>"

inductive market_step ::
    "(string \<Rightarrow> usize) \<Rightarrow> (RoutedEvent \<Rightarrow> RoutedEvent) \<Rightarrow> (RoutedEvent \<Rightarrow> NormalizedEvent ParseResult) \<Rightarrow>
     ('h \<Rightarrow> NormalizedEvent \<Rightarrow> 'h \<times> bool) option \<Rightarrow> 'h MarketSystem \<Rightarrow> RoutedEvent list \<Rightarrow> 'h MarketSystem \<Rightarrow> bool"
  for hash moved_from parse on_event where
  deliver: "sink_push_message (lp_sink (my_pipeline s)) now_ns now message = (sink', ok) \<Longrightarrow>
    market_step hash moved_from parse on_event s [] (s\<lparr>my_pipeline := (my_pipeline s)\<lparr>lp_sink := sink'\<rparr>\<rparr>)"
| pump: "pump_ingest hash (my_pipeline s) n = (p', popped) \<Longrightarrow>
    market_step hash moved_from parse on_event s
      (snd (sharded.route_all hash (lp_router (my_pipeline s)) (lp_dispatch (my_pipeline s)) (pump_frames (my_pipeline s) n)))
      (s\<lparr>my_pipeline := p'\<rparr>)"
| work: "i < length (lp_shards (my_pipeline s)) \<Longrightarrow>
    market_step hash moved_from parse on_event s []
      (put_context i (shard_iteration moved_from parse on_event (shard_context s i)) s)"

inductive_cases market_stepE: "market_step hash moved_from parse on_event s fs s'"

inductive market_run for hash moved_from parse on_event where
  start: "market_run hash moved_from parse on_event s [] s"
| step: "market_run hash moved_from parse on_event s es s' \<Longrightarrow> market_step hash moved_from parse on_event s' fs s'' \<Longrightarrow>
    market_run hash moved_from parse on_event s (es @ fs) s''"

section \<open>The invariant\<close>

abbreviation own :: "usize \<Rightarrow> RoutedEvent list \<Rightarrow> RoutedEvent list" where
  "own i es \<equiv> filter (\<lambda>e. rk_shard_id (rev_route_key e) = i) es"

definition shard_progress :: "(RoutedEvent \<Rightarrow> NormalizedEvent ParseResult) \<Rightarrow> RoutedEvent list \<Rightarrow> LivePipeline \<Rightarrow> usize \<Rightarrow> bool" where
  "shard_progress parse es p i \<longleftrightarrow> sh_shard_id (lp_shards p ! i) = i \<and>
     (\<exists>seen. own i es = seen @ shard_items (lp_dispatch p) i \<and> lp_books p ! i = store_run [] (parsed_events parse seen))"

definition market_inv ::
    "(RoutedEvent \<Rightarrow> NormalizedEvent ParseResult) \<Rightarrow> Router \<Rightarrow> usize \<Rightarrow> RoutedEvent list \<Rightarrow> 'h MarketSystem \<Rightarrow> bool" where
  "market_inv parse r n es s \<longleftrightarrow> pipeline_inv (my_pipeline s) \<and> sharded_ok (lp_dispatch (my_pipeline s)) \<and>
     lp_router (my_pipeline s) = r \<and> length (lp_shards (my_pipeline s)) = n \<and> length (lp_books (my_pipeline s)) = n \<and>
     (\<forall>i<n. shard_progress parse es (my_pipeline s) i)"

lemma pump_frame_rest:
  assumes "pump_ingest hash p n = (p', popped)"
  shows "lp_router p' = lp_router p" "lp_shards p' = lp_shards p" "lp_books p' = lp_books p"
  using assms by (auto simp: pump_ingest_def Let_def split: if_splits)

lemma route_all_ok: "sharded_ok d \<Longrightarrow> sharded_ok (fst (sharded.route_all hash r d fs))"
  by (induction fs arbitrary: d) (simp_all add: Let_def sharded.route_valid)

lemma pump_inv:
  assumes inv: "market_inv parse r n es s" and pump: "pump_ingest hash (my_pipeline s) k = (p', popped)"
  shows "market_inv parse r n (es @ snd (sharded.route_all hash (lp_router (my_pipeline s)) (lp_dispatch (my_pipeline s))
     (pump_frames (my_pipeline s) k))) (s\<lparr>my_pipeline := p'\<rparr>)"
proof -
  let ?p = "my_pipeline s"
  have i: "pipeline_inv ?p" "sharded_ok (lp_dispatch ?p)" "lp_router ?p = r" "length (lp_shards ?p) = n"
    "length (lp_books ?p) = n" "\<forall>i<n. shard_progress parse es ?p i"
    using inv by (simp_all add: market_inv_def)
  then have ready: "pump_ready (ms_pool (lp_sink ?p)) (ms_queue (lp_sink ?p))" by (simp add: pipeline_inv_def)
  note d' = pump_ingest_effect(4) [OF ready pump]
  have "pipeline_inv p'" using pipeline_step_inv [OF pipeline_step.pump [OF pump]] i(1) .
  moreover have "shard_items (lp_dispatch p') j = shard_items (lp_dispatch ?p) j @ own j
      (snd (sharded.route_all hash (lp_router ?p) (lp_dispatch ?p) (pump_frames ?p k)))" for j
    unfolding d' by (rule sharded.route_all_queued [OF i(2)])
  moreover have "sharded_ok (lp_dispatch p')" unfolding d' by (rule route_all_ok [OF i(2)])
  ultimately show ?thesis
    using i by (auto simp: market_inv_def shard_progress_def pump_frame_rest [OF pump])
qed

lemma work_inv:
  assumes inv: "market_inv parse r n es s" and j: "j < n"
  shows "market_inv parse r n es (put_context j (shard_iteration moved_from parse on_event (shard_context s j)) s)"
proof -
  let ?p = "my_pipeline s" and ?c = "shard_context s j"
  let ?c' = "shard_iteration moved_from parse on_event ?c"
  have i: "pipeline_inv ?p" "sharded_ok (lp_dispatch ?p)" "lp_router ?p = r" "length (lp_shards ?p) = n"
    "length (lp_books ?p) = n" "\<forall>i<n. shard_progress parse es ?p i"
    using inv by (simp_all add: market_inv_def)
  have id: "sh_shard_id (sc_shard ?c) = j" using i(6) j by (simp add: shard_context_def shard_progress_def)
  have ok: "sharded_ok (sc_dispatch ?c)" using i(2) by (simp add: shard_context_def)
  have drain: "sharded_ok (sc_dispatch ?c')" "sh_shard_id (sc_shard ?c') = j"
    "shard_items (sc_dispatch ?c') j = drop 1 (shard_items (lp_dispatch ?p) j)"
    "\<And>k. k \<noteq> j \<Longrightarrow> shard_items (sc_dispatch ?c') k = shard_items (lp_dispatch ?p) k"
    "sc_books ?c' = store_run (lp_books ?p ! j) (parsed_events parse (take 1 (shard_items (lp_dispatch ?p) j)))"
    using shard_rounds_drain [OF ok, of moved_from parse on_event 1] id
    by (simp_all add: shard_rounds_def shard_context_def)
  let ?p' = "my_pipeline (put_context j ?c' s)"
  have sel: "lp_sink ?p' = lp_sink ?p" "lp_router ?p' = lp_router ?p" "lp_dispatch ?p' = sc_dispatch ?c'"
    "lp_shards ?p' = (lp_shards ?p)[j := sc_shard ?c']" "lp_books ?p' = (lp_books ?p)[j := sc_books ?c']"
    "pipeline_inv ?p' = pipeline_inv ?p"
    by (simp_all add: put_context_def pipeline_inv_def)
  have "shard_progress parse es ?p' k" if "k < n" for k
  proof (cases "k = j")
    case False
    with i(6) that drain(4) show ?thesis by (simp add: shard_progress_def sel)
  next
    case True
    from i(6) j obtain seen where seen: "own j es = seen @ shard_items (lp_dispatch ?p) j"
      "lp_books ?p ! j = store_run [] (parsed_events parse seen)" by (auto simp: shard_progress_def)
    let ?seen = "seen @ take 1 (shard_items (lp_dispatch ?p) j)"
    have "own j es = ?seen @ shard_items (sc_dispatch ?c') j" unfolding drain(3) using seen(1) by simp
    moreover have "sc_books ?c' = store_run [] (parsed_events parse ?seen)" unfolding drain(5) seen(2) by simp
    ultimately show ?thesis using True j i(4,5) drain(2) by (auto simp: shard_progress_def sel)
  qed
  then show ?thesis using i drain(1) unfolding market_inv_def sel by simp
qed

lemma market_step_inv:
  "market_step hash moved_from parse on_event s fs s' \<Longrightarrow> market_inv parse r n es s \<Longrightarrow> market_inv parse r n (es @ fs) s'"
proof (induction rule: market_step.induct)
  case (deliver s now_ns now message sink' ok)
  then have "pipeline_inv ((my_pipeline s)\<lparr>lp_sink := sink'\<rparr>)"
    using pipeline_step_inv [OF pipeline_step.deliver [OF deliver.hyps]] by (simp add: market_inv_def)
  then show ?case using deliver.prems by (simp add: market_inv_def shard_progress_def)
next
  case (pump s k p' popped)
  then show ?case by (intro pump_inv)
next
  case (work i s)
  then have "i < n" by (simp add: market_inv_def)
  then show ?case using work.prems by (simp add: work_inv)
qed

lemma market_run_inv:
  "market_run hash moved_from parse on_event s es s' \<Longrightarrow> market_inv parse r n [] s \<Longrightarrow> market_inv parse r n es s'"
  by (induction rule: market_run.induct) (auto intro: market_step_inv)

text \<open>Every accepted event is keyed by the market of its frame, and by the shard of that market.\<close>

definition keyed :: "(string \<Rightarrow> usize) \<Rightarrow> usize \<Rightarrow> RoutedEvent \<Rightarrow> bool" where
  "keyed hash n e \<longleftrightarrow> rk_market_ticker (rev_route_key e) = rtf_market_ticker (rev_frame e) \<and>
     rk_shard_id (rev_route_key e) = compute_shard_id hash (rtf_market_ticker (rev_frame e)) n"

lemma route_all_keyed: "list_all (keyed hash (rt_shard_count r)) (snd (sharded.route_all hash r d fs))"
  by (induction fs arbitrary: d)
    (simp_all add: Let_def keyed_def sharded.event_of_def route_key_of_def routed_frame_of_def)

lemma market_step_router: "market_step hash moved_from parse on_event s fs s' \<Longrightarrow>
  lp_router (my_pipeline s') = lp_router (my_pipeline s) \<and> list_all (keyed hash (rt_shard_count (lp_router (my_pipeline s)))) fs"
  by (erule market_stepE) (simp_all add: route_all_keyed pump_frame_rest put_context_def)

lemma market_run_keyed: "market_run hash moved_from parse on_event s es s' \<Longrightarrow>
  lp_router (my_pipeline s') = lp_router (my_pipeline s) \<and> list_all (keyed hash (rt_shard_count (lp_router (my_pipeline s)))) es"
  by (induction rule: market_run.induct) (auto dest: market_step_router)


section \<open>The book of a market\<close>

abbreviation of_market :: "string \<Rightarrow> RoutedEvent list \<Rightarrow> RoutedEvent list" where
  "of_market m es \<equiv> filter (\<lambda>e. rtf_market_ticker (rev_frame e) = m) es"

lemma routed_parse_market:
  assumes "sj_lawful sj" "pres_value (RoutedEventParser_parse (kalshi_parse sj) e) = Some ev"
  shows "concerns m ev \<longleftrightarrow> rtf_market_ticker (rev_frame e) = m"
proof (cases "rtf_exchange (rev_frame e)")
  case Ex_kKalshi
  then obtain frame where f: "pres_value (kalshi_parse sj frame) = Some ev" "rof_market_ticker frame = rtf_market_ticker (rev_frame e)"
    using assms(2) by (auto simp: RoutedEventParser_parse_def Let_def)
  then show ?thesis
    using kalshi_parse_fits [OF assms(1) f(1)]
    by (auto simp: concerns_def from_frame_def payload_fits_def split: EventType.splits EventData.splits)
qed (use assms(2) in \<open>simp_all add: RoutedEventParser_parse_def polymarket_parse_def parse_failure_def\<close>)

lemma parsed_of_market:
  assumes "sj_lawful sj"
  shows "filter (concerns m) (parsed_events (RoutedEventParser_parse (kalshi_parse sj)) es)
    = parsed_events (RoutedEventParser_parse (kalshi_parse sj)) (of_market m es)"
  by (induction es) (simp_all add: routed_parse_market [OF assms] split: option.split)

lemma own_of_market:
  assumes "list_all (keyed hash n) es"
  shows "of_market m (own i es) = (if i = compute_shard_id hash m n then of_market m es else [])"
  using assms by (induction es) (auto simp: keyed_def)

lemma new_pipeline_shape:
  fixes decode cfg
  defines "p \<equiv> LivePipeline_new decode cfg"
  defines "n \<equiv> length (sd_queues (lp_dispatch p))"
  shows "0 < n" "lp_shards p = map Shard_new [0..<n]" "lp_books p = replicate n []" "rt_shard_count (lp_router p) = n"
    "sharded_ok (lp_dispatch p)" "shard_items (lp_dispatch p) = (\<lambda>i. [])"
proof -
  have d: "lp_dispatch p = ShardedEventDispatch_new
      \<lparr> sdc_shard_count = lpc_shard_count cfg, sdc_per_shard_queue_capacity = lpc_per_shard_queue_capacity cfg \<rparr>"
    by (simp add: p_def LivePipeline_new_def Let_def)
  show "0 < n" "sharded_ok (lp_dispatch p)" "shard_items (lp_dispatch p) = (\<lambda>i. [])"
    by (simp_all add: n_def d sharded_new)
  then show "lp_shards p = map Shard_new [0..<n]" "lp_books p = replicate n []" "rt_shard_count (lp_router p) = n"
    unfolding n_def d by (simp_all add: p_def LivePipeline_new_def Router_new_def sharded_shard_count_def Let_def)
qed

lemma new_market_inv:
  assumes "lpc_frame_pool_capacity cfg < 2 ^ 32" and p: "my_pipeline s = LivePipeline_new decode cfg"
  shows "market_inv parse (lp_router (my_pipeline s)) (length (lp_shards (my_pipeline s))) [] s"
    and "rt_shard_count (lp_router (my_pipeline s)) = length (lp_shards (my_pipeline s))"
    and "0 < length (lp_shards (my_pipeline s))"
  using pipeline_new_inv [OF assms(1), of decode] new_pipeline_shape(1) [of decode cfg]
  by (simp_all add: market_inv_def shard_progress_def p new_pipeline_shape Shard_new_def)

lemma market_book_progress:
  fixes s :: "'h MarketSystem" and m :: string
  assumes "sj_lawful sj" "lpc_frame_pool_capacity cfg < 2 ^ 32"
    and "parse = RoutedEventParser_parse (kalshi_parse sj)"
    and "my_pipeline s0 = LivePipeline_new (kalshi_extract sj) cfg"
    and "market_run hash moved_from parse on_event s0 events s"
    and "m \<noteq> ''''" "shard = compute_shard_id hash m (length (lp_shards (my_pipeline s)))"
  shows "shard < length (lp_shards (my_pipeline s))"
    and "\<exists>k. of_market m (shard_items (lp_dispatch (my_pipeline s)) shard) = drop k (of_market m events) \<and>
      book_or_new (lp_books (my_pipeline s) ! shard) m = book_run (book_or_new [] m) (parsed_events parse (take k (of_market m events)))"
    and "shard_items (lp_dispatch (my_pipeline s)) shard = [] \<Longrightarrow>
      book_or_new (lp_books (my_pipeline s) ! shard) m = book_run (book_or_new [] m) (parsed_events parse (of_market m events))"
    and "\<And>j. j < length (lp_shards (my_pipeline s)) \<Longrightarrow> j \<noteq> shard \<Longrightarrow> book_or_new (lp_books (my_pipeline s) ! j) m = book_or_new [] m"
proof -
  let ?p = "my_pipeline s" and ?n = "length (lp_shards (my_pipeline s0))"
  have inv: "market_inv parse (lp_router (my_pipeline s0)) ?n events s"
    by (rule market_run_inv [OF assms(5) new_market_inv(1) [OF assms(2,4)]])
  then have n: "length (lp_shards ?p) = ?n" by (simp add: market_inv_def)
  have keyed: "list_all (keyed hash ?n) events"
    using market_run_keyed [OF assms(5)] new_market_inv(2) [OF assms(2,4)] by simp
  show less: "shard < length (lp_shards ?p)" 
    using new_market_inv(3) [OF assms(2,4)] by (simp add: assms(7) n compute_shard_id_less)
  have progress: "\<exists>seen. own j events = seen @ shard_items (lp_dispatch ?p) j \<and>
      book_or_new (lp_books ?p ! j) m = book_run (book_or_new [] m) (parsed_events parse (of_market m seen))" if "j < ?n" for j
    using inv that unfolding market_inv_def shard_progress_def
    by (metis store_run_book [OF assms(6)] assms(3) parsed_of_market [OF assms(1)])
  show ex: "\<exists>k. of_market m (shard_items (lp_dispatch ?p) shard) = drop k (of_market m events) \<and>
      book_or_new (lp_books ?p ! shard) m = book_run (book_or_new [] m) (parsed_events parse (take k (of_market m events)))"
  proof -
    obtain seen where seen: "own shard events = seen @ shard_items (lp_dispatch ?p) shard"
      "book_or_new (lp_books ?p ! shard) m = book_run (book_or_new [] m) (parsed_events parse (of_market m seen))"
      using progress less n by auto
    have "of_market m events = of_market m seen @ of_market m (shard_items (lp_dispatch ?p) shard)"
      using arg_cong [OF seen(1), of "of_market m"] own_of_market [OF keyed, of m shard] by (simp add: assms(7) n)
    then show ?thesis using seen(2) by (intro exI [of _ "length (of_market m seen)"]) simp
  qed
  show "book_or_new (lp_books ?p ! shard) m = book_run (book_or_new [] m) (parsed_events parse (of_market m events))"
    if "shard_items (lp_dispatch ?p) shard = []"
    using ex that by auto
  show "book_or_new (lp_books ?p ! j) m = book_or_new [] m" if j: "j < length (lp_shards ?p)" "j \<noteq> shard" for j
  proof -
    obtain seen where seen: "own j events = seen @ shard_items (lp_dispatch ?p) j"
      "book_or_new (lp_books ?p ! j) m = book_run (book_or_new [] m) (parsed_events parse (of_market m seen))"
      using progress [of j] j(1) n by auto
    have "of_market m seen = []"
      using arg_cong [OF seen(1), of "of_market m"] own_of_market [OF keyed, of m j] j(2) by (simp add: assms(7) n)
    then show ?thesis using seen(2) by simp
  qed
qed


text \<open>
  C7. Every book follows its own market, whatever the interleaving of the threads: at every moment
  of every run from a new pipeline, the book of a market is what the accepted frames of that market
  make of an empty book, in the order in which they were accepted, except for those that are still queued;
  once the queue of its shard is empty it reflects them all. The other shards have no book of that market.
\<close>

theorem market_book_follows_its_frames:
  fixes s :: "'h MarketSystem" and m :: string
  assumes "sj_lawful sj" "lpc_frame_pool_capacity cfg < 2 ^ 32"
    and "parse = RoutedEventParser_parse (kalshi_parse sj)"
    and "my_pipeline s0 = LivePipeline_new (kalshi_extract sj) cfg"
    and "market_run hash moved_from parse on_event s0 events s"
    and "m \<noteq> ''''" "shard = compute_shard_id hash m (length (lp_shards (my_pipeline s)))"
  shows "shard < length (lp_shards (my_pipeline s)) \<and>
    (\<exists>k. of_market m (shard_items (lp_dispatch (my_pipeline s)) shard) = drop k (of_market m events) \<and>
      book_or_new (lp_books (my_pipeline s) ! shard) m = book_run (book_or_new [] m) (parsed_events parse (take k (of_market m events)))) \<and>
    (shard_items (lp_dispatch (my_pipeline s)) shard = [] \<longrightarrow>
      book_or_new (lp_books (my_pipeline s) ! shard) m = book_run (book_or_new [] m) (parsed_events parse (of_market m events))) \<and>
    (\<forall>j < length (lp_shards (my_pipeline s)). j \<noteq> shard \<longrightarrow> book_or_new (lp_books (my_pipeline s) ! j) m = book_or_new [] m)"
  using market_book_progress [OF assms] by blast

definition example_feed_system :: "unit MarketSystem" where
  "example_feed_system = \<lparr> my_pipeline = LivePipeline_new (kalshi_extract example_reader) example_pipeline_config,
     my_handlers = [(), ()] \<rparr>"

definition example_received :: "unit MarketSystem" where
  "example_received = example_feed_system\<lparr>my_pipeline := (my_pipeline example_feed_system)
     \<lparr>lp_sink := fst (sink_push_message (lp_sink (my_pipeline example_feed_system)) 7 7 ''delta'')\<rparr>\<rparr>"

definition example_routed_frames :: "RoutedEvent list" where
  "example_routed_frames = snd (sharded.route_all length (lp_router (my_pipeline example_received))
     (lp_dispatch (my_pipeline example_received)) (pump_frames (my_pipeline example_received) 16))"

definition example_pumped :: "unit MarketSystem" where
  "example_pumped = example_received\<lparr>my_pipeline := fst (pump_ingest length (my_pipeline example_received) 16)\<rparr>"

lemma example_market_run:
  "market_run length (\<lambda>e. e) parse None example_feed_system example_routed_frames example_pumped"
proof -
  have received: "market_step length (\<lambda>e. e) parse None example_feed_system [] example_received"
    unfolding example_received_def by (rule market_step.deliver) (rule prod.collapse [symmetric])
  have pumped: "market_step length (\<lambda>e. e) parse None example_received example_routed_frames example_pumped"
    unfolding example_routed_frames_def example_pumped_def by (rule market_step.pump) (rule prod.collapse [symmetric])
  from market_run.step [OF market_run.step [OF market_run.start received] pumped] show ?thesis by simp
qed

theorem market_book_follows_its_frames_witness:
  "\<exists>k. of_market ''MKT'' (shard_items (lp_dispatch (my_pipeline example_pumped))
       (compute_shard_id length ''MKT'' (length (lp_shards (my_pipeline example_pumped))))) = drop k (of_market ''MKT'' example_routed_frames)"
proof -
  have "lpc_frame_pool_capacity example_pipeline_config < 2 ^ 32" by (simp add: example_pipeline_config_def)
  moreover have "my_pipeline example_feed_system = LivePipeline_new (kalshi_extract example_reader) example_pipeline_config"
    by (simp add: example_feed_system_def)
  moreover have "sj_lawful example_reader" unfolding example_reader_def by (rule json_reader_lawful)
  ultimately have "\<exists>k. of_market ''MKT'' (shard_items (lp_dispatch (my_pipeline example_pumped))
       (compute_shard_id length ''MKT'' (length (lp_shards (my_pipeline example_pumped))))) = drop k (of_market ''MKT'' example_routed_frames) \<and>
       book_or_new (lp_books (my_pipeline example_pumped) ! compute_shard_id length ''MKT'' (length (lp_shards (my_pipeline example_pumped)))) ''MKT''
       = book_run (book_or_new [] ''MKT'') (parsed_events (RoutedEventParser_parse (kalshi_parse example_reader))
           (take k (of_market ''MKT'' example_routed_frames)))"
    by (intro market_book_follows_its_frames [OF _ _ refl _ example_market_run _ refl, THEN conjunct2, THEN conjunct1]) simp_all
  then show ?thesis by blast
qed

end
