(* ===== verification/Market_Quiescence.thy ===== *)
theory Market_Quiescence
  imports Market_Data_Path
begin

text \<open>
  The market data threads come to rest: when the network is silent, the rounds of the main
  loop and of the shard workers that find something to do are finitely many, and when no such round is
  left everything that was queued is in the books. The measure is \<open>backlog\<close>: a queued frame counts
  twice, since it may become an event in the queue of a shard, which counts once.
\<close>

section \<open>Rounds that find work\<close>

inductive drain_step ::
    "(string \<Rightarrow> usize) \<Rightarrow> (RoutedEvent \<Rightarrow> RoutedEvent) \<Rightarrow> (RoutedEvent \<Rightarrow> NormalizedEvent ParseResult) \<Rightarrow>
     ('h \<Rightarrow> NormalizedEvent \<Rightarrow> 'h \<times> bool) option \<Rightarrow> 'h MarketSystem \<Rightarrow> RoutedEvent list \<Rightarrow> 'h MarketSystem \<Rightarrow> bool"
  for hash moved_from parse on_event where
  pump: "0 < n \<Longrightarrow> fq_items (ms_queue (lp_sink (my_pipeline s))) \<noteq> [] \<Longrightarrow>
    pump_ingest hash (my_pipeline s) n = (p', popped) \<Longrightarrow>
    drain_step hash moved_from parse on_event s
      (snd (sharded.route_all hash (lp_router (my_pipeline s)) (lp_dispatch (my_pipeline s)) (pump_frames (my_pipeline s) n)))
      (s\<lparr>my_pipeline := p'\<rparr>)"
| work: "i < length (lp_shards (my_pipeline s)) \<Longrightarrow> shard_items (lp_dispatch (my_pipeline s)) i \<noteq> [] \<Longrightarrow>
    drain_step hash moved_from parse on_event s []
      (put_context i (shard_iteration moved_from parse on_event (shard_context s i)) s)"

inductive_cases drain_stepE: "drain_step hash moved_from parse on_event s fs s'"

inductive drain_run for hash moved_from parse on_event where
  start: "drain_run hash moved_from parse on_event s 0 [] s"
| step: "drain_run hash moved_from parse on_event s k es s' \<Longrightarrow> drain_step hash moved_from parse on_event s' fs s'' \<Longrightarrow>
    drain_run hash moved_from parse on_event s (Suc k) (es @ fs) s''"

definition at_rest :: "(string \<Rightarrow> usize) \<Rightarrow> (RoutedEvent \<Rightarrow> RoutedEvent) \<Rightarrow> (RoutedEvent \<Rightarrow> NormalizedEvent ParseResult) \<Rightarrow>
     ('h \<Rightarrow> NormalizedEvent \<Rightarrow> 'h \<times> bool) option \<Rightarrow> 'h MarketSystem \<Rightarrow> bool" where
  "at_rest hash moved_from parse on_event s \<longleftrightarrow> (\<nexists>fs s'. drain_step hash moved_from parse on_event s fs s')"

definition backlog :: "'h MarketSystem \<Rightarrow> nat" where
  "backlog s = 2 * length (fq_items (ms_queue (lp_sink (my_pipeline s)))) +
     (\<Sum>i < length (lp_shards (my_pipeline s)). length (shard_items (lp_dispatch (my_pipeline s)) i))"

lemma drain_is_market_step:
  "drain_step hash moved_from parse on_event s fs s' \<Longrightarrow> market_step hash moved_from parse on_event s fs s'"
  by (erule drain_stepE) (auto intro: market_step.intros)

lemma drain_run_market:
  "drain_run hash moved_from parse on_event s k fs s' \<Longrightarrow> market_run hash moved_from parse on_event s0 es s \<Longrightarrow>
   market_run hash moved_from parse on_event s0 (es @ fs) s'"
proof (induction rule: drain_run.induct)
  case (step s k fs s' gs s'')
  then show ?case using market_run.step [OF _ drain_is_market_step, of hash moved_from parse on_event s0 "es @ fs" s' gs s'']
    by simp
qed simp

section \<open>Every such round reduces the backlog\<close>

lemma own_total: "(\<Sum>i<n. length (own i es)) \<le> length es"
proof (induction es)
  case (Cons e es)
  have "(\<Sum>i<n. length (own i (e # es))) = (\<Sum>i<n. length (own i es) + (if rk_shard_id (rev_route_key e) = i then 1 else 0))"
    by (rule sum.cong) simp_all
  also have "\<dots> \<le> (\<Sum>i<n. length (own i es)) + 1" by (simp add: sum.distrib)
  finally show ?case using Cons by simp
qed simp

lemma pump_backlog:
  assumes inv: "market_inv parse r n es s" and pump: "pump_ingest hash (my_pipeline s) k = (p', popped)"
    and work: "0 < k" "fq_items (ms_queue (lp_sink (my_pipeline s))) \<noteq> []"
  shows "backlog (s\<lparr>my_pipeline := p'\<rparr>) < backlog s"
proof -
  let ?p = "my_pipeline s" and ?q = "fq_items (ms_queue (lp_sink (my_pipeline s)))"
  let ?run = "sharded.route_all hash (lp_router ?p) (lp_dispatch ?p) (pump_frames ?p k)"
  have ok: "pump_ready (ms_pool (lp_sink ?p)) (ms_queue (lp_sink ?p))" "sharded_ok (lp_dispatch ?p)"
    using inv by (simp_all add: market_inv_def pipeline_inv_def)
  note e = pump_ingest_effect [OF ok(1) pump]
  have items: "shard_items (lp_dispatch p') i = shard_items (lp_dispatch ?p) i @ own i (snd ?run)" for i
    unfolding e(4) by (rule sharded.route_all_queued [OF ok(2)])
  have "(\<Sum>i < length (lp_shards ?p). length (own i (snd ?run))) \<le> length (pump_frames ?p k)"
    using own_total [where n = "length (lp_shards ?p)" and es = "snd ?run"] e(9) by linarith
  moreover have "length (pump_frames ?p k) = min k (length ?q)" "0 < length ?q"
    using work(2) by (simp_all add: pump_frames_def)
  ultimately have "2 * (length ?q - k) + (\<Sum>i < length (lp_shards ?p). length (own i (snd ?run))) < 2 * length ?q"
    using work(1) by linarith
  then show ?thesis by (simp add: backlog_def e(3) pump_frame_rest [OF pump] items sum.distrib)
qed

lemma work_backlog:
  assumes inv: "market_inv parse r n es s" and j: "j < n" and work: "shard_items (lp_dispatch (my_pipeline s)) j \<noteq> []"
  shows "backlog (put_context j (shard_iteration moved_from parse on_event (shard_context s j)) s) < backlog s"
proof -
  let ?p = "my_pipeline s" and ?c = "shard_context s j"
  let ?c' = "shard_iteration moved_from parse on_event ?c"
  let ?l = "\<lambda>d i. length (shard_items d i)"
  have i: "sharded_ok (sc_dispatch ?c)" "sh_shard_id (sc_shard ?c) = j" "length (lp_shards ?p) = n"
    using inv j by (simp_all add: market_inv_def shard_context_def shard_progress_def)
  have items: "shard_items (sc_dispatch ?c') k =
      (if k = j then drop 1 (shard_items (lp_dispatch ?p) j) else shard_items (lp_dispatch ?p) k)" for k
    using shard_rounds_drain [OF i(1), of moved_from parse on_event 1] i(2)
    by (simp add: shard_rounds_def shard_context_def)
  have "(\<Sum>k<n. ?l (sc_dispatch ?c') k) < (\<Sum>k<n. ?l (lp_dispatch ?p) k)"
    using j work by (intro sum_strict_mono_ex1) (auto simp: items intro!: bexI [of _ j])
  then show ?thesis by (simp add: backlog_def put_context_def i(3))
qed

lemma drain_step_backlog:
  assumes "market_inv parse r n es s" "drain_step hash moved_from parse on_event s fs s'"
  shows "backlog s' < backlog s"
  using assms(2)
proof cases
  case (pump k p' popped)
  then show ?thesis using pump_backlog [OF assms(1)] by simp
next
  case (work i)
  moreover have "i < n" using work assms(1) by (simp add: market_inv_def)
  ultimately show ?thesis using work_backlog [OF assms(1)] by simp
qed

lemma drain_run_bounded:
  "drain_run hash moved_from parse on_event s k fs s' \<Longrightarrow> market_inv parse r n es s \<Longrightarrow>
   market_inv parse r n (es @ fs) s' \<and> k + backlog s' \<le> backlog s"
proof (induction rule: drain_run.induct)
  case (step s k fs s' gs s'')
  then have "market_inv parse r n (es @ fs) s'" by simp
  then show ?case
    using step drain_step_backlog [OF _ step.hyps(2)] market_step_inv [OF drain_is_market_step [OF step.hyps(2)]] by fastforce
qed simp

section \<open>Rest\<close>

lemma at_rest_iff:
  "at_rest hash moved_from parse on_event s \<longleftrightarrow> fq_items (ms_queue (lp_sink (my_pipeline s))) = [] \<and>
     (\<forall>i < length (lp_shards (my_pipeline s)). shard_items (lp_dispatch (my_pipeline s)) i = [])"
proof
  assume rest: "at_rest hash moved_from parse on_event s"
  show "fq_items (ms_queue (lp_sink (my_pipeline s))) = [] \<and>
     (\<forall>i < length (lp_shards (my_pipeline s)). shard_items (lp_dispatch (my_pipeline s)) i = [])"
    using rest drain_step.pump [OF zero_less_one _ prod.collapse [symmetric], of s hash moved_from parse on_event]
      drain_step.work [of _ s hash moved_from parse on_event] unfolding at_rest_def by blast
qed (auto simp: at_rest_def elim!: drain_stepE)

lemma drains:
  assumes "market_inv parse r n es s"
  shows "\<exists>k fs s'. drain_run hash moved_from parse on_event s k fs s' \<and> at_rest hash moved_from parse on_event s'"
proof -
  have "\<exists>k fs s'. drain_run hash moved_from parse on_event s k fs s' \<and> at_rest hash moved_from parse on_event s'"
    if "drain_run hash moved_from parse on_event s k0 fs0 s0" for k0 fs0 s0
    using that
  proof (induction "backlog s0" arbitrary: k0 fs0 s0 rule: less_induct)
    case less
    show ?case
    proof (cases "at_rest hash moved_from parse on_event s0")
      case False
      then obtain gs s1 where "drain_step hash moved_from parse on_event s0 gs s1" by (auto simp: at_rest_def)
      moreover from this have "backlog s1 < backlog s0"
        using drain_run_bounded [OF less.prems assms] by (blast intro: drain_step_backlog)
      ultimately show ?thesis using less.hyps drain_run.step [OF less.prems] by blast
    qed (use less.prems in blast)
  qed
  then show ?thesis using drain_run.start by blast
qed

text \<open>
  C13. The market data threads terminate their work. At any moment of any run from a new pipeline, if
  nothing more arrives, the main loop and the shard workers find work in at most \<open>backlog\<close> further
  rounds, in whatever order they are scheduled; a state of rest is reached; and at rest, whichever it is,
  both kinds of queue are empty and every book store is the result of all events accepted for its shard.
\<close>

theorem market_comes_to_rest:
  fixes s :: "'h MarketSystem"
  assumes "lpc_frame_pool_capacity cfg < 2 ^ 32" "my_pipeline s0 = LivePipeline_new decode cfg"
    and "market_run hash moved_from parse on_event s0 events s"
  shows "(\<forall>k fs s'. drain_run hash moved_from parse on_event s k fs s' \<longrightarrow> k \<le> backlog s \<and>
      (at_rest hash moved_from parse on_event s' \<longrightarrow> fq_items (ms_queue (lp_sink (my_pipeline s'))) = [] \<and>
        (\<forall>i < length (lp_shards (my_pipeline s')). shard_items (lp_dispatch (my_pipeline s')) i = [] \<and>
          lp_books (my_pipeline s') ! i = store_run [] (parsed_events parse (own i (events @ fs)))))) \<and>
    (\<exists>k fs s'. drain_run hash moved_from parse on_event s k fs s' \<and> at_rest hash moved_from parse on_event s')"
proof -
  let ?r = "lp_router (my_pipeline s0)" and ?n = "length (lp_shards (my_pipeline s0))"
  have inv: "market_inv parse ?r ?n events s"
    by (rule market_run_inv [OF assms(3) new_market_inv(1) [OF assms(1,2)]])
  have "lp_books (my_pipeline s') ! i = store_run [] (parsed_events parse (own i (events @ fs)))"
    if "market_inv parse ?r ?n (events @ fs) s'" "at_rest hash moved_from parse on_event s'" "i < length (lp_shards (my_pipeline s'))"
    for fs s' i
    using that by (auto simp: at_rest_iff market_inv_def shard_progress_def)
  then show ?thesis
    using drains [OF inv] drain_run_bounded [OF _ inv] unfolding at_rest_iff by (meson add_leD1)
qed

theorem market_comes_to_rest_witness:
  "\<exists>k fs s'. drain_run length (\<lambda>e. e) example_parse None example_pumped k fs s' \<and> k \<le> backlog example_pumped \<and>
     at_rest length (\<lambda>e. e) example_parse None s'"
proof -
  have "lpc_frame_pool_capacity example_pipeline_config < 2 ^ 32"
    "my_pipeline example_feed_system = LivePipeline_new (kalshi_extract example_reader) example_pipeline_config"
    by (simp_all add: example_pipeline_config_def example_feed_system_def)
  from market_comes_to_rest [OF this example_market_run, of example_parse] show ?thesis by blast
qed

end
