(* ===== verification/Spsc_Weak_Memory.thy ===== *)
theory Spsc_Weak_Memory
  imports Shard_Router
begin

text \<open>
  The two rings of the program, \<open>SpscFrameQueue\<close> of \<open>ingest/spsc_frame_queue.hpp\<close> and \<open>SpscRoutedEventQueue\<close> of
  \<open>router/shard_dispatch.cpp\<close>, under the memory model of C++: the loads and stores of \<open>head_\<close> and \<open>tail_\<close>
  carry the memory orders of the source (relaxed, acquire, release), the slots of \<open>buffer_\<close> are plain memory.

  The model is the operational reading of release and acquire by views. An atomic location is its
  modification order, a list of messages; a message is the stored value with the view its release
  store published. A view gives, for each location, the oldest message the thread may still
  read, and, for each slot, the number of writes and reads that happen before. A load takes any
  message from the view of the thread on, so it may return an old value; an acquire load
  also joins the view of the message. An access to a slot races when a
  conflicting access of the other thread is not in the view: a race is undefined behaviour, and the
  model records it in \<open>wk_race\<close> and lets a racy read return anything. Where \<open>Spsc_Queue\<close> interleaves the
  accesses on one shared state, this theory shows that the orders chosen in the code are enough. The
  two rings share the model: they differ in the items, in the constant of the constructor and in
  what a pop leaves in its slot, \<open>moved_from\<close>. An access of the consumer counts as a read; since the producer
  never reads a slot and checks for the reads before it writes, the race conditions are the same when the consumer writes too.
\<close>

section \<open>Views\<close>

record view =
  vw_head :: nat
  vw_tail :: nat
  vw_writes :: "usize \<Rightarrow> nat"
  vw_reads :: "usize \<Rightarrow> nat"

definition view_join :: "view \<Rightarrow> view \<Rightarrow> view" where
  "view_join u v = \<lparr> vw_head = max (vw_head u) (vw_head v), vw_tail = max (vw_tail u) (vw_tail v),
     vw_writes = (\<lambda>i. max (vw_writes u i) (vw_writes v i)), vw_reads = (\<lambda>i. max (vw_reads u i) (vw_reads v i)) \<rparr>"

record message =
  ms_value :: usize
  ms_view :: view

datatype 'a WeakProducerPc = WP_idle | WP_loaded 'a usize | WP_checked 'a usize usize | WP_written 'a usize

datatype 'a WeakConsumerPc = WC_idle | WC_loaded usize | WC_checked usize | WC_read usize 'a

text \<open>
  A slot is the list of all values written to it, the default from the constructor first, and the number of reads;
  a pop may replace the last value.
  \<open>wk_pushed\<close> and \<open>wk_popped\<close> record the history.
\<close>

record 'a WeakSpsc =
  wk_capacity :: usize
  wk_head :: "message list"
  wk_tail :: "message list"
  wk_writes :: "usize \<Rightarrow> 'a list"
  wk_reads :: "usize \<Rightarrow> nat"
  wk_producer_view :: view
  wk_consumer_view :: view
  wk_producer :: "'a WeakProducerPc"
  wk_consumer :: "'a WeakConsumerPc"
  wk_pushed :: "'a list"
  wk_popped :: "'a list"
  wk_race :: bool

definition initial_view :: view where
  "initial_view = \<lparr> vw_head = 0, vw_tail = 0, vw_writes = (\<lambda>_. 1), vw_reads = (\<lambda>_. 0) \<rparr>"

definition initial_message :: message where
  "initial_message = \<lparr> ms_value = 0, ms_view = initial_view \<rparr>"

text \<open>The constructor happens before both threads.\<close>

definition weak_new :: "usize \<Rightarrow> 'a \<Rightarrow> usize \<Rightarrow> 'a WeakSpsc" where
  "weak_new min_capacity default_item capacity = \<lparr>
     wk_capacity = (if capacity < min_capacity then min_capacity else capacity),
     wk_head = [initial_message], wk_tail = [initial_message],
     wk_writes = (\<lambda>_. [default_item]), wk_reads = (\<lambda>_. 0),
     wk_producer_view = initial_view, wk_consumer_view = initial_view,
     wk_producer = WP_idle, wk_consumer = WC_idle, wk_pushed = [], wk_popped = [], wk_race = False \<rparr>"

definition write_races :: "'a WeakSpsc \<Rightarrow> view \<Rightarrow> usize \<Rightarrow> bool" where
  "write_races s v i \<longleftrightarrow> vw_writes v i \<noteq> length (wk_writes s i) \<or> vw_reads v i \<noteq> wk_reads s i"

definition read_races :: "'a WeakSpsc \<Rightarrow> view \<Rightarrow> usize \<Rightarrow> bool" where
  "read_races s v i \<longleftrightarrow> vw_writes v i \<noteq> length (wk_writes s i)"

section \<open>Steps\<close>

text \<open>One rule per memory access of \<open>try_push\<close> and \<open>try_pop\<close>; \<open>k\<close> is the message that a load reads.\<close>

inductive weak_step :: "('a \<Rightarrow> 'a) \<Rightarrow> 'a WeakSpsc \<Rightarrow> 'a WeakSpsc \<Rightarrow> bool" for moved_from where
  load_head: "wk_producer s = WP_idle \<Longrightarrow> vw_head (wk_producer_view s) \<le> k \<Longrightarrow> k < length (wk_head s) \<Longrightarrow>
    weak_step moved_from s (s\<lparr> wk_producer_view := (wk_producer_view s)\<lparr>vw_head := k\<rparr>,
      wk_producer := WP_loaded ref (ms_value (wk_head s ! k)) \<rparr>)"
| acquire_tail: "wk_producer s = WP_loaded ref head \<Longrightarrow> vw_tail (wk_producer_view s) \<le> k \<Longrightarrow> k < length (wk_tail s) \<Longrightarrow>
    next_head = (head + 1) mod wk_capacity s \<Longrightarrow>
    weak_step moved_from s (s\<lparr> wk_producer_view := view_join ((wk_producer_view s)\<lparr>vw_tail := k\<rparr>) (ms_view (wk_tail s ! k)),
      wk_producer := (if next_head = ms_value (wk_tail s ! k) then WP_idle else WP_checked ref head next_head) \<rparr>)"
| write_slot: "wk_producer s = WP_checked ref head next_head \<Longrightarrow> v = wk_producer_view s \<Longrightarrow>
    weak_step moved_from s (s\<lparr> wk_race := wk_race s \<or> write_races s v head,
      wk_writes := (wk_writes s)(head := wk_writes s head @ [ref]),
      wk_producer_view := v\<lparr>vw_writes := (vw_writes v)(head := length (wk_writes s head) + 1)\<rparr>,
      wk_producer := WP_written ref next_head \<rparr>)"
| release_head: "wk_producer s = WP_written ref next_head \<Longrightarrow>
    v = (wk_producer_view s)\<lparr>vw_head := length (wk_head s)\<rparr> \<Longrightarrow>
    weak_step moved_from s (s\<lparr> wk_head := wk_head s @ [\<lparr> ms_value = next_head, ms_view = v \<rparr>], wk_producer_view := v,
      wk_producer := WP_idle, wk_pushed := wk_pushed s @ [ref] \<rparr>)"
| load_tail: "wk_consumer s = WC_idle \<Longrightarrow> vw_tail (wk_consumer_view s) \<le> k \<Longrightarrow> k < length (wk_tail s) \<Longrightarrow>
    weak_step moved_from s (s\<lparr> wk_consumer_view := (wk_consumer_view s)\<lparr>vw_tail := k\<rparr>,
      wk_consumer := WC_loaded (ms_value (wk_tail s ! k)) \<rparr>)"
| acquire_head: "wk_consumer s = WC_loaded tail \<Longrightarrow> vw_head (wk_consumer_view s) \<le> k \<Longrightarrow> k < length (wk_head s) \<Longrightarrow>
    weak_step moved_from s (s\<lparr> wk_consumer_view := view_join ((wk_consumer_view s)\<lparr>vw_head := k\<rparr>) (ms_view (wk_head s ! k)),
      wk_consumer := (if tail = ms_value (wk_head s ! k) then WC_idle else WC_checked tail) \<rparr>)"
| read_slot: "wk_consumer s = WC_checked tail \<Longrightarrow> v = wk_consumer_view s \<Longrightarrow>
    \<not> read_races s v tail \<longrightarrow> ref = last (wk_writes s tail) \<Longrightarrow>
    weak_step moved_from s (s\<lparr> wk_race := wk_race s \<or> read_races s v tail,
      wk_writes := (wk_writes s)(tail := butlast (wk_writes s tail) @ [moved_from ref]),
      wk_reads := (wk_reads s)(tail := wk_reads s tail + 1),
      wk_consumer_view := v\<lparr>vw_reads := (vw_reads v)(tail := vw_reads v tail + 1)\<rparr>,
      wk_consumer := WC_read tail ref \<rparr>)"
| release_tail: "wk_consumer s = WC_read tail ref \<Longrightarrow>
    v = (wk_consumer_view s)\<lparr>vw_tail := length (wk_tail s)\<rparr> \<Longrightarrow>
    weak_step moved_from s (s\<lparr> wk_tail := wk_tail s @ [\<lparr> ms_value = (tail + 1) mod wk_capacity s, ms_view = v \<rparr>],
      wk_consumer_view := v, wk_consumer := WC_idle, wk_popped := wk_popped s @ [ref] \<rparr>)"

section \<open>How often a slot is visited\<close>

text \<open>The number of operations, among the first \<open>n\<close>, that use slot \<open>i\<close> of a ring of capacity \<open>c\<close>.\<close>

fun visits :: "nat \<Rightarrow> nat \<Rightarrow> nat \<Rightarrow> nat" where
  "visits c i 0 = 0"
| "visits c i (Suc n) = visits c i n + (if n mod c = i then 1 else 0)"

lemma visits_mono: "m \<le> n \<Longrightarrow> visits c i m \<le> visits c i n"
  by (induction rule: dec_induct) auto

lemma visits_max: "visits c i (max m n) = max (visits c i m) (visits c i n)"
  using visits_mono [of m n c i] visits_mono [of n m c i] by (cases "m \<le> n") (auto simp: max_def)

lemma visits_same: "m \<le> n \<Longrightarrow> (\<And>k. m \<le> k \<Longrightarrow> k < n \<Longrightarrow> k mod c \<noteq> i) \<Longrightarrow> visits c i m = visits c i n"
  by (induction rule: dec_induct) auto

lemma mod_neq_within: "(m :: nat) < n \<Longrightarrow> n < m + c \<Longrightarrow> n mod c \<noteq> m mod c"
  using mod_eq_dvd_iff_nat [of m n c] by (auto dest: dvd_imp_le)

lemma mod_eq_within: "(m :: nat) \<le> n \<Longrightarrow> n < m + c \<Longrightarrow> n mod c = m mod c \<longleftrightarrow> n = m"
  using mod_neq_within [of m n c] by (cases "m = n") auto

text \<open>Between the operation \<open>t\<close> and the next one on its slot nothing visits that slot.\<close>

lemma visits_after: "t < m \<Longrightarrow> m \<le> n \<Longrightarrow> n \<le> t + c \<Longrightarrow> visits c (t mod c) m = visits c (t mod c) n"
  using mod_neq_within by (intro visits_same) auto

lemma visits_before: "m \<le> n \<Longrightarrow> n \<le> t \<Longrightarrow> t < m + c \<Longrightarrow> visits c (t mod c) m = visits c (t mod c) n"
proof (intro visits_same)
  fix k assume "m \<le> n" "n \<le> t" "t < m + c" "m \<le> k" "k < n"
  then show "k mod c \<noteq> t mod c" using mod_neq_within [of k t c] by simp
qed

section \<open>Invariants\<close>

text \<open>The published pushes and pops, and the slot writes and reads done.\<close>

definition wk_H :: "'a WeakSpsc \<Rightarrow> nat" where "wk_H s = length (wk_head s) - 1"
definition wk_T :: "'a WeakSpsc \<Rightarrow> nat" where "wk_T s = length (wk_tail s) - 1"

fun writes_ahead :: "'a WeakProducerPc \<Rightarrow> nat" where
  "writes_ahead (WP_written _ _) = 1"
| "writes_ahead _ = 0"

fun reads_ahead :: "'a WeakConsumerPc \<Rightarrow> nat" where
  "reads_ahead (WC_read _ _) = 1"
| "reads_ahead _ = 0"

definition wk_W :: "'a WeakSpsc \<Rightarrow> nat" where "wk_W s = wk_H s + writes_ahead (wk_producer s)"
definition wk_R :: "'a WeakSpsc \<Rightarrow> nat" where "wk_R s = wk_T s + reads_ahead (wk_consumer s)"

definition view_bounded :: "'a WeakSpsc \<Rightarrow> view \<Rightarrow> bool" where
  "view_bounded s v \<longleftrightarrow> vw_head v < length (wk_head s) \<and> vw_tail v < length (wk_tail s) \<and>
     (\<forall>i. vw_writes v i \<le> length (wk_writes s i)) \<and> (\<forall>i. vw_reads v i \<le> wk_reads s i)"

text \<open>No view is ahead of memory, each thread knows its own accesses, a message knows its own place.\<close>

definition views_ok :: "'a WeakSpsc \<Rightarrow> bool" where
  "views_ok s \<longleftrightarrow>
     view_bounded s (wk_producer_view s) \<and> view_bounded s (wk_consumer_view s) \<and>
     (\<forall>k < length (wk_head s). view_bounded s (ms_view (wk_head s ! k)) \<and> vw_head (ms_view (wk_head s ! k)) = k) \<and>
     (\<forall>k < length (wk_tail s). view_bounded s (ms_view (wk_tail s ! k)) \<and> vw_tail (ms_view (wk_tail s ! k)) = k) \<and>
     vw_head (wk_producer_view s) = wk_H s \<and> vw_tail (wk_consumer_view s) = wk_T s \<and>
     (\<forall>i. vw_writes (wk_producer_view s) i = length (wk_writes s i)) \<and>
     (\<forall>i. vw_reads (wk_consumer_view s) i = wk_reads s i) \<and> (\<forall>i. wk_writes s i \<noteq> [])"

lemma view_bounded_join: "view_bounded s u \<Longrightarrow> view_bounded s v \<Longrightarrow> view_bounded s (view_join u v)"
  by (auto simp: view_bounded_def view_join_def)

lemma view_bounded_cong [simp]:
  "view_bounded (s\<lparr>wk_producer_view := v\<rparr>) u = view_bounded s u" "view_bounded (s\<lparr>wk_consumer_view := v\<rparr>) u = view_bounded s u"
  "view_bounded (s\<lparr>wk_producer := p\<rparr>) u = view_bounded s u" "view_bounded (s\<lparr>wk_consumer := q\<rparr>) u = view_bounded s u"
  "view_bounded (s\<lparr>wk_pushed := xs\<rparr>) u = view_bounded s u" "view_bounded (s\<lparr>wk_popped := xs\<rparr>) u = view_bounded s u"
  "view_bounded (s\<lparr>wk_race := b\<rparr>) u = view_bounded s u"
  by (simp_all add: view_bounded_def)

lemma views_ok_new: "views_ok (weak_new m d c)"
  by (simp add: views_ok_def view_bounded_def weak_new_def initial_message_def initial_view_def wk_H_def wk_T_def)

lemma views_ok_step:
  assumes "weak_step moved_from s s'" "views_ok s"
  shows "views_ok s'"
  using assms
proof cases
  case (load_head k ref)
  then show ?thesis using assms(2) by (auto simp: views_ok_def view_bounded_def wk_H_def wk_T_def)
next
  case (acquire_tail ref head k next_head)
  let ?v = "(wk_producer_view s)\<lparr>vw_tail := k\<rparr>" and ?m = "ms_view (wk_tail s ! k)"
  have "view_bounded s ?v" "view_bounded s ?m"
    using assms(2) acquire_tail by (auto simp: views_ok_def view_bounded_def)
  then have "view_bounded s (view_join ?v ?m)" by (rule view_bounded_join)
  moreover have "vw_head (view_join ?v ?m) = wk_H s" "vw_writes (view_join ?v ?m) i = length (wk_writes s i)" for i
    using assms(2) \<open>view_bounded s ?m\<close>
    by (auto simp: views_ok_def view_bounded_def view_join_def wk_H_def max_def intro: le_antisym)
  ultimately show ?thesis using assms(2) acquire_tail by (simp add: views_ok_def wk_H_def wk_T_def)
next
  case (write_slot ref head next_head v)
  then show ?thesis using assms(2) by (auto simp: views_ok_def view_bounded_def wk_H_def wk_T_def le_SucI)
next
  case (release_head ref next_head v)
  then show ?thesis using assms(2) by (auto simp: views_ok_def view_bounded_def wk_H_def wk_T_def nth_append less_Suc_eq)
next
  case (load_tail k)
  then show ?thesis using assms(2) by (auto simp: views_ok_def view_bounded_def wk_H_def wk_T_def)
next
  case (acquire_head tail k)
  let ?v = "(wk_consumer_view s)\<lparr>vw_head := k\<rparr>" and ?m = "ms_view (wk_head s ! k)"
  have "view_bounded s ?v" "view_bounded s ?m"
    using assms(2) acquire_head by (auto simp: views_ok_def view_bounded_def)
  then have "view_bounded s (view_join ?v ?m)" by (rule view_bounded_join)
  moreover have "vw_tail (view_join ?v ?m) = wk_T s" "vw_reads (view_join ?v ?m) i = wk_reads s i" for i
    using assms(2) \<open>view_bounded s ?m\<close>
    by (auto simp: views_ok_def view_bounded_def view_join_def wk_T_def max_def intro: le_antisym)
  ultimately show ?thesis using assms(2) acquire_head by (simp add: views_ok_def wk_H_def wk_T_def)
next
  case (read_slot tail v ref)
  then show ?thesis using assms(2) by (auto simp: views_ok_def view_bounded_def wk_H_def wk_T_def le_SucI)
next
  case (release_tail tail ref v)
  then show ?thesis using assms(2) by (auto simp: views_ok_def view_bounded_def wk_H_def wk_T_def nth_append less_Suc_eq)
qed

text \<open>The values of the indices, and where the two threads are.\<close>

fun producer_at :: "nat \<Rightarrow> nat \<Rightarrow> 'a WeakProducerPc \<Rightarrow> bool" where
  "producer_at c h WP_idle \<longleftrightarrow> True"
| "producer_at c h (WP_loaded _ head) \<longleftrightarrow> head = h mod c"
| "producer_at c h (WP_checked _ head next_head) \<longleftrightarrow> head = h mod c \<and> next_head = Suc h mod c"
| "producer_at c h (WP_written _ next_head) \<longleftrightarrow> next_head = Suc h mod c"

fun consumer_at :: "nat \<Rightarrow> nat \<Rightarrow> 'a WeakConsumerPc \<Rightarrow> bool" where
  "consumer_at c t WC_idle \<longleftrightarrow> True"
| "consumer_at c t (WC_loaded tail) \<longleftrightarrow> tail = t mod c"
| "consumer_at c t (WC_checked tail) \<longleftrightarrow> tail = t mod c"
| "consumer_at c t (WC_read tail _) \<longleftrightarrow> tail = t mod c"

definition values_ok :: "'a WeakSpsc \<Rightarrow> bool" where
  "values_ok s \<longleftrightarrow> wk_head s \<noteq> [] \<and> wk_tail s \<noteq> [] \<and>
     (\<forall>k < length (wk_head s). ms_value (wk_head s ! k) = k mod wk_capacity s) \<and>
     (\<forall>k < length (wk_tail s). ms_value (wk_tail s ! k) = k mod wk_capacity s) \<and>
     producer_at (wk_capacity s) (wk_H s) (wk_producer s) \<and> consumer_at (wk_capacity s) (wk_T s) (wk_consumer s)"

lemma values_ok_new: "values_ok (weak_new m d c)"
  by (simp add: values_ok_def weak_new_def initial_message_def)

lemma values_ok_step:
  assumes "weak_step moved_from s s'" "views_ok s" "values_ok s"
  shows "values_ok s'"
  using assms(1)
proof cases
  case (load_head k ref)
  then have "k = wk_H s" using assms(2) by (simp add: views_ok_def wk_H_def)
  then show ?thesis using assms(3) load_head by (simp add: values_ok_def wk_H_def wk_T_def)
next
  case (load_tail k)
  then have "k = wk_T s" using assms(2) by (simp add: views_ok_def wk_T_def)
  then show ?thesis using assms(3) load_tail by (simp add: values_ok_def wk_H_def wk_T_def)
qed (use assms(3) in \<open>auto simp: values_ok_def wk_H_def wk_T_def nth_append mod_Suc_eq less_Suc_eq\<close>)

text \<open>What the views count: a message publishes all accesses before it, a view that has seen an
  index counts the accesses behind that index.\<close>

definition counts_ok :: "'a WeakSpsc \<Rightarrow> bool" where
  "counts_ok s \<longleftrightarrow> (let c = wk_capacity s in
     (\<forall>i. length (wk_writes s i) = Suc (visits c i (wk_W s))) \<and> (\<forall>i. wk_reads s i = visits c i (wk_R s)) \<and>
     (\<forall>k < length (wk_head s). \<forall>i. visits c i k < vw_writes (ms_view (wk_head s ! k)) i) \<and>
     (\<forall>k < length (wk_tail s). \<forall>i. visits c i k \<le> vw_reads (ms_view (wk_tail s ! k)) i) \<and>
     (\<forall>i. visits c i (vw_tail (wk_producer_view s)) \<le> vw_reads (wk_producer_view s) i) \<and>
     (\<forall>i. visits c i (vw_head (wk_consumer_view s)) < vw_writes (wk_consumer_view s) i))"

lemmas weak_counters = wk_H_def wk_T_def wk_W_def wk_R_def

lemma counts_ok_new: "counts_ok (weak_new m d c)"
  by (simp add: counts_ok_def weak_new_def initial_message_def initial_view_def weak_counters)

lemma acquired_view:
  assumes "views_ok s"
  shows "k < length (wk_tail s) \<Longrightarrow> vw_tail (view_join (v\<lparr>vw_tail := k\<rparr>) (ms_view (wk_tail s ! k))) = k"
    and "k < length (wk_head s) \<Longrightarrow> vw_head (view_join (v\<lparr>vw_head := k\<rparr>) (ms_view (wk_head s ! k))) = k"
  using assms by (simp_all add: views_ok_def view_join_def)

lemma counts_ok_step:
  assumes "weak_step moved_from s s'" "views_ok s" "values_ok s" "counts_ok s"
  shows "counts_ok s'"
  using assms(1)
proof cases
  case (load_head k ref)
  then show ?thesis using assms(4) by (simp add: counts_ok_def weak_counters Let_def)
next
  case (acquire_tail ref head k next_head)
  let ?v = "view_join ((wk_producer_view s)\<lparr>vw_tail := k\<rparr>) (ms_view (wk_tail s ! k))"
  have "visits (wk_capacity s) i (vw_tail ?v) \<le> vw_reads ?v i" for i
    unfolding acquired_view(1) [OF assms(2) acquire_tail(4)]
    using assms(4) acquire_tail(4) by (auto simp: counts_ok_def view_join_def Let_def intro: max.coboundedI2)
  then show ?thesis using assms(4) acquire_tail by (simp add: counts_ok_def weak_counters Let_def)
next
  case (write_slot ref head next_head v)
  then have "head = wk_H s mod wk_capacity s" using assms(3) by (simp add: values_ok_def)
  then show ?thesis using assms(4) write_slot by (simp add: counts_ok_def weak_counters Let_def)
next
  case (release_head ref next_head v)
  have "Suc (wk_H s) = length (wk_head s)" using assms(3) by (simp add: values_ok_def wk_H_def)
  then have "vw_writes (wk_producer_view s) i = Suc (visits (wk_capacity s) i (length (wk_head s)))" for i
    using assms(2,4) release_head(2) by (simp add: counts_ok_def views_ok_def wk_W_def Let_def)
  then show ?thesis using assms(3,4) release_head
    by (auto simp: counts_ok_def weak_counters Let_def nth_append less_Suc_eq values_ok_def)
next
  case (load_tail k)
  then show ?thesis using assms(4) by (simp add: counts_ok_def weak_counters Let_def)
next
  case (acquire_head tail k)
  let ?v = "view_join ((wk_consumer_view s)\<lparr>vw_head := k\<rparr>) (ms_view (wk_head s ! k))"
  have "visits (wk_capacity s) i (vw_head ?v) < vw_writes ?v i" for i
    unfolding acquired_view(2) [OF assms(2) acquire_head(4)]
    using assms(4) acquire_head(4) by (auto simp: counts_ok_def view_join_def Let_def less_max_iff_disj)
  then show ?thesis using assms(4) acquire_head by (simp add: counts_ok_def weak_counters Let_def)
next
  case (read_slot tail v ref)
  then have "tail = wk_T s mod wk_capacity s" using assms(3) by (simp add: values_ok_def)
  then show ?thesis using assms(4) read_slot by (auto simp: counts_ok_def weak_counters Let_def)
next
  case (release_tail tail ref v)
  have "Suc (wk_T s) = length (wk_tail s)" using assms(3) by (simp add: values_ok_def wk_T_def)
  then have "vw_reads (wk_consumer_view s) i = visits (wk_capacity s) i (length (wk_tail s))" for i
    using assms(2,4) release_tail(2) by (simp add: counts_ok_def views_ok_def wk_R_def Let_def)
  then show ?thesis using assms(3,4) release_tail
    by (auto simp: counts_ok_def weak_counters Let_def nth_append less_Suc_eq values_ok_def)
qed

text \<open>How far the threads may be apart, by what each has seen of the other.\<close>

fun room_needed :: "'a WeakProducerPc \<Rightarrow> nat" where
  "room_needed (WP_checked _ _ _) = 2"
| "room_needed (WP_written _ _) = 2"
| "room_needed _ = 1"

fun items_needed :: "'a WeakConsumerPc \<Rightarrow> nat" where
  "items_needed (WC_checked _) = 1"
| "items_needed (WC_read _ _) = 1"
| "items_needed _ = 0"

definition order_ok :: "'a WeakSpsc \<Rightarrow> bool" where
  "order_ok s \<longleftrightarrow> 2 \<le> wk_capacity s \<and>
     wk_H s + room_needed (wk_producer s) \<le> vw_tail (wk_producer_view s) + wk_capacity s \<and>
     wk_T s + items_needed (wk_consumer s) \<le> vw_head (wk_consumer_view s)"

lemma order_ok_new: "2 \<le> m \<Longrightarrow> order_ok (weak_new m d c)"
  by (simp add: order_ok_def weak_new_def initial_view_def weak_counters)

lemma order_ok_step:
  assumes "weak_step moved_from s s'" "views_ok s" "values_ok s" "order_ok s"
  shows "order_ok s'"
  using assms(1)
proof cases
  case (acquire_tail ref head k next_head)
  note seen = acquired_view(1) [OF assms(2) acquire_tail(4), of "wk_producer_view s"]
  have "next_head = Suc (wk_H s) mod wk_capacity s" "ms_value (wk_tail s ! k) = k mod wk_capacity s"
    using assms(3) acquire_tail by (simp_all add: values_ok_def mod_Suc_eq)
  moreover have "wk_H s + 1 \<le> k + wk_capacity s" using assms(4) acquire_tail by (simp add: order_ok_def)
  moreover from this have "wk_H s + 2 \<le> k + wk_capacity s" if "Suc (wk_H s) mod wk_capacity s \<noteq> k mod wk_capacity s"
    using that by (cases "Suc (wk_H s) = k + wk_capacity s") auto
  ultimately show ?thesis using assms(4) acquire_tail seen by (simp add: order_ok_def weak_counters)
next
  case (acquire_head tail k)
  note seen = acquired_view(2) [OF assms(2) acquire_head(4), of "wk_consumer_view s"]
  have "tail = wk_T s mod wk_capacity s" "ms_value (wk_head s ! k) = k mod wk_capacity s"
    using assms(3) acquire_head by (simp_all add: values_ok_def)
  moreover have "wk_T s \<le> k" using assms(4) acquire_head by (simp add: order_ok_def)
  ultimately show ?thesis using assms(4) acquire_head seen
    by (cases "wk_T s = k") (simp_all add: order_ok_def weak_counters)
qed (use assms(3,4) in \<open>auto simp: order_ok_def weak_counters values_ok_def\<close>)

text \<open>The distances that the two race conditions need.\<close>

lemma weak_distances:
  assumes "views_ok s" "order_ok s"
  shows "vw_tail (wk_producer_view s) \<le> wk_T s" "vw_head (wk_consumer_view s) \<le> wk_H s" "wk_T s \<le> wk_H s"
    "wk_R s \<le> vw_head (wk_consumer_view s)" "wk_W s < wk_T s + wk_capacity s" "wk_H s < vw_tail (wk_producer_view s) + wk_capacity s"
proof -
  show a: "vw_tail (wk_producer_view s) \<le> wk_T s" and b: "vw_head (wk_consumer_view s) \<le> wk_H s"
    using assms(1) by (auto simp: views_ok_def view_bounded_def weak_counters)
  have "reads_ahead (wk_consumer s) \<le> items_needed (wk_consumer s)" by (cases "wk_consumer s") simp_all
  moreover have "writes_ahead (wk_producer s) < room_needed (wk_producer s)" by (cases "wk_producer s") simp_all
  ultimately show "wk_T s \<le> wk_H s" "wk_R s \<le> vw_head (wk_consumer_view s)" "wk_W s < wk_T s + wk_capacity s"
      "wk_H s < vw_tail (wk_producer_view s) + wk_capacity s"
    using assms(2) a b unfolding order_ok_def wk_W_def wk_R_def by linarith+
qed

lemma no_write_race:
  assumes "views_ok s" "counts_ok s" "order_ok s"
  shows "\<not> write_races s (wk_producer_view s) (wk_H s mod wk_capacity s)"
proof -
  note d = weak_distances [OF assms(1,3)]
  let ?i = "wk_H s mod wk_capacity s" and ?a = "vw_tail (wk_producer_view s)"
  have "visits (wk_capacity s) ?i ?a = visits (wk_capacity s) ?i (wk_R s)"
    using d by (intro visits_before) (auto simp: wk_R_def)
  then have "wk_reads s ?i \<le> vw_reads (wk_producer_view s) ?i" using assms(2) by (simp add: counts_ok_def Let_def) metis
  then show ?thesis using assms(1) by (simp add: write_races_def views_ok_def view_bounded_def le_antisym)
qed

lemma no_read_race:
  assumes "views_ok s" "counts_ok s" "order_ok s" "wk_T s < vw_head (wk_consumer_view s)"
  shows "\<not> read_races s (wk_consumer_view s) (wk_T s mod wk_capacity s)"
proof -
  note d = weak_distances [OF assms(1,3)]
  let ?i = "wk_T s mod wk_capacity s" and ?b = "vw_head (wk_consumer_view s)"
  have "visits (wk_capacity s) ?i ?b = visits (wk_capacity s) ?i (wk_W s)"
    using d assms(4) by (intro visits_after) (auto simp: wk_W_def)
  then have "length (wk_writes s ?i) \<le> vw_writes (wk_consumer_view s) ?i"
    using assms(2) by (simp add: counts_ok_def Let_def Suc_le_eq) metis
  then show ?thesis using assms(1) by (simp add: read_races_def views_ok_def view_bounded_def le_antisym)
qed

definition weak_inv :: "'a WeakSpsc \<Rightarrow> bool" where
  "weak_inv s \<longleftrightarrow> views_ok s \<and> values_ok s \<and> counts_ok s \<and> order_ok s \<and> \<not> wk_race s"

lemma weak_inv_new: "2 \<le> m \<Longrightarrow> weak_inv (weak_new m d c)"
  by (simp add: weak_inv_def views_ok_new values_ok_new counts_ok_new order_ok_new) (simp add: weak_new_def)

lemma weak_inv_step:
  assumes "weak_step moved_from s s'" "weak_inv s"
  shows "weak_inv s'"
proof -
  have inv: "views_ok s" "values_ok s" "counts_ok s" "order_ok s" using assms(2) by (simp_all add: weak_inv_def)
  have "\<not> wk_race s'" using assms(1)
  proof cases
    case (write_slot ref head next_head v)
    then show ?thesis using assms(2) inv no_write_race [of s] by (simp add: weak_inv_def values_ok_def)
  next
    case (read_slot tail v ref)
    then show ?thesis using assms(2) inv no_read_race [of s] by (simp add: weak_inv_def values_ok_def order_ok_def)
  qed (use assms(2) in \<open>simp_all add: weak_inv_def\<close>)
  then show ?thesis
    using assms(1) inv by (simp add: weak_inv_def views_ok_step values_ok_step counts_ok_step order_ok_step)
qed

section \<open>What the ring delivers\<close>

fun in_flight :: "'a WeakProducerPc \<Rightarrow> 'a list" where
  "in_flight (WP_written ref _) = [ref]"
| "in_flight _ = []"

fun consumer_got :: "'a list \<Rightarrow> nat \<Rightarrow> 'a WeakConsumerPc \<Rightarrow> bool" where
  "consumer_got pushed t (WC_read _ ref) \<longleftrightarrow> ref = pushed ! t"
| "consumer_got pushed t _ \<longleftrightarrow> True"

text \<open>A slot that was written and not yet read holds the item of that write.\<close>

definition contents_ok :: "'a WeakSpsc \<Rightarrow> bool" where
  "contents_ok s \<longleftrightarrow> length (wk_pushed s) = wk_H s \<and> wk_popped s = take (wk_T s) (wk_pushed s) \<and>
     (\<forall>n. wk_R s \<le> n \<and> n < wk_W s \<longrightarrow>
        last (wk_writes s (n mod wk_capacity s)) = (wk_pushed s @ in_flight (wk_producer s)) ! n) \<and>
     consumer_got (wk_pushed s) (wk_T s) (wk_consumer s)"

lemma contents_ok_new: "contents_ok (weak_new m d c)"
  by (simp add: contents_ok_def weak_new_def weak_counters)

lemma consumer_got_append: "consumer_got xs t q \<Longrightarrow> t < length xs \<or> reads_ahead q = 0 \<Longrightarrow> consumer_got (xs @ ys) t q"
  by (cases q) (auto simp: nth_append)

lemma write_contents:
  assumes "weak_inv s" "contents_ok s" "wk_producer s = WP_checked ref head next_head"
  shows "contents_ok (s\<lparr> wk_race := b, wk_writes := (wk_writes s)(head := wk_writes s head @ [ref]),
    wk_producer_view := v, wk_producer := WP_written ref next_head \<rparr>)"
proof -
  have d: "wk_W s < wk_T s + wk_capacity s" "wk_W s = wk_H s" "head = wk_H s mod wk_capacity s"
    using assms weak_distances [of s] by (simp_all add: weak_inv_def values_ok_def wk_W_def)
  have "n mod wk_capacity s \<noteq> head" if "wk_R s \<le> n" "n < wk_H s" for n
    using mod_neq_within [of n "wk_H s" "wk_capacity s"] d that by (simp add: wk_R_def)
  then show ?thesis
    using assms(2,3) d by (auto simp: contents_ok_def weak_counters nth_append less_Suc_eq)
qed

lemma read_contents:
  assumes "weak_inv s" "contents_ok s" "wk_consumer s = WC_checked tail"
    "\<not> read_races s (wk_consumer_view s) tail \<longrightarrow> ref = last (wk_writes s tail)"
  shows "contents_ok (s\<lparr> wk_race := b, wk_writes := (wk_writes s)(tail := butlast (wk_writes s tail) @ [x]), wk_reads := rs,
    wk_consumer_view := v, wk_consumer := WC_read tail ref \<rparr>)"
proof -
  have inv: "views_ok s" "counts_ok s" "order_ok s" "tail = wk_T s mod wk_capacity s" "wk_T s < vw_head (wk_consumer_view s)"
      "wk_R s = wk_T s"
    using assms(1,3) by (auto simp: weak_inv_def values_ok_def order_ok_def wk_R_def)
  note d = weak_distances [OF inv(1,3)]
  have "ref = last (wk_writes s tail)" using assms(4) no_read_race [OF inv(1-3,5)] inv(4) by simp
  moreover have "wk_T s < wk_H s" "wk_T s < wk_W s" using d(2) inv(5) by (simp_all add: wk_W_def)
  ultimately have "ref = wk_pushed s ! wk_T s" using assms(2) inv(4,6) by (simp add: contents_ok_def nth_append)
  moreover have "n mod wk_capacity s \<noteq> tail" if "Suc (wk_T s) \<le> n" "n < wk_W s" for n
    using mod_neq_within [of "wk_T s" n "wk_capacity s"] d(5) inv(4) that by simp
  ultimately show ?thesis using assms(2,3) inv(6) by (auto simp: contents_ok_def weak_counters)
qed

lemma contents_ok_step:
  assumes "weak_step moved_from s s'" "weak_inv s" "contents_ok s"
  shows "contents_ok s'"
proof -
  have inv: "views_ok s" "values_ok s" "order_ok s" using assms(2) by (simp_all add: weak_inv_def)
  note d = weak_distances [OF inv(1,3)]
  show ?thesis using assms(1)
  proof cases
    case (write_slot ref head next_head v)
    then show ?thesis using write_contents [OF assms(2,3)] by simp
  next
    case (read_slot tail v ref)
    then show ?thesis using read_contents [OF assms(2,3)] by simp
  next
    case (release_head ref next_head v)
    have "wk_T s < wk_H s \<or> reads_ahead (wk_consumer s) = 0"
      using d(2) inv(3) by (cases "wk_consumer s") (auto simp: order_ok_def)
    then have "consumer_got (wk_pushed s @ [ref]) (wk_T s) (wk_consumer s)"
      using assms(3) by (simp add: contents_ok_def consumer_got_append)
    moreover have "length (wk_tail s) \<le> length (wk_head s)"
      using d(3) inv(2) by (cases "wk_head s"; cases "wk_tail s") (simp_all add: values_ok_def weak_counters)
    ultimately show ?thesis using release_head assms(3) inv(2)
      by (auto simp: contents_ok_def weak_counters values_ok_def)
  next
    case (release_tail tail ref v)
    then have "wk_T s < wk_H s" using inv(3) d(2) by (simp add: order_ok_def)
    moreover have "Suc (wk_T s) = length (wk_tail s)" using inv(2) by (simp add: values_ok_def wk_T_def)
    ultimately show ?thesis using release_tail assms(3)
      by (auto simp: contents_ok_def weak_counters take_Suc_conv_app_nth [symmetric])
  qed (use assms(3) in \<open>auto simp: contents_ok_def weak_counters\<close>)
qed

lemma weak_run_inv:
  "(weak_step moved_from)\<^sup>*\<^sup>* (weak_new m d c) s \<Longrightarrow> 2 \<le> m \<Longrightarrow> weak_inv s \<and> contents_ok s"
  by (induction rule: rtranclp_induct) (auto simp: weak_inv_new contents_ok_new intro: weak_inv_step contents_ok_step)

lemma weak_run_delivers:
  assumes "(weak_step moved_from)\<^sup>*\<^sup>* (weak_new m d c) s" "2 \<le> m"
  shows "\<not> wk_race s" "wk_popped s = take (length (wk_popped s)) (wk_pushed s)"
    "length (wk_popped s) \<le> length (wk_pushed s)" "length (wk_pushed s) < length (wk_popped s) + wk_capacity s"
proof -
  have inv: "weak_inv s" "contents_ok s" using weak_run_inv [OF assms] by simp_all
  have d: "wk_T s \<le> wk_H s" "wk_H s < wk_T s + wk_capacity s"
    using inv(1) weak_distances [of s] by (auto simp: weak_inv_def wk_W_def)
  then have len: "length (wk_popped s) = wk_T s" "length (wk_pushed s) = wk_H s" using inv(2) by (simp_all add: contents_ok_def)
  show "\<not> wk_race s" "wk_popped s = take (length (wk_popped s)) (wk_pushed s)"
    "length (wk_popped s) \<le> length (wk_pushed s)" "length (wk_pushed s) < length (wk_popped s) + wk_capacity s"
    using inv d by (simp_all add: len) (simp_all add: weak_inv_def contents_ok_def)
qed

section \<open>Refinement of the interleaved ring\<close>

text \<open>The frame queue: a pop copies the handle, which leaves the slot as it is.\<close>

definition frame_ring_new :: "usize \<Rightarrow> FrameRef WeakSpsc" where
  "frame_ring_new capacity = weak_new fq_kMinCapacity FrameRef_default capacity"

definition frame_ring_step :: "FrameRef WeakSpsc \<Rightarrow> FrameRef WeakSpsc \<Rightarrow> bool" where
  "frame_ring_step = weak_step (\<lambda>ref. ref)"

lemma frame_ring_run: "frame_ring_step\<^sup>*\<^sup>* (frame_ring_new c) s \<Longrightarrow> weak_inv s"
  using weak_run_inv [of "\<lambda>ref. ref" fq_kMinCapacity FrameRef_default c s]
  by (simp add: frame_ring_step_def frame_ring_new_def fq_kMinCapacity_def)

text \<open>
  The state of the sequentially consistent model behind a state of this one: the indices are the last ones stored,
  a slot holds its last write. A thread that has only loaded its own index has not begun there.
\<close>

fun strong_producer :: "usize \<Rightarrow> FrameRef WeakProducerPc \<Rightarrow> ProducerPc" where
  "strong_producer h (WP_checked ref head next_head) = P_checked ref head next_head"
| "strong_producer h (WP_written ref next_head) = P_written ref h next_head"
| "strong_producer h _ = P_idle"

fun strong_consumer :: "FrameRef WeakConsumerPc \<Rightarrow> ConsumerPc" where
  "strong_consumer (WC_checked tail) = C_checked tail"
| "strong_consumer (WC_read tail ref) = C_read tail ref"
| "strong_consumer _ = C_idle"

definition weak_abs :: "FrameRef WeakSpsc \<Rightarrow> SpscThreads" where
  "weak_abs s = (let c = wk_capacity s in
     \<lparr> th_queue = \<lparr> fq_head = wk_H s mod c, fq_capacity = c, fq_buffer = map (\<lambda>i. last (wk_writes s i)) [0..<c],
         fq_tail = wk_T s mod c \<rparr>,
       th_producer = strong_producer (wk_H s mod c) (wk_producer s), th_consumer = strong_consumer (wk_consumer s),
       th_pushed = wk_pushed s, th_popped = wk_popped s \<rparr>)"

lemma weak_abs_new: "weak_abs (frame_ring_new c) = threads_new c"
  by (simp add: frame_ring_new_def weak_abs_def weak_new_def threads_new_def SpscFrameQueue_new_def weak_counters Let_def map_replicate_const)

text \<open>What a thread checked on an old index also holds of the current one.\<close>

lemma checked_is_current:
  assumes "views_ok s" "order_ok s"
  shows "wk_H s + 2 \<le> vw_tail (wk_producer_view s) + wk_capacity s \<Longrightarrow> Suc (wk_H s) mod wk_capacity s \<noteq> wk_T s mod wk_capacity s"
    and "wk_T s < vw_head (wk_consumer_view s) \<Longrightarrow> wk_T s mod wk_capacity s \<noteq> wk_H s mod wk_capacity s"
proof -
  note d = weak_distances [OF assms]
  show "Suc (wk_H s) mod wk_capacity s \<noteq> wk_T s mod wk_capacity s" if "wk_H s + 2 \<le> vw_tail (wk_producer_view s) + wk_capacity s"
    using d(1,3) that mod_neq_within [of "wk_T s" "Suc (wk_H s)" "wk_capacity s"] by simp
  show "wk_T s mod wk_capacity s \<noteq> wk_H s mod wk_capacity s" if "wk_T s < vw_head (wk_consumer_view s)"
    using d(1,2,6) that mod_neq_within [of "wk_T s" "wk_H s" "wk_capacity s"] by simp
qed

lemmas weak_abs_simps = weak_abs_def weak_counters fq_increment_def Let_def

lemma acquire_tail_simulated:
  assumes "weak_inv s" "weak_inv s'" "wk_producer s = WP_loaded ref head" "next_head = (head + 1) mod wk_capacity s"
    "s' = s\<lparr>wk_producer_view := v, wk_producer := WP_checked ref head next_head\<rparr>"
  shows "spsc_step (weak_abs s) (weak_abs s')"
proof -
  have inv: "views_ok s'" "order_ok s'" "head = wk_H s mod wk_capacity s"
    using assms(1-3) by (simp_all add: weak_inv_def values_ok_def)
  have "wk_H s' + 2 \<le> vw_tail (wk_producer_view s') + wk_capacity s'" using inv(2) assms(5) by (simp add: order_ok_def)
  from checked_is_current(1) [OF inv(1,2) this]
  have "spsc_step (weak_abs s) ((weak_abs s)\<lparr>th_producer := P_checked ref head next_head\<rparr>)"
    using assms(3-5) inv(3) by (intro push_check) (simp_all add: weak_abs_simps mod_Suc_eq)
  then show ?thesis using assms(5) by (simp add: weak_abs_simps)
qed

lemma acquire_head_simulated:
  assumes "weak_inv s" "weak_inv s'" "wk_consumer s = WC_loaded tail"
    "s' = s\<lparr>wk_consumer_view := v, wk_consumer := WC_checked tail\<rparr>"
  shows "spsc_step (weak_abs s) (weak_abs s')"
proof -
  have inv: "views_ok s'" "order_ok s'" "tail = wk_T s mod wk_capacity s"
    using assms(1-3) by (simp_all add: weak_inv_def values_ok_def)
  have "wk_T s' < vw_head (wk_consumer_view s')" using inv(2) assms(4) by (simp add: order_ok_def)
  from checked_is_current(2) [OF inv(1,2) this]
  have "spsc_step (weak_abs s) ((weak_abs s)\<lparr>th_consumer := C_checked tail\<rparr>)"
    using assms(3,4) inv(3) by (intro pop_check) (simp_all add: weak_abs_simps)
  then show ?thesis using assms(4) by (simp add: weak_abs_simps)
qed

lemma last_writes_update:
  "(map (\<lambda>i. last (ws i)) [0..<n])[j := x] = map (\<lambda>i. last ((ws(j := ws j @ [x])) i)) [0..<n]"
  by (rule nth_equalityI) (auto simp: nth_list_update)

lemma write_slot_simulated:
  assumes "weak_inv s" "wk_producer s = WP_checked ref head next_head"
  shows "spsc_step (weak_abs s) (weak_abs (s\<lparr> wk_race := b, wk_writes := (wk_writes s)(head := wk_writes s head @ [ref]),
    wk_producer_view := v, wk_producer := WP_written ref next_head \<rparr>))"
proof -
  have "head = wk_H s mod wk_capacity s" using assms by (simp add: weak_inv_def values_ok_def)
  moreover have "spsc_step (weak_abs s) ((weak_abs s)\<lparr> th_queue := (th_queue (weak_abs s))\<lparr>fq_buffer :=
      (fq_buffer (th_queue (weak_abs s)))[head := ref]\<rparr>, th_producer := P_written ref head next_head \<rparr>)"
    using assms(2) by (intro push_write) (simp add: weak_abs_simps)
  ultimately show ?thesis by (simp add: weak_abs_simps last_writes_update)
qed

lemma read_slot_simulated:
  assumes "weak_inv s" "wk_consumer s = WC_checked tail"
    "\<not> read_races s (wk_consumer_view s) tail \<longrightarrow> ref = last (wk_writes s tail)"
  shows "spsc_step (weak_abs s) (weak_abs (s\<lparr> wk_race := b, wk_writes := (wk_writes s)(tail := butlast (wk_writes s tail) @ [ref]),
    wk_reads := rs, wk_consumer_view := v, wk_consumer := WC_read tail ref \<rparr>))"
proof -
  have inv: "views_ok s" "counts_ok s" "order_ok s" "tail = wk_T s mod wk_capacity s"
      "tail < wk_capacity s" "wk_T s < vw_head (wk_consumer_view s)"
    using assms(1,2) by (auto simp: weak_inv_def values_ok_def order_ok_def)
  then have ref: "ref = last (wk_writes s tail)" using assms(3) no_read_race [OF inv(1-3,6)] by simp
  then have "ref = fq_buffer (th_queue (weak_abs s)) ! tail" using inv(5) by (simp add: weak_abs_simps)
  moreover have "spsc_step (weak_abs s) ((weak_abs s)\<lparr>th_consumer := C_read tail (fq_buffer (th_queue (weak_abs s)) ! tail)\<rparr>)"
    using assms(2) by (intro pop_read) (simp add: weak_abs_simps)
  moreover have "(wk_writes s)(tail := butlast (wk_writes s tail) @ [ref]) = wk_writes s"
    using inv(1) by (simp add: ref views_ok_def)
  ultimately show ?thesis by (simp add: weak_abs_simps)
qed

lemma release_simulated:
  assumes "values_ok s"
  shows "wk_producer s = WP_written ref next_head \<Longrightarrow> spsc_step (weak_abs s)
      (weak_abs (s\<lparr> wk_head := wk_head s @ [\<lparr> ms_value = next_head, ms_view = v \<rparr>], wk_producer_view := v,
        wk_producer := WP_idle, wk_pushed := wk_pushed s @ [ref] \<rparr>))"
    and "wk_consumer s = WC_read tail ref \<Longrightarrow> spsc_step (weak_abs s)
      (weak_abs (s\<lparr> wk_tail := wk_tail s @ [\<lparr> ms_value = (tail + 1) mod wk_capacity s, ms_view = v \<rparr>],
        wk_consumer_view := v, wk_consumer := WC_idle, wk_popped := wk_popped s @ [ref] \<rparr>))"
proof -
  assume pc: "wk_producer s = WP_written ref next_head"
  then have "next_head = length (wk_head s) mod wk_capacity s" using assms by (simp add: values_ok_def wk_H_def)
  moreover have "spsc_step (weak_abs s) ((weak_abs s)\<lparr> th_queue := (th_queue (weak_abs s))\<lparr>fq_head := next_head\<rparr>,
      th_producer := P_idle, th_pushed := th_pushed (weak_abs s) @ [ref] \<rparr>)"
    using pc by (intro push_publish [where head = "wk_H s mod wk_capacity s"]) (simp add: weak_abs_def Let_def)
  ultimately show "spsc_step (weak_abs s)
      (weak_abs (s\<lparr> wk_head := wk_head s @ [\<lparr> ms_value = next_head, ms_view = v \<rparr>], wk_producer_view := v,
        wk_producer := WP_idle, wk_pushed := wk_pushed s @ [ref] \<rparr>))" by (simp add: weak_abs_simps)
next
  assume pc: "wk_consumer s = WC_read tail ref"
  then have "(tail + 1) mod wk_capacity s = length (wk_tail s) mod wk_capacity s"
    using assms by (simp add: values_ok_def wk_T_def mod_Suc_eq)
  moreover have "spsc_step (weak_abs s) ((weak_abs s)\<lparr> th_queue := (th_queue (weak_abs s))\<lparr>fq_tail :=
      fq_increment (th_queue (weak_abs s)) tail\<rparr>, th_consumer := C_idle, th_popped := th_popped (weak_abs s) @ [ref] \<rparr>)"
    using pc by (intro pop_publish) (simp add: weak_abs_simps)
  ultimately show "spsc_step (weak_abs s)
      (weak_abs (s\<lparr> wk_tail := wk_tail s @ [\<lparr> ms_value = (tail + 1) mod wk_capacity s, ms_view = v \<rparr>],
        wk_consumer_view := v, wk_consumer := WC_idle, wk_popped := wk_popped s @ [ref] \<rparr>))" by (simp add: weak_abs_simps)
qed

lemma weak_step_simulated:
  assumes "frame_ring_step s s'" "weak_inv s"
  shows "spsc_step\<^sup>=\<^sup>= (weak_abs s) (weak_abs s')"
proof -
  note step = assms(1) [unfolded frame_ring_step_def]
  have inv': "weak_inv s'" and v: "values_ok s" using weak_inv_step [OF step assms(2)] assms(2) by (simp_all add: weak_inv_def)
  show ?thesis using step
  proof cases
    case (acquire_tail ref head k next_head)
    then show ?thesis using acquire_tail_simulated [OF assms(2) inv' acquire_tail(2,5)]
      by (cases "next_head = ms_value (wk_tail s ! k)") (simp_all add: weak_abs_simps)
  next
    case (acquire_head tail k)
    then show ?thesis using acquire_head_simulated [OF assms(2) inv' acquire_head(2)]
      by (cases "tail = ms_value (wk_head s ! k)") (simp_all add: weak_abs_simps)
  next
    case (write_slot ref head next_head v)
    then show ?thesis using write_slot_simulated [OF assms(2)] by simp
  next
    case (read_slot tail v ref)
    then show ?thesis using read_slot_simulated [OF assms(2)] by simp
  next
    case (release_head ref next_head v)
    then show ?thesis using release_simulated(1) [OF v] by simp
  next
    case (release_tail tail ref v)
    then show ?thesis using release_simulated(2) [OF v] by simp
  qed (simp_all add: weak_abs_simps)
qed

lemma weak_run_simulated:
  "frame_ring_step\<^sup>*\<^sup>* (frame_ring_new c) s \<Longrightarrow> spsc_step\<^sup>*\<^sup>* (threads_new c) (weak_abs s)"
proof (induction rule: rtranclp_induct)
  case (step s s')
  then have "spsc_step\<^sup>=\<^sup>= (weak_abs s) (weak_abs s')" using weak_step_simulated frame_ring_run by blast
  then show ?case using step by (auto intro: rtranclp.rtrancl_into_rtrancl)
qed (simp add: weak_abs_new)

section \<open>Claims about the memory orders\<close>

text \<open>
  C11. The memory orders of the queue are strong enough. In every run of one producer and one
  consumer under release and acquire semantics, where loads may return old values, no access to a
  slot races with the other thread, and the run refines a run of the ring in which all accesses
  interleave on one memory; so what was popped is, in order, the front of what was pushed, and
  at most \<open>capacity - 1\<close> items lie between.
\<close>

theorem spsc_release_acquire_safe:
  assumes "frame_ring_step\<^sup>*\<^sup>* (frame_ring_new c) s"
  shows "\<not> wk_race s \<and> spsc_step\<^sup>*\<^sup>* (threads_new c) (weak_abs s) \<and>
    wk_pushed s = wk_popped s @ fq_items (th_queue (weak_abs s)) \<and>
    length (wk_pushed s) < length (wk_popped s) + wk_capacity s"
proof -
  have run: "weak_inv s" "spsc_step\<^sup>*\<^sup>* (threads_new c) (weak_abs s)" using weak_run_simulated [OF assms] frame_ring_run [OF assms] by simp_all
  have "spsc_inv (weak_abs s)" using spsc_steps_inv [OF run(2) spsc_inv_new] .
  then have items: "wk_pushed s = wk_popped s @ fq_items (th_queue (weak_abs s))"
    by (simp add: spsc_inv_def) (simp add: weak_abs_def Let_def)
  have "length (fq_items (th_queue (weak_abs s))) < wk_capacity s"
    using run(1) by (simp add: fq_items_def weak_abs_def Let_def ring_count_less weak_inv_def order_ok_def)
  with run items arg_cong [OF items, of length] show ?thesis by (simp add: weak_inv_def)
qed

text \<open>A push, and a pop that still reads the index from before it and finds the queue empty.\<close>

definition weak_example :: "FrameRef WeakSpsc" where
  "weak_example = (let v = initial_view\<lparr>vw_writes := (vw_writes initial_view)(0 := 2), vw_head := 1\<rparr> in
     (frame_ring_new 4)\<lparr> wk_writes := (wk_writes (frame_ring_new 4))(0 := [FrameRef_default, example_ref]),
       wk_head := [initial_message, \<lparr> ms_value = 1, ms_view = v \<rparr>], wk_producer_view := v,
       wk_pushed := [example_ref] \<rparr>)"

lemma weak_example_reachable: "frame_ring_step\<^sup>*\<^sup>* (frame_ring_new 4) weak_example"
proof -
  let ?s0 = "frame_ring_new 4"
  let ?s1 = "?s0\<lparr>wk_producer := WP_loaded example_ref 0\<rparr>"
  let ?s2 = "?s1\<lparr>wk_producer := WP_checked example_ref 0 1\<rparr>"
  let ?w = "initial_view\<lparr>vw_writes := (vw_writes initial_view)(0 := 2)\<rparr>"
  let ?s3 = "?s2\<lparr>wk_writes := (wk_writes ?s2)(0 := [FrameRef_default, example_ref]), wk_producer_view := ?w,
      wk_producer := WP_written example_ref 1\<rparr>"
  let ?s5 = "weak_example\<lparr>wk_consumer := WC_loaded 0\<rparr>"
  note new = frame_ring_new_def weak_new_def initial_message_def initial_view_def view_join_def fq_kMinCapacity_def weak_example_def Let_def numeral_2_eq_2
  have "frame_ring_step ?s0 ?s1" unfolding frame_ring_step_def using load_head [where s = ?s0 and k = 0 and ref = example_ref] by (simp add: new)
  then have "frame_ring_step\<^sup>*\<^sup>* ?s0 ?s1" ..
  moreover have "frame_ring_step ?s1 ?s2" unfolding frame_ring_step_def using acquire_tail [where s = ?s1 and ref = example_ref and head = 0 and k = 0 and next_head = 1] by (simp add: new)
  ultimately have "frame_ring_step\<^sup>*\<^sup>* ?s0 ?s2" ..
  moreover have "frame_ring_step ?s2 ?s3" unfolding frame_ring_step_def using write_slot [where s = ?s2 and ref = example_ref and head = 0 and next_head = 1] by (simp add: new write_races_def)
  ultimately have "frame_ring_step\<^sup>*\<^sup>* ?s0 ?s3" ..
  moreover have "frame_ring_step ?s3 weak_example" unfolding frame_ring_step_def using release_head [where s = ?s3 and ref = example_ref and next_head = 1] by (simp add: new)
  ultimately have "frame_ring_step\<^sup>*\<^sup>* ?s0 weak_example" ..
  moreover have "frame_ring_step weak_example ?s5" unfolding frame_ring_step_def using load_tail [where s = weak_example and k = 0] by (simp add: new)
  ultimately have "frame_ring_step\<^sup>*\<^sup>* ?s0 ?s5" ..
  moreover have "frame_ring_step ?s5 weak_example" unfolding frame_ring_step_def using acquire_head [where s = ?s5 and tail = 0 and k = 0] by (simp add: new)
  ultimately show ?thesis ..
qed

theorem spsc_release_acquire_safe_witness:
  "\<not> wk_race weak_example \<and> [example_ref] = fq_items (th_queue (weak_abs weak_example))"
  using spsc_release_acquire_safe [OF weak_example_reachable] by (simp add: weak_example_def frame_ring_new_def weak_new_def Let_def)


section \<open>The rings of the shards\<close>

text \<open>
  \<open>SpscRoutedEventQueue\<close> of \<open>router/shard_dispatch.cpp\<close> follows the same protocol with the same memory orders; its pop
  moves the event out of the slot.
\<close>

definition event_ring_new :: "usize \<Rightarrow> RoutedEvent WeakSpsc" where
  "event_ring_new capacity = weak_new kMinQueueCapacity RoutedEvent_default capacity"

definition event_ring_step :: "(RoutedEvent \<Rightarrow> RoutedEvent) \<Rightarrow> RoutedEvent WeakSpsc \<Rightarrow> RoutedEvent WeakSpsc \<Rightarrow> bool" where
  "event_ring_step moved_from = weak_step moved_from"

lemma event_ring_release_acquire_safe:
  assumes "(event_ring_step moved_from)\<^sup>*\<^sup>* (event_ring_new c) s"
  shows "\<not> wk_race s \<and> wk_popped s = take (length (wk_popped s)) (wk_pushed s) \<and>
    length (wk_pushed s) < length (wk_popped s) + wk_capacity s"
proof -
  have run: "(weak_step moved_from)\<^sup>*\<^sup>* (weak_new kMinQueueCapacity RoutedEvent_default c) s" "2 \<le> kMinQueueCapacity"
    using assms by (simp_all add: event_ring_step_def event_ring_new_def kMinQueueCapacity_def)
  from weak_run_delivers(1,2,4) [OF run] show ?thesis by (intro conjI)
qed

end
