(* ===== verification/Risk_Gates.thy ===== *)
theory Risk_Gates
  imports Market_Types
begin

text \<open>
  The three pre-trade risk gates: \<open>oms/global_risk_gate.cpp\<close>, \<open>oms/portfolio_risk_gate.cpp\<close>
  and \<open>strategy/shard_risk_gate.cpp\<close>. Each evaluates an intent against a snapshot and returns
  a decision with a reject code and a message. The locale \<open>risk_gate\<close> is the contract that
  \<open>OrderManagerCore\<close> and \<open>StrategyRunner\<close> rely on; each gate interprets it.
\<close>

section \<open>Global risk gate\<close>

record GlobalRiskConfig =
  grc_max_active_orders_global :: usize
  grc_max_active_orders_per_market :: usize
  grc_max_outstanding_qty_global :: QtyLots
  grc_max_outstanding_qty_per_market :: QtyLots

record GlobalRiskSnapshot =
  grs_active_orders_global :: usize
  grs_active_orders_market :: usize
  grs_outstanding_qty_global :: QtyLots
  grs_outstanding_qty_market :: QtyLots

datatype GlobalRiskRejectCode = Gr_kNone | Gr_kActiveOrdersGlobalLimit | Gr_kActiveOrdersMarketLimit
  | Gr_kOutstandingQtyGlobalLimit | Gr_kOutstandingQtyMarketLimit

record GlobalRiskDecision =
  grd_allow :: bool
  grd_code :: GlobalRiskRejectCode
  grd_reason_message :: string

definition global_allow_decision :: GlobalRiskDecision where
  "global_allow_decision = \<lparr> grd_allow = True, grd_code = Gr_kNone, grd_reason_message = '''' \<rparr>"

definition global_reject :: "GlobalRiskRejectCode \<Rightarrow> string \<Rightarrow> GlobalRiskDecision" where
  "global_reject code msg = \<lparr> grd_allow = False, grd_code = code, grd_reason_message = msg \<rparr>"

definition clamp_non_negative :: "QtyLots \<Rightarrow> QtyLots" where
  "clamp_non_negative v = max v 0"

definition global_evaluate ::
    "GlobalRiskConfig \<Rightarrow> OrderIntent \<Rightarrow> GlobalRiskSnapshot \<Rightarrow> GlobalRiskDecision" where
  "global_evaluate cfg intent snap =
     (if oi_action intent = Act_kCancel then global_allow_decision
      else if oi_action intent \<noteq> Act_kPlace \<and> oi_action intent \<noteq> Act_kReplace
      then global_allow_decision
      else if grc_max_active_orders_global cfg > 0 \<and>
              grs_active_orders_global snap \<ge> grc_max_active_orders_global cfg
      then global_reject Gr_kActiveOrdersGlobalLimit
             ''global risk reject: max_active_orders_global exceeded''
      else if grc_max_active_orders_per_market cfg > 0 \<and>
              grs_active_orders_market snap \<ge> grc_max_active_orders_per_market cfg
      then global_reject Gr_kActiveOrdersMarketLimit
             ''global risk reject: max_active_orders_per_market exceeded''
      else let intent_qty = clamp_non_negative (oi_qty_lots intent) in
        if grc_max_outstanding_qty_global cfg > 0 \<and>
           i64_add (grs_outstanding_qty_global snap) intent_qty > grc_max_outstanding_qty_global cfg
        then global_reject Gr_kOutstandingQtyGlobalLimit
               ''global risk reject: max_outstanding_qty_global exceeded''
        else if grc_max_outstanding_qty_per_market cfg > 0 \<and>
           i64_add (grs_outstanding_qty_market snap) intent_qty > grc_max_outstanding_qty_per_market cfg
        then global_reject Gr_kOutstandingQtyMarketLimit
               ''global risk reject: max_outstanding_qty_per_market exceeded''
        else global_allow_decision)"

fun global_reject_code_name :: "GlobalRiskRejectCode \<Rightarrow> string" where
  "global_reject_code_name Gr_kNone = ''none''"
| "global_reject_code_name Gr_kActiveOrdersGlobalLimit = ''active_orders_global_limit''"
| "global_reject_code_name Gr_kActiveOrdersMarketLimit = ''active_orders_market_limit''"
| "global_reject_code_name Gr_kOutstandingQtyGlobalLimit = ''outstanding_qty_global_limit''"
| "global_reject_code_name Gr_kOutstandingQtyMarketLimit = ''outstanding_qty_market_limit''"

section \<open>Portfolio risk gate\<close>

record PortfolioRiskConfig =
  prc_max_abs_net_position_per_market :: QtyLots
  prc_max_abs_position_gross_global :: QtyLots
  prc_min_realized_pnl_ticks :: i64
  prc_enforce_realized_pnl_floor :: bool

record PortfolioRiskSnapshot =
  prs_net_position_market :: QtyLots
  prs_gross_position_global :: QtyLots
  prs_realized_pnl_ticks_total :: i64

datatype PortfolioRiskRejectCode = Pr_kNone | Pr_kInvalidIntent | Pr_kAbsNetPositionMarketLimit
  | Pr_kAbsPositionGrossGlobalLimit | Pr_kRealizedPnlFloor

record PortfolioRiskDecision =
  prd_allow :: bool
  prd_code :: PortfolioRiskRejectCode
  prd_reason_message :: string

definition portfolio_allow_decision :: PortfolioRiskDecision where
  "portfolio_allow_decision = \<lparr> prd_allow = True, prd_code = Pr_kNone, prd_reason_message = '''' \<rparr>"

definition portfolio_reject :: "PortfolioRiskRejectCode \<Rightarrow> string \<Rightarrow> PortfolioRiskDecision" where
  "portfolio_reject code msg = \<lparr> prd_allow = False, prd_code = code, prd_reason_message = msg \<rparr>"

text \<open>\<open>std::llabs\<close>; on the least value the result wraps to itself.\<close>

definition gate_abs_qty :: "QtyLots \<Rightarrow> QtyLots" where
  "gate_abs_qty v = (if v \<ge> 0 then v else i64_neg v)"

definition signed_intent_qty :: "OrderIntent \<Rightarrow> QtyLots" where
  "signed_intent_qty intent =
     (if oi_qty_lots intent \<le> 0 then 0
      else case oi_side intent of
          Side_kBuy \<Rightarrow> oi_qty_lots intent
        | Side_kBid \<Rightarrow> oi_qty_lots intent
        | Side_kSell \<Rightarrow> i64_neg (oi_qty_lots intent)
        | Side_kAsk \<Rightarrow> i64_neg (oi_qty_lots intent)
        | Side_kUnknown \<Rightarrow> 0)"

definition portfolio_evaluate ::
    "PortfolioRiskConfig \<Rightarrow> OrderIntent \<Rightarrow> PortfolioRiskSnapshot \<Rightarrow> PortfolioRiskDecision" where
  "portfolio_evaluate cfg intent snap =
     (if oi_action intent = Act_kCancel then portfolio_allow_decision
      else if oi_action intent \<noteq> Act_kPlace \<and> oi_action intent \<noteq> Act_kReplace
      then portfolio_allow_decision
      else if prc_enforce_realized_pnl_floor cfg \<and>
              prs_realized_pnl_ticks_total snap < prc_min_realized_pnl_ticks cfg
      then portfolio_reject Pr_kRealizedPnlFloor
             ''portfolio risk reject: realized_pnl_ticks_total breached floor''
      else let intent_delta = signed_intent_qty intent in
        if intent_delta = 0
        then portfolio_reject Pr_kInvalidIntent ''portfolio risk reject: side/qty is invalid''
        else let projected_market_position = i64_add (prs_net_position_market snap) intent_delta in
          if prc_max_abs_net_position_per_market cfg > 0 \<and>
             gate_abs_qty projected_market_position > prc_max_abs_net_position_per_market cfg
          then portfolio_reject Pr_kAbsNetPositionMarketLimit
                 ''portfolio risk reject: max_abs_net_position_per_market exceeded''
          else let projected_gross_global =
                     i64_add (i64_sub (prs_gross_position_global snap)
                                      (gate_abs_qty (prs_net_position_market snap)))
                             (gate_abs_qty projected_market_position) in
            if prc_max_abs_position_gross_global cfg > 0 \<and>
               projected_gross_global > prc_max_abs_position_gross_global cfg
            then portfolio_reject Pr_kAbsPositionGrossGlobalLimit
                   ''portfolio risk reject: max_abs_position_gross_global exceeded''
            else portfolio_allow_decision)"

fun portfolio_reject_code_name :: "PortfolioRiskRejectCode \<Rightarrow> string" where
  "portfolio_reject_code_name Pr_kNone = ''none''"
| "portfolio_reject_code_name Pr_kInvalidIntent = ''invalid_intent''"
| "portfolio_reject_code_name Pr_kAbsNetPositionMarketLimit = ''abs_net_position_market_limit''"
| "portfolio_reject_code_name Pr_kAbsPositionGrossGlobalLimit = ''abs_position_gross_global_limit''"
| "portfolio_reject_code_name Pr_kRealizedPnlFloor = ''realized_pnl_floor''"

section \<open>Shard risk gate\<close>

record ShardRiskConfig =
  src_max_open_orders_per_market :: usize
  src_max_working_qty_per_market :: QtyLots
  src_max_abs_net_position_per_market :: QtyLots

record ShardRiskSnapshot =
  srs_open_orders_market :: usize
  srs_working_qty_market :: QtyLots
  srs_net_position_market :: QtyLots

datatype ShardRiskRejectCode = Sr_kNone | Sr_kInvalidIntent | Sr_kOpenOrdersPerMarketLimit
  | Sr_kWorkingQtyPerMarketLimit | Sr_kAbsNetPositionPerMarketLimit

record ShardRiskDecision =
  srd_allow :: bool
  srd_code :: ShardRiskRejectCode
  srd_reason_message :: string

definition shard_allow_decision :: ShardRiskDecision where
  "shard_allow_decision = \<lparr> srd_allow = True, srd_code = Sr_kNone, srd_reason_message = '''' \<rparr>"

definition shard_reject :: "ShardRiskRejectCode \<Rightarrow> string \<Rightarrow> ShardRiskDecision" where
  "shard_reject code msg = \<lparr> srd_allow = False, srd_code = code, srd_reason_message = msg \<rparr>"

text \<open>\<open>shard_risk_gate.cpp\<close> has its own copies of the helpers of the portfolio gate.\<close>

definition shard_abs_qty :: "QtyLots \<Rightarrow> QtyLots" where
  "shard_abs_qty v = (if v \<ge> 0 then v else i64_neg v)"

definition shard_signed_intent_qty :: "OrderIntent \<Rightarrow> QtyLots" where
  "shard_signed_intent_qty intent =
     (if oi_qty_lots intent \<le> 0 then 0
      else case oi_side intent of
          Side_kBuy \<Rightarrow> oi_qty_lots intent
        | Side_kBid \<Rightarrow> oi_qty_lots intent
        | Side_kSell \<Rightarrow> i64_neg (oi_qty_lots intent)
        | Side_kAsk \<Rightarrow> i64_neg (oi_qty_lots intent)
        | Side_kUnknown \<Rightarrow> 0)"

lemma shard_helpers [simp]: "shard_abs_qty v = gate_abs_qty v" "shard_signed_intent_qty intent = signed_intent_qty intent"
  by (simp_all add: shard_abs_qty_def gate_abs_qty_def shard_signed_intent_qty_def signed_intent_qty_def)

text \<open>\<open>open_orders_market + 1\<close> is an addition on \<open>std::size_t\<close>, so it wraps at \<open>2 ^ 64\<close>.\<close>

definition shard_evaluate ::
    "ShardRiskConfig \<Rightarrow> OrderIntent \<Rightarrow> ShardRiskSnapshot \<Rightarrow> ShardRiskDecision" where
  "shard_evaluate cfg intent snap =
     (if oi_action intent = Act_kCancel then shard_allow_decision
      else if oi_action intent \<noteq> Act_kPlace \<and> oi_action intent \<noteq> Act_kReplace
      then shard_reject Sr_kInvalidIntent ''shard risk reject: action is invalid''
      else let intent_signed_qty = shard_signed_intent_qty intent in
        if intent_signed_qty = 0
        then shard_reject Sr_kInvalidIntent ''shard risk reject: side/qty is invalid''
        else if src_max_open_orders_per_market cfg > 0 \<and>
                (srs_open_orders_market snap + 1) mod 2 ^ 64 > src_max_open_orders_per_market cfg
        then shard_reject Sr_kOpenOrdersPerMarketLimit
               ''shard risk reject: max_open_orders_per_market exceeded''
        else if src_max_working_qty_per_market cfg > 0 \<and>
                i64_add (srs_working_qty_market snap) (oi_qty_lots intent)
                  > src_max_working_qty_per_market cfg
        then shard_reject Sr_kWorkingQtyPerMarketLimit
               ''shard risk reject: max_working_qty_per_market exceeded''
        else let projected_net_position = i64_add (srs_net_position_market snap) intent_signed_qty in
          if src_max_abs_net_position_per_market cfg > 0 \<and>
             shard_abs_qty projected_net_position > src_max_abs_net_position_per_market cfg
          then shard_reject Sr_kAbsNetPositionPerMarketLimit
                 ''shard risk reject: max_abs_net_position_per_market exceeded''
          else shard_allow_decision)"

fun shard_reject_code_name :: "ShardRiskRejectCode \<Rightarrow> string" where
  "shard_reject_code_name Sr_kNone = ''none''"
| "shard_reject_code_name Sr_kInvalidIntent = ''invalid_intent''"
| "shard_reject_code_name Sr_kOpenOrdersPerMarketLimit = ''open_orders_per_market_limit''"
| "shard_reject_code_name Sr_kWorkingQtyPerMarketLimit = ''working_qty_per_market_limit''"
| "shard_reject_code_name Sr_kAbsNetPositionPerMarketLimit = ''abs_net_position_per_market_limit''"

section \<open>The contract shared by the gates\<close>

text \<open>
  What the clients of a gate rely on: a cancel always passes, a rejection carries a code other
  than \<open>kNone\<close> and a message, a pass carries neither.
\<close>

locale risk_gate =
  fixes evaluate :: "'cfg \<Rightarrow> OrderIntent \<Rightarrow> 'snap \<Rightarrow> 'dec"
    and allow :: "'dec \<Rightarrow> bool"
    and code :: "'dec \<Rightarrow> 'code"
    and message :: "'dec \<Rightarrow> string"
    and none :: 'code
  assumes cancel_allowed: "oi_action i = Act_kCancel \<Longrightarrow> allow (evaluate c i s)"
    and code_none_iff: "code (evaluate c i s) = none \<longleftrightarrow> allow (evaluate c i s)"
    and message_empty_iff: "message (evaluate c i s) = '''' \<longleftrightarrow> allow (evaluate c i s)"
begin

lemma rejected_not_cancel: "\<not> allow (evaluate c i s) \<Longrightarrow> oi_action i \<noteq> Act_kCancel"
  using cancel_allowed by blast

lemma rejection_reported:
  "\<not> allow (evaluate c i s) \<Longrightarrow> code (evaluate c i s) \<noteq> none \<and> message (evaluate c i s) \<noteq> ''''"
  by (simp add: code_none_iff message_empty_iff)

text \<open>A batch filtered by a gate keeps all of its cancels, whatever the snapshots are.\<close>

lemma batch_keeps_cancels:
  "filter (\<lambda>i. oi_action i = Act_kCancel) (filter (\<lambda>i. allow (evaluate c i (snap i))) is)
   = filter (\<lambda>i. oi_action i = Act_kCancel) is"
  by (induction "is") (auto simp: cancel_allowed)

end

lemmas global_decision_defs = global_allow_decision_def global_reject_def
lemmas portfolio_decision_defs = portfolio_allow_decision_def portfolio_reject_def
lemmas shard_decision_defs = shard_allow_decision_def shard_reject_def

interpretation global_gate: risk_gate global_evaluate grd_allow grd_code grd_reason_message Gr_kNone
  by unfold_locales (simp_all add: global_evaluate_def global_decision_defs Let_def)

interpretation portfolio_gate: risk_gate portfolio_evaluate prd_allow prd_code prd_reason_message Pr_kNone
  by unfold_locales (simp_all add: portfolio_evaluate_def portfolio_decision_defs Let_def)

interpretation shard_gate: risk_gate shard_evaluate srd_allow srd_code srd_reason_message Sr_kNone
  by unfold_locales (simp_all add: shard_evaluate_def shard_decision_defs Let_def)

section \<open>What a pass guarantees\<close>

definition order_creating :: "OrderIntent \<Rightarrow> bool" where
  "order_creating i \<longleftrightarrow> oi_action i = Act_kPlace \<or> oi_action i = Act_kReplace"

lemma global_allow_iff:
  "grd_allow (global_evaluate cfg i s) \<longleftrightarrow>
     (order_creating i \<longrightarrow>
       (grc_max_active_orders_global cfg > 0 \<longrightarrow>
          grs_active_orders_global s < grc_max_active_orders_global cfg) \<and>
       (grc_max_active_orders_per_market cfg > 0 \<longrightarrow>
          grs_active_orders_market s < grc_max_active_orders_per_market cfg) \<and>
       (grc_max_outstanding_qty_global cfg > 0 \<longrightarrow>
          i64_add (grs_outstanding_qty_global s) (max (oi_qty_lots i) 0)
            \<le> grc_max_outstanding_qty_global cfg) \<and>
       (grc_max_outstanding_qty_per_market cfg > 0 \<longrightarrow>
          i64_add (grs_outstanding_qty_market s) (max (oi_qty_lots i) 0)
            \<le> grc_max_outstanding_qty_per_market cfg))"
  by (auto simp: global_evaluate_def global_decision_defs order_creating_def clamp_non_negative_def
      Let_def not_le not_less)

lemma gate_abs_eq: "in_i64 (- v) \<Longrightarrow> gate_abs_qty v = \<bar>v\<bar>"
  by (auto simp: gate_abs_qty_def i64_neg_def i64_simps)

lemma signed_intent_qty_eq:
  assumes "in_i64 (oi_qty_lots i)"
  shows "signed_intent_qty i =
    (if oi_qty_lots i \<le> 0 \<or> oi_side i = Side_kUnknown then 0
     else if oi_side i \<in> {Side_kBuy, Side_kBid} then oi_qty_lots i else - oi_qty_lots i)"
  using assms
  by (cases "oi_side i") (auto simp: signed_intent_qty_def i64_neg_def wrap_in_range in_i64_def)

lemma portfolio_allow_creating:
  assumes "order_creating i" "prd_allow (portfolio_evaluate cfg i s)"
  shows "prc_enforce_realized_pnl_floor cfg \<longrightarrow>
           prc_min_realized_pnl_ticks cfg \<le> prs_realized_pnl_ticks_total s"
    and "signed_intent_qty i \<noteq> 0"
    and "prc_max_abs_net_position_per_market cfg > 0 \<longrightarrow>
           gate_abs_qty (i64_add (prs_net_position_market s) (signed_intent_qty i))
             \<le> prc_max_abs_net_position_per_market cfg"
    and "prc_max_abs_position_gross_global cfg > 0 \<longrightarrow>
           i64_add (i64_sub (prs_gross_position_global s) (gate_abs_qty (prs_net_position_market s)))
             (gate_abs_qty (i64_add (prs_net_position_market s) (signed_intent_qty i)))
             \<le> prc_max_abs_position_gross_global cfg"
  using assms
  by (auto simp: order_creating_def portfolio_evaluate_def portfolio_decision_defs Let_def
      not_le not_less split: if_splits)

lemma shard_allow_creating:
  assumes "order_creating i" "srd_allow (shard_evaluate cfg i s)"
  shows "signed_intent_qty i \<noteq> 0"
    and "src_max_open_orders_per_market cfg > 0 \<longrightarrow>
           (srs_open_orders_market s + 1) mod 2 ^ 64 \<le> src_max_open_orders_per_market cfg"
    and "src_max_working_qty_per_market cfg > 0 \<longrightarrow>
           i64_add (srs_working_qty_market s) (oi_qty_lots i) \<le> src_max_working_qty_per_market cfg"
    and "src_max_abs_net_position_per_market cfg > 0 \<longrightarrow>
           gate_abs_qty (i64_add (srs_net_position_market s) (signed_intent_qty i))
             \<le> src_max_abs_net_position_per_market cfg"
  using assms
  by (auto simp: order_creating_def shard_evaluate_def shard_decision_defs Let_def
      not_le not_less split: if_splits)

end
