(* ===== verification/Order_Manager_Core.thy ===== *)
theory Order_Manager_Core
  imports Risk_Gates
begin

text \<open>
  \<open>oms/order_manager_core.cpp\<close>: the bookkeeping of in-flight orders. The state is the record
  \<open>OrderManagerCore\<close> with the two hash maps and the six counters; every operation takes it and
  returns the new one. An operation of the source that returns a \<open>bool\<close> and writes an
  \<open>error_message\<close> returns a value of type \<open>string + unit\<close>: \<open>Inl msg\<close> is \<open>false\<close> with the message
  written, \<open>Inr ()\<close> is \<open>true\<close>. The steady clock is an argument of the operations that read it.
\<close>

section \<open>Data\<close>

datatype InFlightStatus = If_kPending | If_kAccepted | If_kPartiallyFilled | If_kFilled
  | If_kCanceled | If_kRejected | If_kReplaced

record InFlightOrder =
  ord_request_id :: OrderRequestId
  ord_last_action :: OmsAction
  ord_status :: InFlightStatus
  ord_client_order_id :: ClientOrderId
  ord_exchange_order_id :: "ExchangeOrderId option"
  ord_replace_target_client_order_id :: "ClientOrderId option"
  ord_market_ticker :: string
  ord_side :: Side
  ord_requested_qty_lots :: QtyLots
  ord_filled_qty_lots :: QtyLots
  ord_created_ts_ns :: TimestampNs
  ord_last_update_ts_ns :: TimestampNs

record InFlightOrderSnapshot =
  ios_request_id :: OrderRequestId
  ios_last_action :: OmsAction
  ios_status :: InFlightStatus
  ios_client_order_id :: ClientOrderId
  ios_exchange_order_id :: "ExchangeOrderId option"
  ios_replace_target_client_order_id :: "ClientOrderId option"
  ios_market_ticker :: string
  ios_side :: Side
  ios_requested_qty_lots :: QtyLots
  ios_filled_qty_lots :: QtyLots
  ios_created_ts_ns :: TimestampNs
  ios_last_update_ts_ns :: TimestampNs

record OrderManagerCoreStats =
  ocs_risk_reject_count :: u64
  ocs_portfolio_risk_reject_count :: u64
  ocs_transition_applied_count :: u64
  ocs_transition_reject_count :: u64
  ocs_unknown_order_update_count :: u64
  ocs_policy_reject_count :: u64
  ocs_tracked_order_count :: usize
  ocs_active_order_count :: usize

record OrderManagerCore =
  oc_global_risk_config :: GlobalRiskConfig
  oc_portfolio_risk_config :: PortfolioRiskConfig
  oc_in_flight_orders :: "(ClientOrderId \<times> InFlightOrder) list"
  oc_exchange_to_client :: "(ExchangeOrderId \<times> ClientOrderId) list"
  oc_risk_reject_count :: u64
  oc_portfolio_risk_reject_count :: u64
  oc_transition_applied_count :: u64
  oc_transition_reject_count :: u64
  oc_unknown_order_update_count :: u64
  oc_policy_reject_count :: u64

abbreviation tracked :: "OrderManagerCore \<Rightarrow> ClientOrderId \<Rightarrow> InFlightOrder option" where
  "tracked c k \<equiv> map_of (oc_in_flight_orders c) k"

abbreviation client_of :: "OrderManagerCore \<Rightarrow> ExchangeOrderId \<Rightarrow> ClientOrderId option" where
  "client_of c e \<equiv> map_of (oc_exchange_to_client c) e"

section \<open>The order life cycle\<close>

fun is_terminal_state :: "InFlightStatus \<Rightarrow> bool" where
  "is_terminal_state If_kFilled = True"
| "is_terminal_state If_kCanceled = True"
| "is_terminal_state If_kRejected = True"
| "is_terminal_state If_kPending = False"
| "is_terminal_state If_kAccepted = False"
| "is_terminal_state If_kPartiallyFilled = False"
| "is_terminal_state If_kReplaced = False"

fun to_in_flight_status :: "OmsOrderStatus \<Rightarrow> InFlightStatus option" where
  "to_in_flight_status St_kAccepted = Some If_kAccepted"
| "to_in_flight_status St_kRejected = Some If_kRejected"
| "to_in_flight_status St_kCanceled = Some If_kCanceled"
| "to_in_flight_status St_kPartiallyFilled = Some If_kPartiallyFilled"
| "to_in_flight_status St_kFilled = Some If_kFilled"
| "to_in_flight_status St_kReplaced = Some If_kReplaced"
| "to_in_flight_status St_kUnknown = None"

definition can_transition :: "InFlightStatus \<Rightarrow> InFlightStatus \<Rightarrow> bool" where
  "can_transition current nxt =
     (if current = nxt then True
      else case current of
          If_kPending \<Rightarrow> nxt = If_kAccepted \<or> nxt = If_kPartiallyFilled \<or> nxt = If_kFilled \<or>
            nxt = If_kCanceled \<or> nxt = If_kRejected
        | If_kAccepted \<Rightarrow> nxt = If_kPartiallyFilled \<or> nxt = If_kFilled \<or> nxt = If_kCanceled \<or>
            nxt = If_kRejected \<or> nxt = If_kReplaced
        | If_kPartiallyFilled \<Rightarrow> nxt = If_kFilled \<or> nxt = If_kCanceled \<or> nxt = If_kRejected \<or>
            nxt = If_kReplaced
        | If_kReplaced \<Rightarrow> nxt = If_kAccepted \<or> nxt = If_kPartiallyFilled \<or> nxt = If_kFilled \<or>
            nxt = If_kCanceled \<or> nxt = If_kRejected
        | If_kFilled \<Rightarrow> False
        | If_kCanceled \<Rightarrow> False
        | If_kRejected \<Rightarrow> False)"

definition outstanding_qty :: "InFlightOrder \<Rightarrow> QtyLots" where
  "outstanding_qty o' =
     (if ord_requested_qty_lots o' \<le> 0 then 0
      else if ord_filled_qty_lots o' \<le> 0 then ord_requested_qty_lots o'
      else if ord_filled_qty_lots o' \<ge> ord_requested_qty_lots o' then 0
      else i64_sub (ord_requested_qty_lots o') (ord_filled_qty_lots o'))"

section \<open>Construction, reset, statistics\<close>

definition OrderManagerCore_new :: "GlobalRiskConfig \<Rightarrow> PortfolioRiskConfig \<Rightarrow> OrderManagerCore" where
  "OrderManagerCore_new g p = \<lparr> oc_global_risk_config = g, oc_portfolio_risk_config = p,
     oc_in_flight_orders = [], oc_exchange_to_client = [], oc_risk_reject_count = 0,
     oc_portfolio_risk_reject_count = 0, oc_transition_applied_count = 0,
     oc_transition_reject_count = 0, oc_unknown_order_update_count = 0,
     oc_policy_reject_count = 0 \<rparr>"

definition core_reset :: "OrderManagerCore \<Rightarrow> OrderManagerCore" where
  "core_reset c = c\<lparr> oc_in_flight_orders := [], oc_exchange_to_client := [],
     oc_risk_reject_count := 0, oc_portfolio_risk_reject_count := 0,
     oc_transition_applied_count := 0, oc_transition_reject_count := 0,
     oc_unknown_order_update_count := 0, oc_policy_reject_count := 0 \<rparr>"

definition core_stats :: "OrderManagerCore \<Rightarrow> OrderManagerCoreStats" where
  "core_stats c =
     (let active_count = fold (\<lambda>(client_order_id, ord) n.
            if \<not> is_terminal_state (ord_status ord) then n + 1 else n) (oc_in_flight_orders c) 0
      in \<lparr> ocs_risk_reject_count = oc_risk_reject_count c,
           ocs_portfolio_risk_reject_count = oc_portfolio_risk_reject_count c,
           ocs_transition_applied_count = oc_transition_applied_count c,
           ocs_transition_reject_count = oc_transition_reject_count c,
           ocs_unknown_order_update_count = oc_unknown_order_update_count c,
           ocs_policy_reject_count = oc_policy_reject_count c,
           ocs_tracked_order_count = length (oc_in_flight_orders c),
           ocs_active_order_count = active_count \<rparr>)"

definition in_flight_order :: "OrderManagerCore \<Rightarrow> string \<Rightarrow> InFlightOrderSnapshot option" where
  "in_flight_order c client_order_id =
     (case tracked c client_order_id of
        None \<Rightarrow> None
      | Some ord \<Rightarrow> Some \<lparr> ios_request_id = ord_request_id ord,
          ios_last_action = ord_last_action ord,
          ios_status = ord_status ord,
          ios_client_order_id = ord_client_order_id ord,
          ios_exchange_order_id = ord_exchange_order_id ord,
          ios_replace_target_client_order_id = ord_replace_target_client_order_id ord,
          ios_market_ticker = ord_market_ticker ord,
          ios_side = ord_side ord,
          ios_requested_qty_lots = ord_requested_qty_lots ord,
          ios_filled_qty_lots = ord_filled_qty_lots ord,
          ios_created_ts_ns = ord_created_ts_ns ord,
          ios_last_update_ts_ns = ord_last_update_ts_ns ord \<rparr>)"

section \<open>Submission policy\<close>

definition policy_reject :: "OrderManagerCore \<Rightarrow> string \<Rightarrow> OrderManagerCore \<times> (string + unit)" where
  "policy_reject c msg = (c\<lparr>oc_policy_reject_count := oc_policy_reject_count c + 1\<rparr>, Inl msg)"

definition track :: "OrderManagerCore \<Rightarrow> InFlightOrder \<Rightarrow> OrderManagerCore" where
  "track c ord = c\<lparr>oc_in_flight_orders :=
     AList.update (ord_client_order_id ord) ord (oc_in_flight_orders c)\<rparr>"

text \<open>The part of the policy that finds the order a cancel or a replace refers to.\<close>

definition resolve_target :: "OrderManagerCore \<Rightarrow> OrderIntent \<Rightarrow> string + ClientOrderId" where
  "resolve_target c intent =
     (let target_by_client_id =
            (case oi_target_client_order_id intent of
               Some t \<Rightarrow> Some t
             | None \<Rightarrow> if oi_action intent = Act_kCancel then Some (oi_client_order_id intent) else None);
          target_by_exchange_id =
            (case oi_target_exchange_order_id intent of
               None \<Rightarrow> Inr None
             | Some e \<Rightarrow> (case client_of c e of
                   None \<Rightarrow> Inl ''OMS target_exchange_order_id is unknown''
                 | Some k \<Rightarrow> Inr (Some k)))
      in case target_by_exchange_id of
           Inl msg \<Rightarrow> Inl msg
         | Inr by_exchange \<Rightarrow>
             if target_by_client_id \<noteq> None \<and> by_exchange \<noteq> None \<and> target_by_client_id \<noteq> by_exchange
             then Inl ''OMS target ids resolve to different orders''
             else case target_by_client_id of
                 Some k \<Rightarrow> Inr k
               | None \<Rightarrow> (case by_exchange of
                     Some k \<Rightarrow> Inr k
                   | None \<Rightarrow> Inl ''OMS intent is missing a resolvable target order''))"

definition place_order :: "OrderRequestId \<Rightarrow> OrderIntent \<Rightarrow> InFlightOrder" where
  "place_order request_id intent = \<lparr> ord_request_id = request_id,
     ord_last_action = oi_action intent, ord_status = If_kPending,
     ord_client_order_id = oi_client_order_id intent, ord_exchange_order_id = None,
     ord_replace_target_client_order_id = None, ord_market_ticker = oi_market_ticker intent,
     ord_side = oi_side intent, ord_requested_qty_lots = oi_qty_lots intent,
     ord_filled_qty_lots = 0, ord_created_ts_ns = oi_intent_ts_ns intent,
     ord_last_update_ts_ns = 0 \<rparr>"

definition replace_order ::
    "OrderRequestId \<Rightarrow> OrderIntent \<Rightarrow> ClientOrderId \<Rightarrow> InFlightOrder \<Rightarrow> InFlightOrder" where
  "replace_order request_id intent resolved_target_id target = \<lparr> ord_request_id = request_id,
     ord_last_action = oi_action intent, ord_status = If_kPending,
     ord_client_order_id = oi_client_order_id intent, ord_exchange_order_id = None,
     ord_replace_target_client_order_id = Some resolved_target_id,
     ord_market_ticker = (if oi_market_ticker intent \<noteq> '''' then oi_market_ticker intent
                          else ord_market_ticker target),
     ord_side = (if oi_side intent \<noteq> Side_kUnknown then oi_side intent else ord_side target),
     ord_requested_qty_lots = (if oi_qty_lots intent > 0 then oi_qty_lots intent
                               else ord_requested_qty_lots target),
     ord_filled_qty_lots = 0, ord_created_ts_ns = oi_intent_ts_ns intent,
     ord_last_update_ts_ns = 0 \<rparr>"

definition validate_and_track_submission ::
    "OrderManagerCore \<Rightarrow> OrderRequestId \<Rightarrow> OrderIntent \<Rightarrow> OrderManagerCore \<times> (string + unit)" where
  "validate_and_track_submission c request_id intent =
     (if oi_client_order_id intent = ''''
      then policy_reject c ''Order intent must include client_order_id''
      else if oi_action intent = Act_kPlace then
        (if tracked c (oi_client_order_id intent) \<noteq> None
         then policy_reject c ''Order intent reuses an existing client_order_id''
         else (track c (place_order request_id intent), Inr ()))
      else if oi_action intent \<noteq> Act_kCancel \<and> oi_action intent \<noteq> Act_kReplace
      then policy_reject c ''Unsupported OMS action for policy validation''
      else case resolve_target c intent of
          Inl msg \<Rightarrow> policy_reject c msg
        | Inr resolved_target_id \<Rightarrow>
          (case tracked c resolved_target_id of
             None \<Rightarrow> policy_reject c ''OMS target order is not tracked''
           | Some target \<Rightarrow>
             if is_terminal_state (ord_status target)
             then policy_reject c ''OMS target order is terminal''
             else if oi_action intent = Act_kReplace then
               (if resolved_target_id = oi_client_order_id intent
                then policy_reject c ''OMS replace requires a new client_order_id''
                else if tracked c (oi_client_order_id intent) \<noteq> None
                then policy_reject c ''OMS replace client_order_id already exists''
                else if oi_market_ticker intent \<noteq> '''' \<and> ord_market_ticker target \<noteq> '''' \<and>
                        oi_market_ticker intent \<noteq> ord_market_ticker target
                then policy_reject c ''OMS replace target market mismatch''
                else (track c (replace_order request_id intent resolved_target_id target), Inr ()))
             else (c, Inr ())))"

section \<open>Risk evaluation\<close>

definition risk_snapshot_step ::
    "string \<Rightarrow> string \<Rightarrow> ClientOrderId \<times> InFlightOrder \<Rightarrow> GlobalRiskSnapshot \<Rightarrow> GlobalRiskSnapshot" where
  "risk_snapshot_step market_ticker skip_client_order_id entry snap =
     (let client_order_id = fst entry; ord = snd entry in
      if skip_client_order_id \<noteq> '''' \<and> client_order_id = skip_client_order_id then snap
      else if is_terminal_state (ord_status ord) then snap
      else let snap = snap\<lparr> grs_active_orders_global := grs_active_orders_global snap + 1,
                 grs_outstanding_qty_global :=
                   i64_add (grs_outstanding_qty_global snap) (outstanding_qty ord) \<rparr> in
        if market_ticker \<noteq> '''' \<and> ord_market_ticker ord = market_ticker
        then snap\<lparr> grs_active_orders_market := grs_active_orders_market snap + 1,
               grs_outstanding_qty_market :=
                 i64_add (grs_outstanding_qty_market snap) (outstanding_qty ord) \<rparr>
        else snap)"

definition build_risk_snapshot :: "OrderManagerCore \<Rightarrow> string \<Rightarrow> string \<Rightarrow> GlobalRiskSnapshot" where
  "build_risk_snapshot c market_ticker skip_client_order_id =
     fold (risk_snapshot_step market_ticker skip_client_order_id) (oc_in_flight_orders c)
       \<lparr> grs_active_orders_global = 0, grs_active_orders_market = 0,
         grs_outstanding_qty_global = 0, grs_outstanding_qty_market = 0 \<rparr>"

definition evaluate_global_risk ::
    "OrderManagerCore \<Rightarrow> OrderIntent \<Rightarrow> OrderManagerCore \<times> GlobalRiskDecision option" where
  "evaluate_global_risk c intent =
     (let snapshot = build_risk_snapshot c (oi_market_ticker intent) (oi_client_order_id intent);
          decision = global_evaluate (oc_global_risk_config c) intent snapshot
      in if grd_allow decision then (c, None)
         else (c\<lparr>oc_risk_reject_count := oc_risk_reject_count c + 1\<rparr>, Some decision))"

definition evaluate_portfolio_risk ::
    "OrderManagerCore \<Rightarrow> OrderIntent \<Rightarrow> PortfolioRiskSnapshot
      \<Rightarrow> OrderManagerCore \<times> PortfolioRiskDecision option" where
  "evaluate_portfolio_risk c intent snapshot =
     (let decision = portfolio_evaluate (oc_portfolio_risk_config c) intent snapshot
      in if prd_allow decision then (c, None)
         else (c\<lparr>oc_portfolio_risk_reject_count := oc_portfolio_risk_reject_count c + 1\<rparr>,
               Some decision))"

definition make_global_risk_reject_update ::
    "TimestampNs \<Rightarrow> OrderIntent \<Rightarrow> GlobalRiskDecision \<Rightarrow> OrderStateUpdate" where
  "make_global_risk_reject_update now intent decision = \<lparr> ou_exchange = oi_exchange intent,
     ou_status = St_kRejected, ou_client_order_id = oi_client_order_id intent,
     ou_exchange_order_id = None, ou_market_ticker = oi_market_ticker intent,
     ou_recv_ts_ns = now,
     ou_data = Upd_Reject \<lparr> or_client_order_id = oi_client_order_id intent,
       or_exchange_order_id = None,
       or_reason_code = global_reject_code_name (grd_code decision),
       or_reason_message = grd_reason_message decision \<rparr>,
     ou_raw_payload = '''' \<rparr>"

definition make_portfolio_risk_reject_update ::
    "TimestampNs \<Rightarrow> OrderIntent \<Rightarrow> PortfolioRiskDecision \<Rightarrow> OrderStateUpdate" where
  "make_portfolio_risk_reject_update now intent decision = \<lparr> ou_exchange = oi_exchange intent,
     ou_status = St_kRejected, ou_client_order_id = oi_client_order_id intent,
     ou_exchange_order_id = None, ou_market_ticker = oi_market_ticker intent,
     ou_recv_ts_ns = now,
     ou_data = Upd_Reject \<lparr> or_client_order_id = oi_client_order_id intent,
       or_exchange_order_id = None,
       or_reason_code = portfolio_reject_code_name (prd_code decision),
       or_reason_message = prd_reason_message decision \<rparr>,
     ou_raw_payload = '''' \<rparr>"

section \<open>Applying an update\<close>

text \<open>
  \<open>find_order\<close> is the lookup by client id and then by exchange id; \<open>transition_order\<close> is the
  sequence of writes through the reference \<open>order\<close> and to the update's fill payload
  (\<open>touch_order\<close> for every update, \<open>enrich_fill\<close> and \<open>book_fill\<close> for a fill);
  \<open>now\<close> is what the steady clock would return.
\<close>

definition find_order :: "OrderManagerCore \<Rightarrow> OrderStateUpdate \<Rightarrow> (ClientOrderId \<times> InFlightOrder) option" where
  "find_order c u =
     (case tracked c (ou_client_order_id u) of
        Some ord \<Rightarrow> Some (ou_client_order_id u, ord)
      | None \<Rightarrow> (case ou_exchange_order_id u of
            None \<Rightarrow> None
          | Some e \<Rightarrow> (case client_of c e of
                None \<Rightarrow> None
              | Some k \<Rightarrow> map_option (\<lambda>ord. (k, ord)) (tracked c k))))"

definition touch_order ::
    "TimestampNs \<Rightarrow> InFlightStatus \<Rightarrow> InFlightOrder \<Rightarrow> OrderStateUpdate \<Rightarrow> InFlightOrder" where
  "touch_order now next_status ord u = ord\<lparr> ord_status := next_status,
     ord_last_update_ts_ns := (if ou_recv_ts_ns u \<noteq> 0 then ou_recv_ts_ns u else now),
     ord_market_ticker := (if ou_market_ticker u \<noteq> '''' then ou_market_ticker u
                           else ord_market_ticker ord),
     ord_exchange_order_id := (case ou_exchange_order_id u of
         Some e \<Rightarrow> if e \<noteq> '''' then Some e else ord_exchange_order_id ord
       | None \<Rightarrow> ord_exchange_order_id ord) \<rparr>"

definition enrich_fill :: "InFlightOrder \<Rightarrow> OrderFill \<Rightarrow> OrderFill" where
  "enrich_fill ord fill = fill\<lparr> of_side :=
     (if of_side fill = Side_kUnknown \<and> ord_side ord \<noteq> Side_kUnknown then ord_side ord
      else of_side fill) \<rparr>"

definition book_fill :: "InFlightStatus \<Rightarrow> InFlightOrder \<Rightarrow> OrderFill \<Rightarrow> InFlightOrder" where
  "book_fill next_status ord fill = ord\<lparr>
     ord_side := (if ord_side ord = Side_kUnknown \<and> of_side fill \<noteq> Side_kUnknown then of_side fill
                  else ord_side ord),
     ord_filled_qty_lots :=
       (if next_status = If_kFilled \<and> ord_requested_qty_lots ord > 0 then ord_requested_qty_lots ord
        else if of_fill_qty_lots fill > ord_filled_qty_lots ord then of_fill_qty_lots fill
        else ord_filled_qty_lots ord) \<rparr>"

definition transition_order ::
    "TimestampNs \<Rightarrow> InFlightStatus \<Rightarrow> InFlightOrder \<Rightarrow> OrderStateUpdate
      \<Rightarrow> InFlightOrder \<times> OrderStateUpdate" where
  "transition_order now next_status ord u =
     (let ord = touch_order now next_status ord u in
      case ou_data u of
        Upd_Fill fill \<Rightarrow>
          (let fill = enrich_fill ord fill
           in (book_fill next_status ord fill, u\<lparr>ou_data := Upd_Fill fill\<rparr>))
      | _ \<Rightarrow> (ord, u))"

definition apply_update_transition ::
    "TimestampNs \<Rightarrow> OrderManagerCore \<Rightarrow> OrderStateUpdate
      \<Rightarrow> OrderManagerCore \<times> OrderStateUpdate \<times> (string + unit)" where
  "apply_update_transition now c u =
     (case to_in_flight_status (ou_status u) of
        None \<Rightarrow> (c\<lparr>oc_transition_reject_count := oc_transition_reject_count c + 1\<rparr>, u,
                 Inl ''Unsupported OMS transition status'')
      | Some next_status \<Rightarrow>
        (case find_order c u of
           None \<Rightarrow> (c\<lparr>oc_unknown_order_update_count := oc_unknown_order_update_count c + 1\<rparr>, u,
                    Inl ''Order update does not match an in-flight order'')
         | Some (k, ord) \<Rightarrow>
           if \<not> can_transition (ord_status ord) next_status
           then (c\<lparr>oc_transition_reject_count := oc_transition_reject_count c + 1\<rparr>, u,
                 Inl ''Rejected OMS transition for in-flight order'')
           else let (ord', u') = transition_order now next_status ord u;
                    exchange_to_client =
                      (case ou_exchange_order_id u of
                         Some e \<Rightarrow> if e \<noteq> '''' then AList.update e (ord_client_order_id ord)
                                                      (oc_exchange_to_client c)
                                  else oc_exchange_to_client c
                       | None \<Rightarrow> oc_exchange_to_client c)
                in (c\<lparr> oc_in_flight_orders := AList.update k ord' (oc_in_flight_orders c),
                       oc_exchange_to_client := exchange_to_client,
                       oc_transition_applied_count := oc_transition_applied_count c + 1 \<rparr>,
                    u', Inr ())))"

section \<open>Facts about the life cycle\<close>

text \<open>
  The statuses can be enumerated, so that a statement about all pairs of them is decided by
  evaluation.
\<close>

instantiation InFlightStatus :: enum
begin

definition enum_InFlightStatus :: "InFlightStatus list" where
  "enum_InFlightStatus = [If_kPending, If_kAccepted, If_kPartiallyFilled, If_kFilled, If_kCanceled, If_kRejected, If_kReplaced]"

definition enum_all_InFlightStatus :: "(InFlightStatus \<Rightarrow> bool) \<Rightarrow> bool" where
  "enum_all_InFlightStatus P \<longleftrightarrow> list_all P enum_class.enum"

definition enum_ex_InFlightStatus :: "(InFlightStatus \<Rightarrow> bool) \<Rightarrow> bool" where
  "enum_ex_InFlightStatus P \<longleftrightarrow> list_ex P enum_class.enum"

instance
proof
  show u: "UNIV = set (enum_class.enum :: InFlightStatus list)"
    by (auto simp: enum_InFlightStatus_def intro: InFlightStatus.exhaust)
  show "distinct (enum_class.enum :: InFlightStatus list)" by (simp add: enum_InFlightStatus_def)
  show "enum_class.enum_all P \<longleftrightarrow> Ball UNIV P" for P :: "InFlightStatus \<Rightarrow> bool"
    by (simp add: enum_all_InFlightStatus_def list_all_iff u [symmetric])
  show "enum_class.enum_ex P \<longleftrightarrow> Bex UNIV P" for P :: "InFlightStatus \<Rightarrow> bool"
    by (simp add: enum_ex_InFlightStatus_def list_ex_iff u [symmetric])
qed

end

text \<open>Final statuses have no way out, and no transition leads back to pending.\<close>

lemma transition_graph: "\<forall>s t. can_transition s t \<longrightarrow> s = t \<or> \<not> is_terminal_state s \<and> t \<noteq> If_kPending"
  by code_simp

lemma can_transition_refl [simp]: "can_transition s s"
  by (simp add: can_transition_def)

lemma terminal_final: "is_terminal_state s \<Longrightarrow> can_transition s t \<longleftrightarrow> t = s"
  using transition_graph by auto

lemma pending_initial_only: "can_transition s If_kPending \<Longrightarrow> s = If_kPending"
  using transition_graph by blast

lemma outstanding_qty_bounds:
  assumes "in_i64 (ord_requested_qty_lots ord)"
  shows "0 \<le> outstanding_qty ord" and "outstanding_qty ord \<le> max 0 (ord_requested_qty_lots ord)"
  using assms by (auto simp: outstanding_qty_def i64_sub_def wrap_in_range in_i64_def)

text \<open>What the writes through the reference \<open>order\<close> can and cannot touch.\<close>

lemmas transition_defs = transition_order_def touch_order_def enrich_fill_def book_fill_def Let_def

lemma transition_order_status [simp]:
  "ord_status (fst (transition_order now s ord u)) = s"
  by (cases "ou_data u") (simp_all add: transition_defs)

lemma transition_order_frame [simp]:
  "ord_request_id (fst (transition_order now s ord u)) = ord_request_id ord"
  "ord_last_action (fst (transition_order now s ord u)) = ord_last_action ord"
  "ord_client_order_id (fst (transition_order now s ord u)) = ord_client_order_id ord"
  "ord_replace_target_client_order_id (fst (transition_order now s ord u))
     = ord_replace_target_client_order_id ord"
  "ord_requested_qty_lots (fst (transition_order now s ord u)) = ord_requested_qty_lots ord"
  "ord_created_ts_ns (fst (transition_order now s ord u)) = ord_created_ts_ns ord"
  by (cases "ou_data u"; simp add: transition_defs)+

lemma transition_order_exchange:
  "ord_exchange_order_id (fst (transition_order now s ord u)) =
     (case ou_exchange_order_id u of
        Some e \<Rightarrow> if e \<noteq> '''' then Some e else ord_exchange_order_id ord
      | None \<Rightarrow> ord_exchange_order_id ord)"
  by (cases "ou_data u") (simp_all add: transition_defs)

lemma transition_order_filled:
  assumes "ou_data u = Upd_Fill f" "s = If_kFilled"
  shows "outstanding_qty (fst (transition_order now s ord u)) = 0"
  using assms by (simp add: transition_defs outstanding_qty_def)

text \<open>
  The update that is forwarded differs from the one received in the side of a fill only, and
  that side is known whenever the order or the fill had one.
\<close>

definition enriched_data :: "InFlightOrder \<Rightarrow> OmsUpdateData \<Rightarrow> OmsUpdateData" where
  "enriched_data ord d = (case d of
       Upd_Fill f \<Rightarrow> Upd_Fill (f\<lparr>of_side := (if of_side f = Side_kUnknown then ord_side ord else of_side f)\<rparr>)
     | _ \<Rightarrow> d)"

lemma transition_order_forwarded:
  "snd (transition_order now s ord u) = u\<lparr>ou_data := enriched_data ord (ou_data u)\<rparr>"
  by (cases "ou_data u") (simp_all add: transition_defs enriched_data_def)

section \<open>Outcomes of the operations\<close>

text \<open>
  The three ways an update can end, with what it leaves unchanged: the elimination rule that the
  proofs about \<open>apply_update_transition\<close> use instead of unfolding it.
\<close>

lemma apply_updateE:
  assumes "apply_update_transition now c u = (c', u', r)"
  obtains (rejected) msg where "r = Inl msg" "u' = u"
      "oc_in_flight_orders c' = oc_in_flight_orders c"
      "oc_exchange_to_client c' = oc_exchange_to_client c"
      "oc_transition_applied_count c' = oc_transition_applied_count c"
      "oc_global_risk_config c' = oc_global_risk_config c"
      "oc_portfolio_risk_config c' = oc_portfolio_risk_config c"
    | (applied) k ord nxt where "r = Inr ()" "find_order c u = Some (k, ord)"
      "to_in_flight_status (ou_status u) = Some nxt" "can_transition (ord_status ord) nxt"
      "u' = snd (transition_order now nxt ord u)"
      "oc_in_flight_orders c'
         = AList.update k (fst (transition_order now nxt ord u)) (oc_in_flight_orders c)"
      "oc_exchange_to_client c' = (case ou_exchange_order_id u of
           Some e \<Rightarrow> if e \<noteq> '''' then AList.update e (ord_client_order_id ord) (oc_exchange_to_client c)
                    else oc_exchange_to_client c
         | None \<Rightarrow> oc_exchange_to_client c)"
      "oc_transition_applied_count c' = oc_transition_applied_count c + 1"
      "oc_global_risk_config c' = oc_global_risk_config c"
      "oc_portfolio_risk_config c' = oc_portfolio_risk_config c"
proof (cases "to_in_flight_status (ou_status u)")
  case None
  with assms show ?thesis by (intro rejected) (auto simp: apply_update_transition_def)
next
  case nxt: (Some nxt)
  show ?thesis
  proof (cases "find_order c u")
    case None
    with nxt assms show ?thesis by (intro rejected) (auto simp: apply_update_transition_def)
  next
    case (Some p)
    obtain k ord where p: "p = (k, ord)" by (cases p)
    show ?thesis
    proof (cases "can_transition (ord_status ord) nxt")
      case False
      with nxt Some p assms show ?thesis
        by (intro rejected) (auto simp: apply_update_transition_def)
    next
      case True
      show ?thesis
        by (rule applied [of k ord nxt])
          (use nxt Some p True assms in
            \<open>auto simp: apply_update_transition_def Let_def split: prod.splits\<close>)
    qed
  qed
qed

lemma find_order_tracked: "find_order c u = Some (k, ord) \<Longrightarrow> tracked c k = Some ord"
  by (auto simp: find_order_def split: option.splits)

lemma validate_trackE:
  assumes "validate_and_track_submission c rid i = (c', r)"
  obtains (rejected) msg where "r = Inl msg"
      "c' = c\<lparr>oc_policy_reject_count := oc_policy_reject_count c + 1\<rparr>"
    | (placed) "r = Inr ()" "oi_action i = Act_kPlace" "oi_client_order_id i \<noteq> ''''"
      "tracked c (oi_client_order_id i) = None" "c' = track c (place_order rid i)"
    | (replaced) t target where "r = Inr ()" "oi_action i = Act_kReplace"
      "oi_client_order_id i \<noteq> ''''" "tracked c (oi_client_order_id i) = None"
      "resolve_target c i = Inr t" "tracked c t = Some target"
      "\<not> is_terminal_state (ord_status target)" "t \<noteq> oi_client_order_id i"
      "c' = track c (replace_order rid i t target)"
    | (canceled) t target where "r = Inr ()" "oi_action i = Act_kCancel"
      "resolve_target c i = Inr t" "tracked c t = Some target"
      "\<not> is_terminal_state (ord_status target)" "c' = c"
proof (cases "oi_client_order_id i = ''''")
  case True
  with assms show ?thesis
    by (intro rejected) (auto simp: validate_and_track_submission_def policy_reject_def)
next
  case id: False
  show ?thesis
  proof (cases "oi_action i = Act_kPlace")
    case True
    with id assms show ?thesis
      by (cases "tracked c (oi_client_order_id i)")
        (auto simp: validate_and_track_submission_def policy_reject_def intro: rejected placed)
  next
    case np: False
    show ?thesis
    proof (cases "resolve_target c i")
      case (Inl m)
      with id np assms show ?thesis
        by (auto simp: validate_and_track_submission_def policy_reject_def
            intro: rejected split: if_splits)
    next
      case t: (Inr t)
      show ?thesis
      proof (cases "tracked c t")
        case None
        with t id np assms show ?thesis
          by (auto simp: validate_and_track_submission_def policy_reject_def
              intro: rejected split: if_splits)
      next
        case (Some target)
        with t id np assms show ?thesis
          by (auto simp: validate_and_track_submission_def policy_reject_def
              intro: rejected replaced canceled split: if_splits)
      qed
    qed
  qed
qed

section \<open>The invariant of the two maps\<close>

text \<open>
  Keys are unique, an order is stored under its own non-empty client id, an exchange id that an
  order carries is indexed, every indexed exchange id leads to a tracked order, and the target of
  a replace is a tracked order other than the replacement.
\<close>

definition order_ok :: "OrderManagerCore \<Rightarrow> ClientOrderId \<Rightarrow> InFlightOrder \<Rightarrow> bool" where
  "order_ok c k ord \<longleftrightarrow> k \<noteq> '''' \<and> ord_client_order_id ord = k \<and>
     (\<forall>e. ord_exchange_order_id ord = Some e \<longrightarrow> e \<noteq> '''' \<and> client_of c e \<noteq> None) \<and>
     (\<forall>t. ord_replace_target_client_order_id ord = Some t \<longrightarrow> t \<noteq> k \<and> tracked c t \<noteq> None)"

definition core_inv :: "OrderManagerCore \<Rightarrow> bool" where
  "core_inv c \<longleftrightarrow> distinct (map fst (oc_in_flight_orders c)) \<and>
     distinct (map fst (oc_exchange_to_client c)) \<and>
     (\<forall>k ord. tracked c k = Some ord \<longrightarrow> order_ok c k ord) \<and>
     (\<forall>e k. client_of c e = Some k \<longrightarrow> e \<noteq> '''' \<and> tracked c k \<noteq> None)"

lemma core_invD:
  assumes "core_inv c"
  shows "distinct (map fst (oc_in_flight_orders c))"
    and "distinct (map fst (oc_exchange_to_client c))"
    and "tracked c k = Some ord \<Longrightarrow> order_ok c k ord"
    and "client_of c e = Some k \<Longrightarrow> e \<noteq> '''' \<and> tracked c k \<noteq> None"
  using assms by (auto simp: core_inv_def)

lemma core_inv_maps:
  "oc_in_flight_orders c' = oc_in_flight_orders c \<Longrightarrow>
   oc_exchange_to_client c' = oc_exchange_to_client c \<Longrightarrow> core_inv c' \<longleftrightarrow> core_inv c"
  by (simp add: core_inv_def order_ok_def)

lemma core_inv_new [simp]: "core_inv (OrderManagerCore_new g p)"
  by (simp add: core_inv_def OrderManagerCore_new_def)

lemma core_inv_reset [simp]: "core_inv (core_reset c)"
  by (simp add: core_inv_def core_reset_def)

lemma tracked_track [simp]:
  "tracked (track c ord) k = (if k = ord_client_order_id ord then Some ord else tracked c k)"
  "oc_exchange_to_client (track c ord) = oc_exchange_to_client c"
  by (simp_all add: track_def)

lemma new_order_fields [simp]:
  "ord_client_order_id (place_order rid i) = oi_client_order_id i"
  "ord_exchange_order_id (place_order rid i) = None"
  "ord_replace_target_client_order_id (place_order rid i) = None"
  "ord_status (place_order rid i) = If_kPending"
  "ord_client_order_id (replace_order rid i t target) = oi_client_order_id i"
  "ord_exchange_order_id (replace_order rid i t target) = None"
  "ord_replace_target_client_order_id (replace_order rid i t target) = Some t"
  "ord_status (replace_order rid i t target) = If_kPending"
  by (simp_all add: place_order_def replace_order_def)

lemma core_inv_track:
  assumes inv: "core_inv c" and new: "ord_client_order_id ord \<noteq> ''''"
    "tracked c (ord_client_order_id ord) = None" "ord_exchange_order_id ord = None"
    "\<forall>t. ord_replace_target_client_order_id ord = Some t \<longrightarrow>
       t \<noteq> ord_client_order_id ord \<and> tracked c t \<noteq> None"
  shows "core_inv (track c ord)"
proof -
  have "order_ok (track c ord) k o'" if "tracked (track c ord) k = Some o'" for k o'
  proof (cases "k = ord_client_order_id ord")
    case True
    with that new show ?thesis by (auto simp: order_ok_def)
  next
    case False
    with that have "tracked c k = Some o'" by simp
    with inv have "order_ok c k o'" by (rule core_invD)
    then show ?thesis by (auto simp: order_ok_def)
  qed
  moreover have "distinct (map fst (oc_in_flight_orders (track c ord)))"
    using core_invD(1) [OF inv] by (simp add: track_def distinct_upd)
  moreover have "e \<noteq> '''' \<and> tracked (track c ord) k \<noteq> None" if "client_of (track c ord) e = Some k" for e k
    using that core_invD(4) [OF inv] by auto
  ultimately show ?thesis
    using core_invD(2) [OF inv] by (auto simp: core_inv_def)
qed

lemma validate_preserves_inv:
  assumes "core_inv c" "validate_and_track_submission c rid i = (c', r)"
  shows "core_inv c'"
  using assms(2)
proof (cases rule: validate_trackE)
  case rejected
  with assms(1) show ?thesis using core_inv_maps [of c' c] by simp
next
  case placed
  with assms(1) show ?thesis by (simp add: core_inv_track)
next
  case replaced
  with assms(1) show ?thesis by (simp add: core_inv_track)
next
  case canceled
  with assms(1) show ?thesis by simp
qed

lemma update_preserves_inv:
  assumes inv: "core_inv c" and upd: "apply_update_transition now c u = (c', u', r)"
  shows "core_inv c'"
  using upd
proof (cases rule: apply_updateE)
  case rejected
  with inv show ?thesis using core_inv_maps [of c' c] by simp
next
  case (applied k ord nxt)
  have k: "tracked c k = Some ord" using applied(2) by (rule find_order_tracked)
  have ok: "order_ok c k ord" using inv k by (rule core_invD)
  let ?o = "fst (transition_order now nxt ord u)"
  have tr: "tracked c' k' = (if k' = k then Some ?o else tracked c k')" for k'
    by (simp add: applied(6))
  have cl: "client_of c' e = (if ou_exchange_order_id u = Some e \<and> e \<noteq> '''' then Some k else client_of c e)"
    for e using ok by (simp add: applied(7) order_ok_def split: option.split)
  have "order_ok c' k' o'" if "tracked c' k' = Some o'" for k' o'
  proof (cases "k' = k")
    case True
    with that ok show ?thesis
      by (auto simp: tr cl order_ok_def transition_order_exchange split: option.splits if_splits)
  next
    case False
    with that have "order_ok c k' o'" using core_invD(3) [OF inv] by (simp add: tr)
    then show ?thesis by (auto simp: order_ok_def tr cl)
  qed
  moreover have "e \<noteq> '''' \<and> tracked c' k' \<noteq> None" if "client_of c' e = Some k'" for e k'
    using that core_invD(4) [OF inv] by (auto simp: cl tr split: if_splits)
  moreover have "distinct (map fst (oc_exchange_to_client c'))"
    using core_invD(2) [OF inv] by (auto simp: applied(7) distinct_upd split: option.split)
  ultimately show ?thesis
    using core_invD(1) [OF inv] by (auto simp: core_inv_def applied(6) distinct_upd)
qed

section \<open>The operations as a step relation\<close>

text \<open>
  One rule per operation that \<open>OrderManager\<close> calls under its core mutex between two resets: the
  sequences of steps are the interleavings of submitting threads and the worker.
\<close>

inductive core_step :: "OrderManagerCore \<Rightarrow> OrderManagerCore \<Rightarrow> bool" where
  step_submit: "validate_and_track_submission c rid i = (c', r) \<Longrightarrow> core_step c c'"
| step_global: "evaluate_global_risk c i = (c', d) \<Longrightarrow> core_step c c'"
| step_portfolio: "evaluate_portfolio_risk c i snap = (c', d) \<Longrightarrow> core_step c c'"
| step_update: "apply_update_transition now c u = (c', u', r) \<Longrightarrow> core_step c c'"

inductive core_reachable :: "GlobalRiskConfig \<Rightarrow> PortfolioRiskConfig \<Rightarrow> OrderManagerCore \<Rightarrow> bool"
  for g p where
  reach_new: "core_reachable g p (OrderManagerCore_new g p)"
| reach_reset: "core_reachable g p c \<Longrightarrow> core_reachable g p (core_reset c)"
| reach_step: "core_reachable g p c \<Longrightarrow> core_step c c' \<Longrightarrow> core_reachable g p c'"

lemma evaluate_global_maps:
  assumes "evaluate_global_risk c i = (c', d)"
  shows "oc_in_flight_orders c' = oc_in_flight_orders c"
    and "oc_exchange_to_client c' = oc_exchange_to_client c"
    and "oc_global_risk_config c' = oc_global_risk_config c"
    and "oc_portfolio_risk_config c' = oc_portfolio_risk_config c"
  using assms by (auto simp: evaluate_global_risk_def Let_def split: if_splits)

lemma evaluate_portfolio_maps:
  assumes "evaluate_portfolio_risk c i snap = (c', d)"
  shows "oc_in_flight_orders c' = oc_in_flight_orders c"
    and "oc_exchange_to_client c' = oc_exchange_to_client c"
    and "oc_global_risk_config c' = oc_global_risk_config c"
    and "oc_portfolio_risk_config c' = oc_portfolio_risk_config c"
  using assms by (auto simp: evaluate_portfolio_risk_def Let_def split: if_splits)

lemma core_step_inv: "core_step c c' \<Longrightarrow> core_inv c \<Longrightarrow> core_inv c'"
proof (induction rule: core_step.induct)
  case step_submit
  then show ?case using validate_preserves_inv by blast
next
  case (step_global c i c' d)
  then show ?case using core_inv_maps evaluate_global_maps(1,2) by blast
next
  case (step_portfolio c i snap c' d)
  then show ?case using core_inv_maps evaluate_portfolio_maps(1,2) by blast
next
  case step_update
  then show ?case using update_preserves_inv by blast
qed

lemma core_reachable_inv: "core_reachable g p c \<Longrightarrow> core_inv c"
  by (induction rule: core_reachable.induct) (auto intro: core_step_inv)

text \<open>
  What one step may do to a tracked order: it stays tracked, its status moves along a legal
  transition, and the fields fixed at submission keep their values.
\<close>

definition same_identity :: "InFlightOrder \<Rightarrow> InFlightOrder \<Rightarrow> bool" where
  "same_identity a b \<longleftrightarrow> ord_client_order_id b = ord_client_order_id a \<and>
     ord_request_id b = ord_request_id a \<and> ord_last_action b = ord_last_action a \<and>
     ord_requested_qty_lots b = ord_requested_qty_lots a \<and>
     ord_replace_target_client_order_id b = ord_replace_target_client_order_id a \<and>
     ord_created_ts_ns b = ord_created_ts_ns a"

definition order_evolves :: "InFlightOrder \<Rightarrow> InFlightOrder \<Rightarrow> bool" where
  "order_evolves a b \<longleftrightarrow> can_transition (ord_status a) (ord_status b) \<and> same_identity a b"

lemma order_evolves_refl [simp]: "order_evolves a a"
  by (simp add: order_evolves_def same_identity_def)

lemma validate_keeps_tracked:
  assumes "validate_and_track_submission c rid i = (c', r)" "tracked c k = Some ord"
  shows "tracked c' k = Some ord"
  using assms(1) by (cases rule: validate_trackE) (use assms(2) in auto)

lemma update_evolves:
  assumes "apply_update_transition now c u = (c', u', r)" "tracked c k = Some ord"
  shows "\<exists>ord'. tracked c' k = Some ord' \<and> order_evolves ord ord'"
  using assms(1)
  by (cases rule: apply_updateE)
    (use assms(2) in \<open>auto simp: order_evolves_def same_identity_def dest!: find_order_tracked\<close>)

lemma core_step_evolves:
  assumes "core_step c c'" "tracked c k = Some ord"
  shows "\<exists>ord'. tracked c' k = Some ord' \<and> order_evolves ord ord'"
  using assms(1)
proof (cases rule: core_step.cases)
  case step_submit
  then show ?thesis using validate_keeps_tracked assms(2) by (metis order_evolves_refl)
next
  case step_global
  then show ?thesis using assms(2) by (simp add: evaluate_global_maps)
next
  case step_portfolio
  then show ?thesis using assms(2) by (simp add: evaluate_portfolio_maps)
next
  case step_update
  then show ?thesis using update_evolves assms(2) by blast
qed

lemma core_steps_evolve:
  assumes "core_step\<^sup>*\<^sup>* c c'" "tracked c k = Some ord"
  shows "\<exists>ord'. tracked c' k = Some ord' \<and> same_identity ord ord' \<and>
    (is_terminal_state (ord_status ord) \<longrightarrow> ord_status ord' = ord_status ord)"
  using assms(1)
proof (induction rule: rtranclp_induct)
  case base
  with assms(2) show ?case by (simp add: same_identity_def)
next
  case (step y z)
  then obtain o1 where o1: "tracked y k = Some o1" "same_identity ord o1"
    "is_terminal_state (ord_status ord) \<longrightarrow> ord_status o1 = ord_status ord" by blast
  obtain o2 where o2: "tracked z k = Some o2" "order_evolves o1 o2"
    using core_step_evolves [OF step(2) o1(1)] by blast
  from o2(2) o1(2,3) have "same_identity ord o2"
    "is_terminal_state (ord_status ord) \<longrightarrow> ord_status o2 = ord_status ord"
    by (auto simp: order_evolves_def same_identity_def terminal_final)
  with o2(1) show ?case by blast
qed

text \<open>The configurations are fixed.\<close>

lemma core_step_configs: "core_step c c' \<Longrightarrow> oc_global_risk_config c' = oc_global_risk_config c \<and>
    oc_portfolio_risk_config c' = oc_portfolio_risk_config c"
proof (induction rule: core_step.induct)
  case (step_submit c rid i c' r)
  then show ?case by (cases rule: validate_trackE) (simp_all add: track_def)
next
  case (step_update now c u c' u' r)
  then show ?case by (cases rule: apply_updateE) simp_all
qed (simp_all add: evaluate_global_maps evaluate_portfolio_maps)

lemma core_steps_configs: "core_step\<^sup>*\<^sup>* c c' \<Longrightarrow> oc_global_risk_config c' = oc_global_risk_config c \<and>
    oc_portfolio_risk_config c' = oc_portfolio_risk_config c"
  by (induction rule: rtranclp_induct) (simp_all add: core_step_configs)

section \<open>The risk snapshot\<close>

text \<open>
  The orders that a snapshot counts, and what the loop computes over them. The result depends on
  the multiset of entries only, so not on the iteration order of the hash map.
\<close>

definition counted :: "string \<Rightarrow> ClientOrderId \<times> InFlightOrder \<Rightarrow> bool" where
  "counted skip entry \<longleftrightarrow> \<not> (skip \<noteq> '''' \<and> fst entry = skip) \<and> \<not> is_terminal_state (ord_status (snd entry))"

definition counted_in :: "string \<Rightarrow> string \<Rightarrow> ClientOrderId \<times> InFlightOrder \<Rightarrow> bool" where
  "counted_in market skip entry \<longleftrightarrow> counted skip entry \<and> market \<noteq> '''' \<and> ord_market_ticker (snd entry) = market"

lemma risk_snapshot_fold:
  fixes m skip xs s
  defines "r \<equiv> fold (risk_snapshot_step m skip) xs s"
  shows "grs_active_orders_global r = grs_active_orders_global s + length (filter (counted skip) xs)"
    and "grs_active_orders_market r = grs_active_orders_market s + length (filter (counted_in m skip) xs)"
    and "grs_outstanding_qty_global r
      = fold (i64_acc (outstanding_qty \<circ> snd)) (filter (counted skip) xs) (grs_outstanding_qty_global s)"
    and "grs_outstanding_qty_market r
      = fold (i64_acc (outstanding_qty \<circ> snd)) (filter (counted_in m skip) xs) (grs_outstanding_qty_market s)"
  unfolding r_def
  by (induction xs arbitrary: s)
    (simp_all add: risk_snapshot_step_def counted_def counted_in_def i64_acc_def Let_def)

lemma build_risk_snapshot_eq:
  "build_risk_snapshot c m skip =
     \<lparr> grs_active_orders_global = length (filter (counted skip) (oc_in_flight_orders c)),
       grs_active_orders_market = length (filter (counted_in m skip) (oc_in_flight_orders c)),
       grs_outstanding_qty_global = wrap_i64 (sum_list (map (outstanding_qty \<circ> snd)
         (filter (counted skip) (oc_in_flight_orders c)))),
       grs_outstanding_qty_market = wrap_i64 (sum_list (map (outstanding_qty \<circ> snd)
         (filter (counted_in m skip) (oc_in_flight_orders c)))) \<rparr>"
  unfolding build_risk_snapshot_def
  by (rule GlobalRiskSnapshot.equality) (simp_all add: risk_snapshot_fold fold_i64_acc_0)

lemma build_risk_snapshot_order_independent:
  assumes "mset (oc_in_flight_orders c) = mset (oc_in_flight_orders c')"
  shows "build_risk_snapshot c m skip = build_risk_snapshot c' m skip"
proof -
  have f: "mset (filter P (oc_in_flight_orders c)) = mset (filter P (oc_in_flight_orders c'))" for P
    using assms by (simp add: mset_filter)
  have "length (filter P (oc_in_flight_orders c)) = length (filter P (oc_in_flight_orders c'))" for P
    using f by (metis size_mset)
  moreover have "sum_list (map g (filter P (oc_in_flight_orders c)))
      = sum_list (map g (filter P (oc_in_flight_orders c')))" for P and g :: "_ \<Rightarrow> int"
    using f by (metis mset_map sum_mset_sum_list)
  ultimately show ?thesis by (simp add: build_risk_snapshot_eq)
qed

text \<open>All orders that are not terminal, and their outstanding quantity, as exact integers.\<close>

definition active_orders :: "OrderManagerCore \<Rightarrow> (ClientOrderId \<times> InFlightOrder) list" where
  "active_orders c = filter (\<lambda>e. \<not> is_terminal_state (ord_status (snd e))) (oc_in_flight_orders c)"

definition market_orders :: "OrderManagerCore \<Rightarrow> string \<Rightarrow> (ClientOrderId \<times> InFlightOrder) list" where
  "market_orders c m = filter (\<lambda>e. ord_market_ticker (snd e) = m) (active_orders c)"

definition total_outstanding :: "(ClientOrderId \<times> InFlightOrder) list \<Rightarrow> int" where
  "total_outstanding es = sum_list (map (outstanding_qty \<circ> snd) es)"

lemma fold_count_filter:
  fixes m :: nat
  shows "fold (\<lambda>(k, v) n. if P v then n + 1 else n) xs m = m + length (filter (\<lambda>e. P (snd e)) xs)"
  by (induction xs arbitrary: m) auto

lemma core_stats_active: "ocs_active_order_count (core_stats c) = length (active_orders c)"
  by (simp add: core_stats_def active_orders_def fold_count_filter)

text \<open>Taking one entry out of a list with distinct keys.\<close>

lemma filter_split_key:
  fixes f :: "_ \<Rightarrow> int"
  assumes "distinct (map fst xs)" "map_of xs k = Some v" "P (k, v)"
  shows "length (filter P xs) = Suc (length (filter (\<lambda>e. fst e \<noteq> k \<and> P e) xs))"
    and "sum_list (map f (filter P xs)) = f (k, v) + sum_list (map f (filter (\<lambda>e. fst e \<noteq> k \<and> P e) xs))"
proof -
  have eq: "filter (\<lambda>e. fst e \<noteq> k \<and> P e) ys = filter P ys" if "k \<notin> fst ` set ys" for ys
    using that by (intro filter_cong) auto
  show "length (filter P xs) = Suc (length (filter (\<lambda>e. fst e \<noteq> k \<and> P e) xs))"
    using assms by (induction xs) (auto simp: eq split: if_splits)
  show "sum_list (map f (filter P xs)) = f (k, v) + sum_list (map f (filter (\<lambda>e. fst e \<noteq> k \<and> P e) xs))"
    using assms by (induction xs) (auto simp: eq split: if_splits)
qed

lemma counted_others:
  assumes inv: "core_inv c" and k: "tracked c k = Some ord" "\<not> is_terminal_state (ord_status ord)"
  shows "length (active_orders c) = Suc (length (filter (counted k) (oc_in_flight_orders c)))"
    and "total_outstanding (active_orders c)
      = outstanding_qty ord + total_outstanding (filter (counted k) (oc_in_flight_orders c))"
    and "ord_market_ticker ord = m \<Longrightarrow> m \<noteq> '''' \<Longrightarrow>
      length (market_orders c m) = Suc (length (filter (counted_in m k) (oc_in_flight_orders c)))"
    and "ord_market_ticker ord = m \<Longrightarrow> m \<noteq> '''' \<Longrightarrow>
      total_outstanding (market_orders c m)
      = outstanding_qty ord + total_outstanding (filter (counted_in m k) (oc_in_flight_orders c))"
proof -
  let ?P = "\<lambda>e. \<not> is_terminal_state (ord_status (snd e))"
  let ?Q = "\<lambda>e. \<not> is_terminal_state (ord_status (snd e)) \<and> ord_market_ticker (snd e) = m"
  have kne: "k \<noteq> ''''" using core_invD(3) [OF inv k(1)] by (simp add: order_ok_def)
  note d = core_invD(1) [OF inv]
  have c1: "counted k = (\<lambda>e. fst e \<noteq> k \<and> ?P e)" using kne by (auto simp: counted_def)
  show "length (active_orders c) = Suc (length (filter (counted k) (oc_in_flight_orders c)))"
    using filter_split_key(1) [OF d k(1), of ?P] k(2) by (simp add: active_orders_def c1)
  show "total_outstanding (active_orders c)
      = outstanding_qty ord + total_outstanding (filter (counted k) (oc_in_flight_orders c))"
    using filter_split_key(2) [OF d k(1), of ?P "outstanding_qty \<circ> snd"] k(2)
    by (simp add: active_orders_def total_outstanding_def c1)
  assume m: "ord_market_ticker ord = m" "m \<noteq> ''''"
  have c2: "counted_in m k = (\<lambda>e. fst e \<noteq> k \<and> ?Q e)" using kne m by (auto simp: counted_def counted_in_def)
  have mo: "market_orders c m = filter ?Q (oc_in_flight_orders c)"
    by (simp add: market_orders_def active_orders_def)
  show "length (market_orders c m) = Suc (length (filter (counted_in m k) (oc_in_flight_orders c)))"
    using filter_split_key(1) [OF d k(1), of ?Q] k(2) m by (simp add: mo c2)
  show "total_outstanding (market_orders c m)
      = outstanding_qty ord + total_outstanding (filter (counted_in m k) (oc_in_flight_orders c))"
    using filter_split_key(2) [OF d k(1), of ?Q "outstanding_qty \<circ> snd"] k(2) m
    by (simp add: mo total_outstanding_def c2)
qed

section \<open>Example data\<close>

text \<open>A small configuration and one order, used by the witnesses of the claims.\<close>

definition example_global_config :: GlobalRiskConfig where
  "example_global_config = \<lparr> grc_max_active_orders_global = 2, grc_max_active_orders_per_market = 1,
     grc_max_outstanding_qty_global = 100, grc_max_outstanding_qty_per_market = 50 \<rparr>"

definition example_portfolio_config :: PortfolioRiskConfig where
  "example_portfolio_config = \<lparr> prc_max_abs_net_position_per_market = 40,
     prc_max_abs_position_gross_global = 60, prc_min_realized_pnl_ticks = 0,
     prc_enforce_realized_pnl_floor = False \<rparr>"

definition example_intent :: OrderIntent where
  "example_intent = OrderIntent_default\<lparr> oi_exchange := Ex_kKalshi, oi_action := Act_kPlace,
     oi_client_order_id := ''A'', oi_market_ticker := ''MKT'', oi_side := Side_kBuy,
     oi_qty_lots := 10, oi_limit_price_ticks := Some 45, oi_intent_ts_ns := 7 \<rparr>"

definition example_new_core :: OrderManagerCore where
  "example_new_core = OrderManagerCore_new example_global_config example_portfolio_config"

definition example_core :: OrderManagerCore where
  "example_core = fst (validate_and_track_submission example_new_core 1 example_intent)"

definition example_reject :: OrderStateUpdate where
  "example_reject = \<lparr> ou_exchange = Ex_kKalshi, ou_status = St_kRejected, ou_client_order_id = ''A'',
     ou_exchange_order_id = None, ou_market_ticker = ''MKT'', ou_recv_ts_ns = 9,
     ou_data = Upd_Reject \<lparr> or_client_order_id = ''A'', or_exchange_order_id = None,
       or_reason_code = ''r'', or_reason_message = ''m'' \<rparr>, ou_raw_payload = '''' \<rparr>"

definition example_rejected_core :: OrderManagerCore where
  "example_rejected_core = fst (apply_update_transition 1 example_core example_reject)"

lemmas example_intent_defs = example_intent_def OrderIntent_default_def
lemmas example_core_defs = example_intent_defs example_global_config_def example_portfolio_config_def
  example_new_core_def OrderManagerCore_new_def

lemma example_core_eq: "example_core = track example_new_core (place_order 1 example_intent)"
  by (simp add: example_core_def validate_and_track_submission_def example_core_defs)

lemma example_core_orders: "oc_in_flight_orders example_core = [(''A'', place_order 1 example_intent)]"
  "oc_global_risk_config example_core = example_global_config"
  by (simp_all add: example_core_eq track_def example_core_defs)

lemma example_core_step: "core_step example_new_core example_core"
  unfolding example_core_def
  by (rule step_submit [of _ 1 example_intent _ "snd (validate_and_track_submission example_new_core 1 example_intent)"])
    simp

lemma example_core_inv: "core_inv example_core"
  using core_step_inv [OF example_core_step] by (simp add: example_new_core_def)

lemma example_rejected_order:
  "tracked example_rejected_core ''A'' = Some (touch_order 1 If_kRejected (place_order 1 example_intent) example_reject)"
  by (simp add: example_rejected_core_def apply_update_transition_def find_order_def
      example_core_orders example_reject_def transition_order_def can_transition_def touch_order_def)

section \<open>Claims about the core\<close>

text \<open>
  C18. Whatever sequence of submissions, risk evaluations, exchange updates and resets the order
  manager performs, the two maps stay consistent: unique keys, every order stored under its own
  client id, every exchange id leads to a tracked order, every replace points to a tracked order
  other than itself.
\<close>

theorem reachable_core_consistent:
  assumes "core_reachable g p c"
  shows "core_inv c"
  using assms by (rule core_reachable_inv)

theorem reachable_core_consistent_witness:
  "core_reachable example_global_config example_portfolio_config example_core \<and> core_inv example_core"
proof -
  have "core_reachable example_global_config example_portfolio_config example_core"
    using reach_step [OF reach_new] example_core_step by (simp add: example_new_core_def)
  then show ?thesis using reachable_core_consistent by blast
qed

text \<open>
  C3. In any interleaving of submissions, risk evaluations and exchange updates a tracked order
  stays tracked, keeps the data fixed at submission (ids, action, requested quantity, replace
  target, creation time), and once it is filled, canceled or rejected its status never changes.
\<close>

theorem tracked_orders_persist:
  assumes "core_step\<^sup>*\<^sup>* c c'" and "tracked c k = Some ord"
  shows "\<exists>ord'. tracked c' k = Some ord' \<and> same_identity ord ord' \<and>
    (is_terminal_state (ord_status ord) \<longrightarrow> ord_status ord' = ord_status ord)"
  using assms by (rule core_steps_evolve)

theorem tracked_orders_persist_witness:
  "\<exists>ord'. tracked (fst (apply_update_transition 1 example_rejected_core (example_reject\<lparr>ou_status := St_kFilled\<rparr>))) ''A''
     = Some ord' \<and> ord_status ord' = If_kRejected"
proof -
  let ?u = "example_reject\<lparr>ou_status := St_kFilled\<rparr>"
  let ?r = "apply_update_transition 1 example_rejected_core ?u"
  have "core_step example_rejected_core (fst ?r)"
    by (rule step_update [of 1 _ ?u _ "fst (snd ?r)" "snd (snd ?r)"]) simp
  then show ?thesis
    using tracked_orders_persist [OF _ example_rejected_order, of "fst ?r"]
    by (auto simp: touch_order_def)
qed

text \<open>
  The limits of the global gate with every active order counted, as exact integers.
\<close>

definition within_global_limits :: "OrderManagerCore \<Rightarrow> string \<Rightarrow> bool" where
  "within_global_limits c m \<longleftrightarrow> (let cfg = oc_global_risk_config c in
     (grc_max_active_orders_global cfg > 0 \<longrightarrow>
        length (active_orders c) \<le> grc_max_active_orders_global cfg) \<and>
     (grc_max_active_orders_per_market cfg > 0 \<longrightarrow>
        length (market_orders c m) \<le> grc_max_active_orders_per_market cfg) \<and>
     (grc_max_outstanding_qty_global cfg > 0 \<longrightarrow>
        total_outstanding (active_orders c) \<le> grc_max_outstanding_qty_global cfg) \<and>
     (grc_max_outstanding_qty_per_market cfg > 0 \<longrightarrow>
        total_outstanding (market_orders c m) \<le> grc_max_outstanding_qty_per_market cfg))"

lemma total_outstanding_filter_le:
  assumes "\<forall>e \<in> set es. 0 \<le> outstanding_qty (snd e)"
  shows "0 \<le> total_outstanding (filter P es)" "total_outstanding (filter P es) \<le> total_outstanding es"
  using assms by (induction es) (auto simp: total_outstanding_def)

lemma evaluate_global_risk_pass:
  "snd (evaluate_global_risk c i) = None \<longleftrightarrow>
     grd_allow (global_evaluate (oc_global_risk_config c) i
       (build_risk_snapshot c (oi_market_ticker i) (oi_client_order_id i)))"
  by (simp add: evaluate_global_risk_def Let_def)

text \<open>The addition of the gate is exact when the total fits 64 bits.\<close>

lemma gate_addition_exact:
  assumes "0 \<le> x" "0 \<le> q" "q + x \<le> t" "in_i64 t"
  shows "i64_add (wrap_i64 x) q = q + x"
  using assms by (auto simp: i64_add_def wrap_add_left add.commute wrap_in_range in_i64_def)

text \<open>
  C12. When the global gate lets an order-creating intent through, the limits that are switched on
  hold with that order counted in: the number of active orders and their outstanding quantity,
  overall and in the order's market. The hypotheses say that the intent was tracked with its
  own quantity and market and that the total outstanding quantity fits 64 bits.
\<close>

theorem global_gate_enforces_limits:
  assumes inv: "core_inv c" and creating: "order_creating i"
    and ord: "tracked c (oi_client_order_id i) = Some ord" "\<not> is_terminal_state (ord_status ord)"
    and same: "outstanding_qty ord = max (oi_qty_lots i) 0"
      "ord_market_ticker ord = oi_market_ticker i" "oi_market_ticker i \<noteq> ''''"
    and range: "\<forall>e \<in> set (oc_in_flight_orders c). in_i64 (ord_requested_qty_lots (snd e))"
      "in_i64 (total_outstanding (active_orders c))"
    and pass: "snd (evaluate_global_risk c i) = None"
  shows "within_global_limits c (oi_market_ticker i)"
proof -
  let ?k = "oi_client_order_id i" and ?m = "oi_market_ticker i"
  let ?g = "filter (counted ?k) (oc_in_flight_orders c)"
  let ?mk = "filter (counted_in ?m ?k) (oc_in_flight_orders c)"
  note others = counted_others [OF inv ord]
  have nonneg: "\<forall>e \<in> set ?g. 0 \<le> outstanding_qty (snd e)"
    using range(1) outstanding_qty_bounds(1) by fastforce
  have "?mk = filter (\<lambda>e. ?m \<noteq> '''' \<and> ord_market_ticker (snd e) = ?m) ?g"
    by (auto simp: counted_in_def intro: filter_cong)
  then have mk: "0 \<le> total_outstanding ?mk" "total_outstanding ?mk \<le> total_outstanding ?g"
    using total_outstanding_filter_le [OF nonneg] by simp_all
  have g: "0 \<le> total_outstanding ?g"
    using total_outstanding_filter_le(1) [OF nonneg, of "\<lambda>_. True"] by simp
  have tot: "total_outstanding (active_orders c) = max (oi_qty_lots i) 0 + total_outstanding ?g"
    using others(2) same(1) by simp
  have "i64_add (wrap_i64 (total_outstanding ?g)) (max (oi_qty_lots i) 0)
      = total_outstanding (active_orders c)"
    unfolding tot by (rule gate_addition_exact [OF g _ _ range(2)]) (simp_all add: tot)
  moreover have "i64_add (wrap_i64 (total_outstanding ?mk)) (max (oi_qty_lots i) 0)
      = total_outstanding (market_orders c ?m)"
    unfolding others(4) [OF same(2,3)] same(1)
    by (rule gate_addition_exact [OF mk(1) _ _ range(2)]) (use mk(2) tot in simp_all)
  moreover note others(1) others(3) [OF same(2,3)]
  ultimately show ?thesis
    using pass creating
    by (simp add: evaluate_global_risk_pass global_allow_iff build_risk_snapshot_eq
        within_global_limits_def Let_def Suc_le_eq flip: total_outstanding_def)
qed

lemma example_global_pass: "snd (evaluate_global_risk example_core example_intent) = None"
  by (simp add: evaluate_global_risk_pass global_allow_iff build_risk_snapshot_eq
      example_core_orders counted_def counted_in_def i64_add_def wrap_i64_def example_core_defs)

theorem global_gate_enforces_limits_witness:
  "within_global_limits example_core ''MKT''"
proof -
  show ?thesis
    using example_global_pass
      global_gate_enforces_limits [OF example_core_inv, of example_intent "place_order 1 example_intent"]
    by (simp add: order_creating_def example_core_orders place_order_def outstanding_qty_def
        total_outstanding_def active_orders_def in_i64_def example_intent_defs)
qed

end
