(* ===== verification/Position_Ledger.thy ===== *)
theory Position_Ledger
  imports Risk_Gates
begin

text \<open>
  \<open>oms/position_ledger_core.cpp\<close> and \<open>oms/position_ledger.cpp\<close>: positions, average open price and
  realised profit per exchange and market, fed by order updates. The hash map keyed by
  \<open>MarketKey\<close> is an association list keyed by the pair of exchange and ticker (its hash function
  only places entries in buckets). The mutex of \<open>PositionLedger\<close> makes each operation one
  atomic step of the model.
\<close>

section \<open>Data\<close>

type_synonym MarketKey = "ExchangeId \<times> string"

record PositionSnapshot =
  ps_exchange :: ExchangeId
  ps_market_ticker :: string
  ps_net_qty_lots :: QtyLots
  ps_avg_open_price_ticks :: "PriceTicks option"
  ps_bought_qty_lots :: QtyLots
  ps_sold_qty_lots :: QtyLots
  ps_closed_qty_lots :: QtyLots
  ps_realized_pnl_ticks :: i64
  ps_fill_count :: u64
  ps_last_fill_ts_ns :: TimestampNs

record PositionLedgerStats =
  pls_processed_fill_count :: u64
  pls_ignored_update_count :: u64
  pls_rejected_fill_count :: u64
  pls_tracked_market_count :: usize
  pls_open_position_count :: usize
  pls_closed_position_count :: usize
  pls_realized_pnl_ticks_total :: i64

record MarketPositionState =
  mp_exchange :: ExchangeId
  mp_market_ticker :: string
  mp_net_qty_lots :: QtyLots
  mp_avg_open_price_ticks :: PriceTicks
  mp_has_open_price :: bool
  mp_bought_qty_lots :: QtyLots
  mp_sold_qty_lots :: QtyLots
  mp_closed_qty_lots :: QtyLots
  mp_realized_pnl_ticks :: i64
  mp_fill_count :: u64
  mp_last_fill_ts_ns :: TimestampNs

record PositionLedgerCore =
  pl_positions :: "(MarketKey \<times> MarketPositionState) list"
  pl_processed_fill_count :: u64
  pl_ignored_update_count :: u64
  pl_rejected_fill_count :: u64
  pl_closed_position_count :: usize
  pl_realized_pnl_ticks_total :: i64

abbreviation position_of :: "PositionLedgerCore \<Rightarrow> MarketKey \<Rightarrow> MarketPositionState option" where
  "position_of l key \<equiv> map_of (pl_positions l) key"

definition MarketPositionState_default :: MarketPositionState where
  "MarketPositionState_default = \<lparr> mp_exchange = Ex_kUnknown, mp_market_ticker = '''',
     mp_net_qty_lots = 0, mp_avg_open_price_ticks = 0, mp_has_open_price = False,
     mp_bought_qty_lots = 0, mp_sold_qty_lots = 0, mp_closed_qty_lots = 0,
     mp_realized_pnl_ticks = 0, mp_fill_count = 0, mp_last_fill_ts_ns = 0 \<rparr>"

definition PositionLedgerCore_new :: PositionLedgerCore where
  "PositionLedgerCore_new = \<lparr> pl_positions = [], pl_processed_fill_count = 0,
     pl_ignored_update_count = 0, pl_rejected_fill_count = 0, pl_closed_position_count = 0,
     pl_realized_pnl_ticks_total = 0 \<rparr>"

section \<open>Helpers\<close>

definition abs_qty :: "QtyLots \<Rightarrow> QtyLots" where
  "abs_qty v = (if v \<ge> 0 then v else i64_neg v)"

fun side_to_signed_qty :: "Side \<Rightarrow> QtyLots \<Rightarrow> QtyLots" where
  "side_to_signed_qty Side_kBuy q = q"
| "side_to_signed_qty Side_kBid q = q"
| "side_to_signed_qty Side_kSell q = i64_neg q"
| "side_to_signed_qty Side_kAsk q = i64_neg q"
| "side_to_signed_qty Side_kUnknown q = 0"

section \<open>Applying a fill\<close>

text \<open>
  \<open>stamp_fill\<close> is the bookkeeping common to all fills; then the position is opened, extended in
  the same direction, or reduced (and possibly closed or flipped). A reduction also reports the
  profit it realised.
\<close>

definition stamp_fill ::
    "MarketPositionState \<Rightarrow> OrderStateUpdate \<Rightarrow> string \<Rightarrow> OrderFill \<Rightarrow> QtyLots \<Rightarrow> MarketPositionState" where
  "stamp_fill p u market_ticker fill signed_fill_qty = p\<lparr> mp_exchange := ou_exchange u,
     mp_market_ticker := market_ticker,
     mp_fill_count := mp_fill_count p + 1,
     mp_last_fill_ts_ns := ou_recv_ts_ns u,
     mp_bought_qty_lots := (if signed_fill_qty > 0
        then i64_add (mp_bought_qty_lots p) (of_fill_qty_lots fill) else mp_bought_qty_lots p),
     mp_sold_qty_lots := (if signed_fill_qty > 0
        then mp_sold_qty_lots p else i64_add (mp_sold_qty_lots p) (of_fill_qty_lots fill)) \<rparr>"

definition open_position :: "MarketPositionState \<Rightarrow> QtyLots \<Rightarrow> PriceTicks \<Rightarrow> MarketPositionState" where
  "open_position p signed_fill_qty price = p\<lparr> mp_net_qty_lots := signed_fill_qty,
     mp_avg_open_price_ticks := price, mp_has_open_price := True \<rparr>"

definition extend_position :: "MarketPositionState \<Rightarrow> QtyLots \<Rightarrow> PriceTicks \<Rightarrow> MarketPositionState" where
  "extend_position p signed_fill_qty price =
     (let old_net_qty = mp_net_qty_lots p;
          old_abs = abs_qty old_net_qty;
          fill_abs = abs_qty signed_fill_qty;
          new_abs = i64_add old_abs fill_abs;
          weighted_notional = i64_add (i64_mul (mp_avg_open_price_ticks p) old_abs)
                                      (i64_mul price fill_abs)
      in p\<lparr> mp_avg_open_price_ticks := i64_div weighted_notional new_abs,
            mp_net_qty_lots := i64_add old_net_qty signed_fill_qty,
            mp_has_open_price := True \<rparr>)"

definition reduction_pnl :: "MarketPositionState \<Rightarrow> QtyLots \<Rightarrow> PriceTicks \<Rightarrow> i64" where
  "reduction_pnl p signed_fill_qty price =
     (let closed_qty = min (abs_qty (mp_net_qty_lots p)) (abs_qty signed_fill_qty)
      in if mp_net_qty_lots p > 0
         then i64_mul (i64_sub price (mp_avg_open_price_ticks p)) closed_qty
         else i64_mul (i64_sub (mp_avg_open_price_ticks p) price) closed_qty)"

definition reduce_position :: "MarketPositionState \<Rightarrow> QtyLots \<Rightarrow> PriceTicks \<Rightarrow> MarketPositionState" where
  "reduce_position p signed_fill_qty price =
     (let old_net_qty = mp_net_qty_lots p;
          closed_qty = min (abs_qty old_net_qty) (abs_qty signed_fill_qty);
          p = p\<lparr> mp_realized_pnl_ticks :=
                   i64_add (mp_realized_pnl_ticks p) (reduction_pnl p signed_fill_qty price),
                 mp_closed_qty_lots := i64_add (mp_closed_qty_lots p) closed_qty,
                 mp_net_qty_lots := i64_add old_net_qty signed_fill_qty \<rparr>
      in if mp_net_qty_lots p = 0 then p\<lparr>mp_has_open_price := False\<rparr>
         else if (old_net_qty > 0 \<and> mp_net_qty_lots p < 0) \<or> (old_net_qty < 0 \<and> mp_net_qty_lots p > 0)
         then p\<lparr>mp_avg_open_price_ticks := price, mp_has_open_price := True\<rparr>
         else p)"

definition ledger_reject :: "PositionLedgerCore \<Rightarrow> string \<Rightarrow> PositionLedgerCore \<times> (string + unit)" where
  "ledger_reject l msg = (l\<lparr>pl_rejected_fill_count := pl_rejected_fill_count l + 1\<rparr>, Inl msg)"

definition same_direction :: "QtyLots \<Rightarrow> QtyLots \<Rightarrow> bool" where
  "same_direction a b \<longleftrightarrow> (a > 0 \<and> b > 0) \<or> (a < 0 \<and> b < 0)"

definition apply_fill ::
    "PositionLedgerCore \<Rightarrow> OrderStateUpdate \<Rightarrow> OrderFill \<Rightarrow> PositionLedgerCore \<times> (string + unit)" where
  "apply_fill l u fill =
     (let market_ticker = (if of_market_ticker fill = '''' then ou_market_ticker u
                           else of_market_ticker fill) in
      if market_ticker = '''' then ledger_reject l ''Fill update is missing market_ticker''
      else if of_fill_qty_lots fill \<le> 0
      then ledger_reject l ''Fill update has non-positive fill_qty_lots''
      else let signed_fill_qty = side_to_signed_qty (of_side fill) (of_fill_qty_lots fill) in
        if signed_fill_qty = 0 then ledger_reject l ''Fill update has unknown side''
        else let key = (ou_exchange u, market_ticker);
                 price = of_fill_price_ticks fill;
                 position = stamp_fill (case position_of l key of Some p \<Rightarrow> p
                                        | None \<Rightarrow> MarketPositionState_default)
                              u market_ticker fill signed_fill_qty;
                 processed = l\<lparr>pl_processed_fill_count := pl_processed_fill_count l + 1\<rparr> in
          if mp_net_qty_lots position = 0
          then (processed\<lparr>pl_positions := AList.update key
                   (open_position position signed_fill_qty price) (pl_positions l)\<rparr>, Inr ())
          else if same_direction (mp_net_qty_lots position) signed_fill_qty
          then (processed\<lparr>pl_positions := AList.update key
                   (extend_position position signed_fill_qty price) (pl_positions l)\<rparr>, Inr ())
          else let position' = reduce_position position signed_fill_qty price
               in (processed\<lparr> pl_positions := AList.update key position' (pl_positions l),
                     pl_realized_pnl_ticks_total := i64_add (pl_realized_pnl_ticks_total l)
                        (reduction_pnl position signed_fill_qty price),
                     pl_closed_position_count := (if mp_net_qty_lots position' = 0
                        then pl_closed_position_count l + 1 else pl_closed_position_count l) \<rparr>,
                   Inr ()))"

definition ledger_on_order_update ::
    "PositionLedgerCore \<Rightarrow> OrderStateUpdate \<Rightarrow> PositionLedgerCore \<times> (string + unit)" where
  "ledger_on_order_update l u =
     (if ou_status u \<noteq> St_kFilled \<and> ou_status u \<noteq> St_kPartiallyFilled
      then (l\<lparr>pl_ignored_update_count := pl_ignored_update_count l + 1\<rparr>, Inr ())
      else case ou_data u of
          Upd_Fill fill \<Rightarrow> apply_fill l u fill
        | _ \<Rightarrow> ledger_reject l ''Fill status update is missing OrderFill payload'')"

section \<open>Queries\<close>

definition market_position ::
    "PositionLedgerCore \<Rightarrow> ExchangeId \<Rightarrow> string \<Rightarrow> PositionSnapshot option" where
  "market_position l exchange market_ticker =
     (case position_of l (exchange, market_ticker) of
        None \<Rightarrow> None
      | Some p \<Rightarrow> Some \<lparr> ps_exchange = mp_exchange p, ps_market_ticker = mp_market_ticker p,
          ps_net_qty_lots = mp_net_qty_lots p,
          ps_avg_open_price_ticks =
            (if mp_has_open_price p then Some (mp_avg_open_price_ticks p) else None),
          ps_bought_qty_lots = mp_bought_qty_lots p, ps_sold_qty_lots = mp_sold_qty_lots p,
          ps_closed_qty_lots = mp_closed_qty_lots p,
          ps_realized_pnl_ticks = mp_realized_pnl_ticks p,
          ps_fill_count = mp_fill_count p, ps_last_fill_ts_ns = mp_last_fill_ts_ns p \<rparr>)"

definition portfolio_snapshot_step ::
    "ExchangeId \<Rightarrow> MarketKey \<times> MarketPositionState \<Rightarrow> PortfolioRiskSnapshot \<Rightarrow> PortfolioRiskSnapshot" where
  "portfolio_snapshot_step exchange entry snap =
     (if fst (fst entry) \<noteq> exchange then snap
      else snap\<lparr> prs_gross_position_global :=
               i64_add (prs_gross_position_global snap) (abs_qty (mp_net_qty_lots (snd entry))),
             prs_realized_pnl_ticks_total :=
               i64_add (prs_realized_pnl_ticks_total snap) (mp_realized_pnl_ticks (snd entry)) \<rparr>)"

definition portfolio_risk_snapshot ::
    "PositionLedgerCore \<Rightarrow> ExchangeId \<Rightarrow> string \<Rightarrow> PortfolioRiskSnapshot" where
  "portfolio_risk_snapshot l exchange market_ticker =
     fold (portfolio_snapshot_step exchange) (pl_positions l)
       \<lparr> prs_net_position_market = (case position_of l (exchange, market_ticker) of
             Some p \<Rightarrow> mp_net_qty_lots p | None \<Rightarrow> 0),
         prs_gross_position_global = 0, prs_realized_pnl_ticks_total = 0 \<rparr>"

definition ledger_stats :: "PositionLedgerCore \<Rightarrow> PositionLedgerStats" where
  "ledger_stats l =
     (let open_position_count = fold (\<lambda>(key, position) n.
            if mp_net_qty_lots position \<noteq> 0 then n + 1 else n) (pl_positions l) 0
      in \<lparr> pls_processed_fill_count = pl_processed_fill_count l,
           pls_ignored_update_count = pl_ignored_update_count l,
           pls_rejected_fill_count = pl_rejected_fill_count l,
           pls_tracked_market_count = length (pl_positions l),
           pls_open_position_count = open_position_count,
           pls_closed_position_count = pl_closed_position_count l,
           pls_realized_pnl_ticks_total = pl_realized_pnl_ticks_total l \<rparr>)"

section \<open>The locked ledger\<close>

record PositionLedger =
  led_core :: PositionLedgerCore
  led_last_error :: string

definition PositionLedger_new :: PositionLedger where
  "PositionLedger_new = \<lparr> led_core = PositionLedgerCore_new, led_last_error = '''' \<rparr>"

definition PositionLedger_on_order_update :: "PositionLedger \<Rightarrow> OrderStateUpdate \<Rightarrow> PositionLedger \<times> bool" where
  "PositionLedger_on_order_update p u =
     (case ledger_on_order_update (led_core p) u of
        (core, Inl error_message) \<Rightarrow> (p\<lparr>led_core := core, led_last_error := error_message\<rparr>, False)
      | (core, Inr _) \<Rightarrow> (p\<lparr>led_core := core\<rparr>, True))"

definition PositionLedger_snapshot_for :: "PositionLedger \<Rightarrow> ExchangeId \<Rightarrow> string \<Rightarrow> PortfolioRiskSnapshot" where
  "PositionLedger_snapshot_for p exchange market_ticker =
     portfolio_risk_snapshot (led_core p) exchange market_ticker"

definition PositionLedger_market_position ::
    "PositionLedger \<Rightarrow> ExchangeId \<Rightarrow> string \<Rightarrow> PositionSnapshot option" where
  "PositionLedger_market_position p exchange market_ticker =
     market_position (led_core p) exchange market_ticker"

definition PositionLedger_stats :: "PositionLedger \<Rightarrow> PositionLedgerStats" where
  "PositionLedger_stats p = ledger_stats (led_core p)"

section \<open>Outcomes of a fill\<close>

text \<open>The new position and the profit that one fill realises, whichever branch is taken.\<close>

definition fill_position :: "MarketPositionState \<Rightarrow> QtyLots \<Rightarrow> PriceTicks \<Rightarrow> MarketPositionState" where
  "fill_position p q price =
     (if mp_net_qty_lots p = 0 then open_position p q price
      else if same_direction (mp_net_qty_lots p) q then extend_position p q price
      else reduce_position p q price)"

definition fill_reduces :: "MarketPositionState \<Rightarrow> QtyLots \<Rightarrow> bool" where
  "fill_reduces p q \<longleftrightarrow> mp_net_qty_lots p \<noteq> 0 \<and> \<not> same_direction (mp_net_qty_lots p) q"

definition position_or_new :: "PositionLedgerCore \<Rightarrow> MarketKey \<Rightarrow> MarketPositionState" where
  "position_or_new l key = (case position_of l key of Some p \<Rightarrow> p | None \<Rightarrow> MarketPositionState_default)"

lemma apply_fillE:
  assumes "apply_fill l u fill = (l', r)"
  obtains (rejected) msg where "r = Inl msg"
      "l' = l\<lparr>pl_rejected_fill_count := pl_rejected_fill_count l + 1\<rparr>"
    | (filled) ticker q p where "r = Inr ()"
      "ticker = (if of_market_ticker fill = '''' then ou_market_ticker u else of_market_ticker fill)"
      "ticker \<noteq> ''''" "0 < of_fill_qty_lots fill"
      "q = side_to_signed_qty (of_side fill) (of_fill_qty_lots fill)" "q \<noteq> 0"
      "p = stamp_fill (position_or_new l (ou_exchange u, ticker)) u ticker fill q"
      "pl_positions l' = AList.update (ou_exchange u, ticker)
         (fill_position p q (of_fill_price_ticks fill)) (pl_positions l)"
      "pl_realized_pnl_ticks_total l' = (if fill_reduces p q
         then i64_add (pl_realized_pnl_ticks_total l) (reduction_pnl p q (of_fill_price_ticks fill))
         else pl_realized_pnl_ticks_total l)"
      "pl_processed_fill_count l' = pl_processed_fill_count l + 1"
proof -
  let ?t = "if of_market_ticker fill = '''' then ou_market_ticker u else of_market_ticker fill"
  let ?q = "side_to_signed_qty (of_side fill) (of_fill_qty_lots fill)"
  show ?thesis
  proof (cases "?t = '''' \<or> of_fill_qty_lots fill \<le> 0 \<or> ?q = 0")
    case True
    with assms show ?thesis
      by (auto simp: apply_fill_def ledger_reject_def Let_def intro: rejected split: if_splits)
  next
    case False
    with assms show ?thesis
      by (intro filled [of ?t ?q])
        (auto simp: apply_fill_def Let_def fill_position_def fill_reduces_def position_or_new_def
          split: if_splits)
  qed
qed

lemma abs_qty_eq: "in_i64 (- v) \<Longrightarrow> abs_qty v = \<bar>v\<bar>"
  by (auto simp: abs_qty_def i64_neg_def i64_simps)

lemma side_to_signed_cases:
  assumes "0 < n" "in_i64 n" "q = side_to_signed_qty s n" "q \<noteq> 0"
  shows "q = n \<or> q = - n" and "in_i64 q" and "in_i64 (- q)"
proof -
  have "in_i64 (- n)" using assms(1,2) by (auto simp: in_i64_def)
  then show "q = n \<or> q = - n"
    using assms by (cases s) (auto simp: i64_neg_def i64_simps)
  then show "in_i64 q" "in_i64 (- q)"
    using \<open>in_i64 (- n)\<close> assms(2) by auto
qed

section \<open>The ledger invariant\<close>

text \<open>
  Modulo \<open>2 ^ 64\<close> the net quantity is what was bought less what was sold; a position has an open
  price exactly when it is not flat; the running total of realised profit is the sum over all
  positions.
\<close>

definition position_ok :: "MarketKey \<Rightarrow> MarketPositionState \<Rightarrow> bool" where
  "position_ok key p \<longleftrightarrow> mp_exchange p = fst key \<and> mp_market_ticker p = snd key \<and> snd key \<noteq> '''' \<and>
     in_i64 (mp_net_qty_lots p) \<and>
     mp_net_qty_lots p = wrap_i64 (mp_bought_qty_lots p - mp_sold_qty_lots p) \<and>
     (mp_has_open_price p \<longleftrightarrow> mp_net_qty_lots p \<noteq> 0)"

definition ledger_inv :: "PositionLedgerCore \<Rightarrow> bool" where
  "ledger_inv l \<longleftrightarrow> distinct (map fst (pl_positions l)) \<and>
     (\<forall>key p. position_of l key = Some p \<longrightarrow> position_ok key p) \<and>
     pl_realized_pnl_ticks_total l
       = wrap_i64 (sum_list (map (mp_realized_pnl_ticks \<circ> snd) (pl_positions l)))"

definition fill_in_range :: "OrderFill \<Rightarrow> bool" where
  "fill_in_range f \<longleftrightarrow> in_i64 (of_fill_qty_lots f) \<and> in_i64 (of_fill_price_ticks f)"

definition update_in_range :: "OrderStateUpdate \<Rightarrow> bool" where
  "update_in_range u \<longleftrightarrow> (case ou_data u of Upd_Fill f \<Rightarrow> fill_in_range f | _ \<Rightarrow> True)"

lemma ledger_inv_new [simp]: "ledger_inv PositionLedgerCore_new"
  by (simp add: ledger_inv_def PositionLedgerCore_new_def)

lemma ledger_invD:
  assumes "ledger_inv l"
  shows "distinct (map fst (pl_positions l))"
    and "position_of l key = Some p \<Longrightarrow> position_ok key p"
    and "pl_realized_pnl_ticks_total l
       = wrap_i64 (sum_list (map (mp_realized_pnl_ticks \<circ> snd) (pl_positions l)))"
  using assms unfolding ledger_inv_def by blast+

lemma ledger_inv_positions:
  "pl_positions l' = pl_positions l \<Longrightarrow>
   pl_realized_pnl_ticks_total l' = pl_realized_pnl_ticks_total l \<Longrightarrow> ledger_inv l' \<longleftrightarrow> ledger_inv l"
  by (simp add: ledger_inv_def)

lemma fill_position_net: "mp_net_qty_lots p = 0 \<Longrightarrow> in_i64 q \<Longrightarrow>
    mp_net_qty_lots (fill_position p q price) = wrap_i64 (mp_net_qty_lots p + q)"
  "mp_net_qty_lots p \<noteq> 0 \<Longrightarrow>
    mp_net_qty_lots (fill_position p q price) = wrap_i64 (mp_net_qty_lots p + q)"
  by (simp_all add: fill_position_def open_position_def extend_position_def reduce_position_def
      i64_add_def Let_def wrap_in_range)

lemma fill_position_frame [simp]:
  "mp_exchange (fill_position p q price) = mp_exchange p"
  "mp_market_ticker (fill_position p q price) = mp_market_ticker p"
  "mp_bought_qty_lots (fill_position p q price) = mp_bought_qty_lots p"
  "mp_sold_qty_lots (fill_position p q price) = mp_sold_qty_lots p"
  "mp_fill_count (fill_position p q price) = mp_fill_count p"
  "mp_last_fill_ts_ns (fill_position p q price) = mp_last_fill_ts_ns p"
  by (simp_all add: fill_position_def open_position_def extend_position_def reduce_position_def Let_def)

lemma fill_position_realized:
  "mp_realized_pnl_ticks (fill_position p q price) = (if fill_reduces p q
     then i64_add (mp_realized_pnl_ticks p) (reduction_pnl p q price) else mp_realized_pnl_ticks p)"
  by (simp add: fill_position_def fill_reduces_def open_position_def extend_position_def
      reduce_position_def Let_def)

text \<open>Two quantities of the same sign never add up to zero, wrapped or not.\<close>

lemma same_direction_nonzero:
  assumes "same_direction a b" "in_i64 a" "in_i64 b" "in_i64 (- b)"
  shows "wrap_i64 (a + b) \<noteq> 0"
proof
  assume "wrap_i64 (a + b) = 0"
  then have "(a + b) mod 2 ^ 64 = 0" using wrap_eq_iff [of "a + b" 0] by simp
  then obtain k where k: "a + b = 2 ^ 64 * k" by (auto simp: mod_eq_0_iff_dvd elim: dvdE)
  have "- (2 ^ 64) < a + b" "a + b < 2 ^ 64" "a + b \<noteq> 0"
    using assms by (auto simp: same_direction_def in_i64_def)
  with k show False by (cases "k \<le> - 1"; cases "k \<ge> 1") auto
qed

lemma fill_position_open_price:
  assumes "mp_has_open_price p \<longleftrightarrow> mp_net_qty_lots p \<noteq> 0"
    "in_i64 (mp_net_qty_lots p)" "in_i64 q" "in_i64 (- q)" "q \<noteq> 0"
  shows "mp_has_open_price (fill_position p q price) \<longleftrightarrow> mp_net_qty_lots (fill_position p q price) \<noteq> 0"
proof (cases "mp_net_qty_lots p = 0 \<or> \<not> same_direction (mp_net_qty_lots p) q")
  case True
  with assms show ?thesis
    by (auto simp: fill_position_def open_position_def reduce_position_def Let_def)
next
  case False
  then show ?thesis
    using same_direction_nonzero [of "mp_net_qty_lots p" q] assms
    by (simp add: fill_position_def extend_position_def Let_def i64_add_def)
qed

lemma stamp_fill_frame [simp]:
  "mp_net_qty_lots (stamp_fill p u t f q) = mp_net_qty_lots p"
  "mp_avg_open_price_ticks (stamp_fill p u t f q) = mp_avg_open_price_ticks p"
  "mp_has_open_price (stamp_fill p u t f q) = mp_has_open_price p"
  "mp_realized_pnl_ticks (stamp_fill p u t f q) = mp_realized_pnl_ticks p"
  "mp_closed_qty_lots (stamp_fill p u t f q) = mp_closed_qty_lots p"
  "mp_exchange (stamp_fill p u t f q) = ou_exchange u"
  "mp_market_ticker (stamp_fill p u t f q) = t"
  by (simp_all add: stamp_fill_def)

lemma position_or_new_ok:
  assumes "ledger_inv l"
  shows "in_i64 (mp_net_qty_lots (position_or_new l key))"
    and "mp_net_qty_lots (position_or_new l key)
      = wrap_i64 (mp_bought_qty_lots (position_or_new l key) - mp_sold_qty_lots (position_or_new l key))"
    and "mp_has_open_price (position_or_new l key) \<longleftrightarrow> mp_net_qty_lots (position_or_new l key) \<noteq> 0"
  using ledger_invD(2) [OF assms, of key]
  by (cases "position_of l key";
      simp add: position_ok_def position_or_new_def MarketPositionState_default_def in_i64_def)+

lemma stamp_fill_net:
  assumes "mp_net_qty_lots p = wrap_i64 (mp_bought_qty_lots p - mp_sold_qty_lots p)"
    and q: "q = of_fill_qty_lots f \<or> q = - of_fill_qty_lots f" "0 < of_fill_qty_lots f"
  shows "wrap_i64 (mp_bought_qty_lots (stamp_fill p u t f q) - mp_sold_qty_lots (stamp_fill p u t f q))
    = wrap_i64 (mp_net_qty_lots p + q)"
  using assms by (auto simp: stamp_fill_def i64_add_def i64_simps algebra_simps)

lemma filled_position_ok:
  assumes inv: "ledger_inv l" and rng: "fill_in_range f" and pos: "0 < of_fill_qty_lots f"
    and q: "q = side_to_signed_qty (of_side f) (of_fill_qty_lots f)" "q \<noteq> 0"
    and t: "t \<noteq> ''''"
    and p: "p = stamp_fill (position_or_new l (ou_exchange u, t)) u t f q"
  shows "position_ok (ou_exchange u, t) (fill_position p q price)"
proof -
  have qq: "q = of_fill_qty_lots f \<or> q = - of_fill_qty_lots f" "in_i64 q" "in_i64 (- q)"
    using side_to_signed_cases [OF pos _ q] rng by (auto simp: fill_in_range_def)
  note old = position_or_new_ok [OF inv, of "(ou_exchange u, t)"]
  have net: "mp_net_qty_lots (fill_position p q price)
      = wrap_i64 (mp_net_qty_lots (position_or_new l (ou_exchange u, t)) + q)"
    using fill_position_net [of p q price] qq(2) by (cases "mp_net_qty_lots p = 0") (simp_all add: p)
  have "mp_net_qty_lots (fill_position p q price)
      = wrap_i64 (mp_bought_qty_lots p - mp_sold_qty_lots p)"
    using stamp_fill_net [OF old(2) qq(1) pos, of u t] net unfolding p by simp
  moreover have "mp_has_open_price (fill_position p q price)
      \<longleftrightarrow> mp_net_qty_lots (fill_position p q price) \<noteq> 0"
    by (rule fill_position_open_price) (use old qq q(2) in \<open>simp_all add: p\<close>)
  ultimately show ?thesis using t by (simp add: position_ok_def net p)
qed

lemma apply_fill_inv:
  assumes inv: "ledger_inv l" and rng: "fill_in_range f" and ap: "apply_fill l u f = (l', r)"
  shows "ledger_inv l'"
  using ap
proof (cases rule: apply_fillE)
  case rejected
  then show ?thesis using inv ledger_inv_positions [of l' l] by simp
next
  case (filled t q p)
  let ?key = "(ou_exchange u, t)" and ?p' = "fill_position p q (of_fill_price_ticks f)"
  have ok: "position_ok ?key ?p'"
    by (rule filled_position_ok [OF inv rng filled(4,5,6,3,7)])
  have "position_ok k w" if "position_of l' k = Some w" for k w
    using that ok ledger_invD(2) [OF inv, of k w] unfolding filled(8) map_of_upd
    by (auto split: if_splits)
  moreover have "distinct (map fst (pl_positions l'))"
    unfolding filled(8) using ledger_invD(1) [OF inv] by (rule distinct_upd)
  moreover have "pl_realized_pnl_ticks_total l'
      = wrap_i64 (sum_list (map (mp_realized_pnl_ticks \<circ> snd) (pl_positions l')))"
  proof -
    let ?S = "sum_list (map (mp_realized_pnl_ticks \<circ> snd) (pl_positions l))"
    have old: "(case position_of l ?key of Some w \<Rightarrow> mp_realized_pnl_ticks w | None \<Rightarrow> 0)
        = mp_realized_pnl_ticks p"
      by (simp add: filled(7) position_or_new_def MarketPositionState_default_def split: option.split)
    have sum': "sum_list (map (mp_realized_pnl_ticks \<circ> snd) (pl_positions l'))
        = ?S - mp_realized_pnl_ticks p + mp_realized_pnl_ticks ?p'"
      using old unfolding filled(8) sum_list_upd by (simp split: option.splits)
    show ?thesis
      unfolding sum' filled(9) ledger_invD(3) [OF inv]
      by (simp add: fill_position_realized i64_add_def i64_simps)
  qed
  ultimately show ?thesis unfolding ledger_inv_def by blast
qed

lemma ledger_update_inv:
  assumes "ledger_inv l" "update_in_range u"
  shows "ledger_inv (fst (ledger_on_order_update l u))"
proof (cases "ou_status u \<noteq> St_kFilled \<and> ou_status u \<noteq> St_kPartiallyFilled")
  case True
  with assms(1) show ?thesis by (simp add: ledger_on_order_update_def ledger_inv_def)
next
  case status: False
  show ?thesis
  proof (cases "ou_data u")
    case (Upd_Fill f)
    then have "ledger_inv (fst (apply_fill l u f))"
      using apply_fill_inv [OF assms(1), of f u] assms(2) by (simp add: update_in_range_def prod_eq_iff)
    with status Upd_Fill show ?thesis by (auto simp: ledger_on_order_update_def)
  qed (use status assms(1) in \<open>auto simp: ledger_on_order_update_def ledger_reject_def ledger_inv_def\<close>)
qed

text \<open>The ledger after a sequence of updates.\<close>

definition ledger_run :: "PositionLedgerCore \<Rightarrow> OrderStateUpdate list \<Rightarrow> PositionLedgerCore" where
  "ledger_run l us = fold (\<lambda>u l. fst (ledger_on_order_update l u)) us l"

lemma ledger_run_inv:
  "ledger_inv l \<Longrightarrow> list_all update_in_range us \<Longrightarrow> ledger_inv (ledger_run l us)"
  by (induction us arbitrary: l) (simp_all add: ledger_run_def ledger_update_inv)

section \<open>Accounting\<close>

text \<open>
  Under the hypothesis that the products and sums of one fill fit 64 bits, the branches compute
  exact integers.
\<close>

definition fill_exact :: "MarketPositionState \<Rightarrow> QtyLots \<Rightarrow> PriceTicks \<Rightarrow> bool" where
  "fill_exact p q price \<longleftrightarrow> (let n = mp_net_qty_lots p; a = mp_avg_open_price_ticks p in
     in_i64 (- n) \<and> in_i64 (- q) \<and> in_i64 (n + q) \<and> in_i64 a \<and> in_i64 price \<and>
     in_i64 (\<bar>n\<bar> + \<bar>q\<bar>) \<and> in_i64 (a * \<bar>n\<bar>) \<and> in_i64 (price * \<bar>q\<bar>) \<and> in_i64 (a * \<bar>n\<bar> + price * \<bar>q\<bar>) \<and>
     in_i64 (price - a) \<and> in_i64 (a - price) \<and>
     in_i64 ((price - a) * min \<bar>n\<bar> \<bar>q\<bar>) \<and> in_i64 ((a - price) * min \<bar>n\<bar> \<bar>q\<bar>) \<and>
     in_i64 (mp_realized_pnl_ticks p) \<and>
     in_i64 (mp_realized_pnl_ticks p + (price - a) * min \<bar>n\<bar> \<bar>q\<bar>) \<and>
     in_i64 (mp_realized_pnl_ticks p + (a - price) * min \<bar>n\<bar> \<bar>q\<bar>))"

text \<open>
  What a position is worth to the books: realised profit less the cost of what is open. A fill of
  signed quantity \<open>q\<close> changes it by exactly the cash it moved, \<open>- q * price\<close>, apart from the
  remainder that the average price drops when a position is extended.
\<close>

definition book_value :: "MarketPositionState \<Rightarrow> int" where
  "book_value p = mp_realized_pnl_ticks p - mp_net_qty_lots p * mp_avg_open_price_ticks p"

lemma fill_exactD:
  assumes "fill_exact p q price"
  shows "abs_qty (mp_net_qty_lots p) = \<bar>mp_net_qty_lots p\<bar>" "abs_qty q = \<bar>q\<bar>"
    "i64_add (mp_net_qty_lots p) q = mp_net_qty_lots p + q"
  using assms by (simp_all add: fill_exact_def Let_def abs_qty_eq i64_add_def wrap_in_range)

lemma in_i64_cpp_quot:
  assumes "in_i64 a" "0 < b"
  shows "in_i64 (cpp_quot a b)"
proof -
  have "- (2 ^ 63) * b \<le> - (2 ^ 63)" "2 ^ 63 - 1 \<le> (2 ^ 63 - 1) * b"
    using assms(2) by simp_all
  then have "- (2 ^ 63) * b \<le> a" "a \<le> (2 ^ 63 - 1) * b"
    using assms(1) by (simp_all add: in_i64_def)
  then show ?thesis
    using cpp_quot_between [OF assms(2), of "- (2 ^ 63)" a "2 ^ 63 - 1"] by (simp add: in_i64_def)
qed

lemma extend_exact:
  assumes "fill_exact p q price" "q \<noteq> 0"
  shows "mp_avg_open_price_ticks (extend_position p q price)
      = cpp_quot (mp_avg_open_price_ticks p * \<bar>mp_net_qty_lots p\<bar> + price * \<bar>q\<bar>) (\<bar>mp_net_qty_lots p\<bar> + \<bar>q\<bar>)"
    and "mp_net_qty_lots (extend_position p q price) = mp_net_qty_lots p + q"
    and "mp_realized_pnl_ticks (extend_position p q price) = mp_realized_pnl_ticks p"
proof -
  have "i64_add \<bar>mp_net_qty_lots p\<bar> \<bar>q\<bar> = \<bar>mp_net_qty_lots p\<bar> + \<bar>q\<bar>"
    "i64_add (i64_mul (mp_avg_open_price_ticks p) \<bar>mp_net_qty_lots p\<bar>) (i64_mul price \<bar>q\<bar>)
      = mp_avg_open_price_ticks p * \<bar>mp_net_qty_lots p\<bar> + price * \<bar>q\<bar>"
    using assms(1) by (simp_all add: fill_exact_def Let_def i64_add_def i64_mul_def wrap_in_range)
  moreover have "in_i64 (cpp_quot (mp_avg_open_price_ticks p * \<bar>mp_net_qty_lots p\<bar> + price * \<bar>q\<bar>)
      (\<bar>mp_net_qty_lots p\<bar> + \<bar>q\<bar>))"
    using assms by (intro in_i64_cpp_quot) (auto simp: fill_exact_def Let_def)
  ultimately show "mp_avg_open_price_ticks (extend_position p q price)
      = cpp_quot (mp_avg_open_price_ticks p * \<bar>mp_net_qty_lots p\<bar> + price * \<bar>q\<bar>) (\<bar>mp_net_qty_lots p\<bar> + \<bar>q\<bar>)"
    by (simp add: extend_position_def Let_def fill_exactD [OF assms(1)] i64_div_def wrap_in_range)
qed (simp_all add: extend_position_def Let_def fill_exactD [OF assms(1)])

lemma reduce_exact:
  assumes "fill_exact p q price"
  defines "n \<equiv> mp_net_qty_lots p" and "a \<equiv> mp_avg_open_price_ticks p"
  shows "mp_net_qty_lots (reduce_position p q price) = n + q"
    and "mp_realized_pnl_ticks (reduce_position p q price)
      = mp_realized_pnl_ticks p + (if n > 0 then price - a else a - price) * min \<bar>n\<bar> \<bar>q\<bar>"
    and "mp_avg_open_price_ticks (reduce_position p q price)
      = (if (n > 0 \<and> n + q < 0) \<or> (n < 0 \<and> n + q > 0) then price else a)"
proof -
  note ex = fill_exactD [OF assms(1)]
  have "reduction_pnl p q price = (if n > 0 then price - a else a - price) * min \<bar>n\<bar> \<bar>q\<bar>"
    using assms(1)
    by (cases "mp_net_qty_lots p > 0")
      (auto simp: reduction_pnl_def Let_def ex i64_mul_def i64_sub_def wrap_in_range fill_exact_def
        n_def a_def)
  then show "mp_realized_pnl_ticks (reduce_position p q price)
      = mp_realized_pnl_ticks p + (if n > 0 then price - a else a - price) * min \<bar>n\<bar> \<bar>q\<bar>"
    using assms(1)
    by (cases "mp_net_qty_lots p > 0")
      (auto simp: reduce_position_def Let_def i64_add_def wrap_in_range fill_exact_def n_def a_def)
qed (simp_all add: reduce_position_def Let_def n_def a_def fill_exactD [OF assms(1)])

lemma extend_book_value:
  assumes "fill_exact p q price" "same_direction (mp_net_qty_lots p) q"
  shows "\<bar>book_value (extend_position p q price) - (book_value p - q * price)\<bar> < \<bar>mp_net_qty_lots p + q\<bar>"
proof -
  let ?n = "mp_net_qty_lots p" and ?a = "mp_avg_open_price_ticks p"
  let ?W = "?a * \<bar>?n\<bar> + price * \<bar>q\<bar>" and ?b = "\<bar>?n\<bar> + \<bar>q\<bar>"
  have q: "q \<noteq> 0" and b: "0 < ?b" "\<bar>?n + q\<bar> = ?b" using assms(2) by (auto simp: same_direction_def)
  have "book_value (extend_position p q price) - (book_value p - q * price)
      = sgn ?n * (?W - ?b * cpp_quot ?W ?b)"
    unfolding book_value_def extend_exact [OF assms(1) q]
    using assms(2) by (auto simp: same_direction_def algebra_simps)
  moreover have "\<bar>sgn ?n * x\<bar> = \<bar>x\<bar>" for x
    using assms(2) by (auto simp: same_direction_def abs_mult)
  ultimately show ?thesis using cpp_quot_remainder [OF b(1), of ?W] b(2) by simp
qed

lemma reduce_book_value:
  assumes "fill_exact p q price" "fill_reduces p q" "q \<noteq> 0"
  shows "book_value (reduce_position p q price) = book_value p - q * price"
proof -
  let ?n = "mp_net_qty_lots p"
  consider "q = - ?n" "?n \<noteq> 0" | "?n > 0" "q < 0" "?n + q > 0" | "?n > 0" "?n + q < 0"
    | "?n < 0" "q > 0" "?n + q < 0" | "?n < 0" "?n + q > 0"
    using assms(2,3) unfolding fill_reduces_def same_direction_def by linarith
  then show ?thesis
    unfolding book_value_def reduce_exact [OF assms(1)]
    by cases (auto simp: min_def algebra_simps)
qed

section \<open>The portfolio snapshot\<close>

text \<open>Gross exposure and realised profit on one exchange, as exact integers.\<close>

definition gross_position :: "PositionLedgerCore \<Rightarrow> ExchangeId \<Rightarrow> int" where
  "gross_position l ex = sum_list (map (\<lambda>e. if fst (fst e) = ex then \<bar>mp_net_qty_lots (snd e)\<bar> else 0) (pl_positions l))"

definition net_position :: "PositionLedgerCore \<Rightarrow> MarketKey \<Rightarrow> int" where
  "net_position l key = mp_net_qty_lots (position_or_new l key)"

lemma portfolio_snapshot_fold:
  fixes ex xs s
  defines "r \<equiv> fold (portfolio_snapshot_step ex) xs s"
  shows "prs_net_position_market r = prs_net_position_market s"
    and "prs_gross_position_global r = fold (i64_acc (\<lambda>e. abs_qty (mp_net_qty_lots (snd e))))
      (filter (\<lambda>e. fst (fst e) = ex) xs) (prs_gross_position_global s)"
    and "prs_realized_pnl_ticks_total r = fold (i64_acc (\<lambda>e. mp_realized_pnl_ticks (snd e)))
      (filter (\<lambda>e. fst (fst e) = ex) xs) (prs_realized_pnl_ticks_total s)"
  unfolding r_def
  by (induction xs arbitrary: s) (simp_all add: portfolio_snapshot_step_def i64_acc_def)

lemma portfolio_risk_snapshot_eq:
  "portfolio_risk_snapshot l ex m = \<lparr> prs_net_position_market = net_position l (ex, m),
     prs_gross_position_global = wrap_i64 (sum_list (map (\<lambda>e. abs_qty (mp_net_qty_lots (snd e)))
        (filter (\<lambda>e. fst (fst e) = ex) (pl_positions l)))),
     prs_realized_pnl_ticks_total = wrap_i64 (sum_list (map (\<lambda>e. mp_realized_pnl_ticks (snd e))
        (filter (\<lambda>e. fst (fst e) = ex) (pl_positions l)))) \<rparr>"
  unfolding portfolio_risk_snapshot_def
  by (rule PortfolioRiskSnapshot.equality)
    (simp_all add: portfolio_snapshot_fold fold_i64_acc_0 net_position_def position_or_new_def
      MarketPositionState_default_def split: option.split)

lemma gross_position_nonneg: "0 \<le> gross_position l ex"
  unfolding gross_position_def by (rule sum_list_nonneg) auto

lemma gross_position_ge:
  assumes "(key, p) \<in> set (pl_positions l)" "fst key = ex"
  shows "\<bar>mp_net_qty_lots p\<bar> \<le> gross_position l ex"
proof -
  let ?g = "\<lambda>e::MarketKey \<times> MarketPositionState. if fst (fst e) = ex then \<bar>mp_net_qty_lots (snd e)\<bar> else 0"
  have "?g (key, p) \<in> set (map ?g (pl_positions l))"
    unfolding set_map by (rule imageI [OF assms(1)])
  then have "?g (key, p) \<le> gross_position l ex"
    unfolding gross_position_def by (rule member_le_sum_list) auto
  then show ?thesis using assms(2) by simp
qed

lemma net_position_le_gross: "\<bar>net_position l (ex, m)\<bar> \<le> gross_position l ex"
proof (cases "position_of l (ex, m)")
  case None
  then show ?thesis
    by (simp add: net_position_def position_or_new_def MarketPositionState_default_def gross_position_nonneg)
next
  case (Some p)
  then show ?thesis
    using gross_position_ge [of "(ex, m)" p l ex]
    by (simp add: net_position_def position_or_new_def map_of_SomeD)
qed

text \<open>The snapshot reports the exact gross exposure when it fits 64 bits.\<close>

lemma snapshot_gross_exact:
  assumes "gross_position l ex < 2 ^ 63"
  shows "prs_gross_position_global (portfolio_risk_snapshot l ex m) = gross_position l ex"
proof -
  let ?es = "filter (\<lambda>e. fst (fst e) = ex) (pl_positions l)"
  have abs: "abs_qty (mp_net_qty_lots (snd e)) = \<bar>mp_net_qty_lots (snd e)\<bar>" if "e \<in> set ?es" for e
  proof (rule abs_qty_eq)
    have "\<bar>mp_net_qty_lots (snd e)\<bar> \<le> gross_position l ex"
      using that by (intro gross_position_ge [of "fst e"]) auto
    then show "in_i64 (- mp_net_qty_lots (snd e))" using assms by (auto simp: in_i64_def)
  qed
  have "sum_list (map (\<lambda>e. abs_qty (mp_net_qty_lots (snd e))) ?es)
      = sum_list (map (\<lambda>e. \<bar>mp_net_qty_lots (snd e)\<bar>) ?es)"
    by (rule arg_cong [where f = sum_list], rule map_cong [OF refl], rule abs)
  also have "\<dots> = gross_position l ex"
    unfolding gross_position_def by (rule sum_list_map_filter')
  finally have "sum_list (map (\<lambda>e. abs_qty (mp_net_qty_lots (snd e))) ?es) = gross_position l ex" .
  moreover have "in_i64 (gross_position l ex)"
    using gross_position_nonneg [of l ex] assms by (simp add: in_i64_def)
  ultimately show ?thesis by (simp add: portfolio_risk_snapshot_eq wrap_in_range)
qed

text \<open>What a fill does to the net and the gross exposure of its exchange.\<close>

lemma apply_fill_position:
  assumes ap: "apply_fill l u f = (l', Inr ())"
    and t: "t = (if of_market_ticker f = '''' then ou_market_ticker u else of_market_ticker f)"
    and q: "q = side_to_signed_qty (of_side f) (of_fill_qty_lots f)"
  obtains p where "p = stamp_fill (position_or_new l (ou_exchange u, t)) u t f q" "q \<noteq> 0"
    "0 < of_fill_qty_lots f" "t \<noteq> ''''"
    "pl_positions l' = AList.update (ou_exchange u, t)
       (fill_position p q (of_fill_price_ticks f)) (pl_positions l)"
    "position_or_new l' (ou_exchange u, t) = fill_position p q (of_fill_price_ticks f)"
proof (rule apply_fillE [OF ap])
  fix t' q' p
  assume "t' = (if of_market_ticker f = '''' then ou_market_ticker u else of_market_ticker f)"
    "q' = side_to_signed_qty (of_side f) (of_fill_qty_lots f)"
  then have eq: "t' = t" "q' = q" using t q by simp_all
  assume "0 < of_fill_qty_lots f" "t' \<noteq> ''''" "q' \<noteq> 0"
    "p = stamp_fill (position_or_new l (ou_exchange u, t')) u t' f q'"
    "pl_positions l' = AList.update (ou_exchange u, t')
       (fill_position p q' (of_fill_price_ticks f)) (pl_positions l)"
  then show thesis unfolding eq by (intro that) (simp_all add: position_or_new_def [of l'])
qed simp

lemma fill_moves_position:
  assumes ap: "apply_fill l u f = (l', Inr ())"
    and t: "t = (if of_market_ticker f = '''' then ou_market_ticker u else of_market_ticker f)"
    and q: "q = side_to_signed_qty (of_side f) (of_fill_qty_lots f)" "in_i64 q"
    and rng: "in_i64 (net_position l (ou_exchange u, t) + q)"
  shows "net_position l' (ou_exchange u, t) = net_position l (ou_exchange u, t) + q"
    and "gross_position l' (ou_exchange u) = gross_position l (ou_exchange u)
      - \<bar>net_position l (ou_exchange u, t)\<bar> + \<bar>net_position l (ou_exchange u, t) + q\<bar>"
proof -
  let ?key = "(ou_exchange u, t)"
  obtain p where p: "p = stamp_fill (position_or_new l ?key) u t f q"
    and upd: "pl_positions l' = AList.update ?key
       (fill_position p q (of_fill_price_ticks f)) (pl_positions l)"
    and new: "position_or_new l' ?key = fill_position p q (of_fill_price_ticks f)"
    by (rule apply_fill_position [OF ap t q(1)])
  have "mp_net_qty_lots p = net_position l ?key" by (simp add: p net_position_def)
  then have net: "mp_net_qty_lots (fill_position p q (of_fill_price_ticks f)) = net_position l ?key + q"
    using fill_position_net [of p q "of_fill_price_ticks f"] q(2) rng
    by (cases "mp_net_qty_lots p = 0") (simp_all add: wrap_in_range)
  then show "net_position l' ?key = net_position l ?key + q"
    by (simp add: net_position_def [of l'] new)
  show "gross_position l' (ou_exchange u) = gross_position l (ou_exchange u)
      - \<bar>net_position l ?key\<bar> + \<bar>net_position l ?key + q\<bar>"
    unfolding gross_position_def upd sum_list_upd
    using net by (simp add: net_position_def position_or_new_def MarketPositionState_default_def
        split: option.split)
qed

lemma fill_position_book_value:
  assumes "fill_exact p q price" and "q \<noteq> 0"
  shows "\<bar>book_value (fill_position p q price) - (book_value p - q * price)\<bar>
    < (if same_direction (mp_net_qty_lots p) q then \<bar>mp_net_qty_lots (fill_position p q price)\<bar> else 1)"
proof (cases "mp_net_qty_lots p = 0")
  case True
  then show ?thesis
    by (simp add: fill_position_def open_position_def book_value_def same_direction_def)
next
  case n: False
  show ?thesis
  proof (cases "same_direction (mp_net_qty_lots p) q")
    case True
    with n show ?thesis
      using extend_book_value [OF assms(1)] extend_exact(2) [OF assms] by (simp add: fill_position_def)
  next
    case False
    with n show ?thesis
      using reduce_book_value [OF assms(1) _ assms(2)] by (simp add: fill_position_def fill_reduces_def)
  qed
qed

lemma fill_position_average:
  assumes "fill_exact p q price" and "same_direction (mp_net_qty_lots p) q"
  shows "min (mp_avg_open_price_ticks p) price \<le> mp_avg_open_price_ticks (fill_position p q price) \<and>
    mp_avg_open_price_ticks (fill_position p q price) \<le> max (mp_avg_open_price_ticks p) price"
proof -
  let ?n = "\<bar>mp_net_qty_lots p\<bar>" and ?a = "mp_avg_open_price_ticks p"
  let ?lo = "min ?a price" and ?hi = "max ?a price"
  have q: "q \<noteq> 0" "mp_net_qty_lots p \<noteq> 0" using assms(2) by (auto simp: same_direction_def)
  have "?lo * ?n \<le> ?a * ?n" "?lo * \<bar>q\<bar> \<le> price * \<bar>q\<bar>" "?a * ?n \<le> ?hi * ?n" "price * \<bar>q\<bar> \<le> ?hi * \<bar>q\<bar>"
    by (simp_all add: mult_right_mono)
  then have "?lo * (?n + \<bar>q\<bar>) \<le> ?a * ?n + price * \<bar>q\<bar>" "?a * ?n + price * \<bar>q\<bar> \<le> ?hi * (?n + \<bar>q\<bar>)"
    by (simp_all add: distrib_left)
  moreover have "0 < ?n + \<bar>q\<bar>" using q by simp
  ultimately show ?thesis
    using cpp_quot_between [of "?n + \<bar>q\<bar>" ?lo "?a * ?n + price * \<bar>q\<bar>" ?hi] q(2) assms(2)
      extend_exact(1) [OF assms(1) q(1)]
    by (simp add: fill_position_def)
qed

text \<open>The bookkeeping of a fill does not touch what the accounting looks at.\<close>

lemma stamp_fill_accounts [simp]:
  "book_value (stamp_fill p u t f q) = book_value p"
  "fill_exact (stamp_fill p u t f q) = fill_exact p"
  by (simp_all add: book_value_def fill_exact_def fun_eq_iff)

definition fill_key :: "OrderStateUpdate \<Rightarrow> OrderFill \<Rightarrow> MarketKey" where
  "fill_key u f = (ou_exchange u,
     if of_market_ticker f = '''' then ou_market_ticker u else of_market_ticker f)"

lemma apply_fill_accounts:
  assumes "apply_fill l u f = (l', Inr ())" "q = side_to_signed_qty (of_side f) (of_fill_qty_lots f)"
  obtains p where "q \<noteq> 0" "fill_exact p = fill_exact (position_or_new l (fill_key u f))"
    "book_value p = book_value (position_or_new l (fill_key u f))"
    "mp_net_qty_lots p = mp_net_qty_lots (position_or_new l (fill_key u f))"
    "mp_avg_open_price_ticks p = mp_avg_open_price_ticks (position_or_new l (fill_key u f))"
    "position_or_new l' (fill_key u f) = fill_position p q (of_fill_price_ticks f)"
proof -
  define t where "t = (if of_market_ticker f = '''' then ou_market_ticker u else of_market_ticker f)"
  then have key: "fill_key u f = (ou_exchange u, t)" by (simp add: fill_key_def)
  show thesis
    by (rule apply_fill_position [OF assms(1) t_def assms(2)]) (rule that; simp add: key)
qed

section \<open>The ledger as event sink and snapshot provider\<close>

text \<open>
  The two interfaces the rest of the system sees: \<open>IOrderEventSink\<close> (the order manager hands
  every accepted update to it) and \<open>IPortfolioRiskSnapshotProvider\<close> (the order manager asks it for
  exposure before it lets an intent out). A provider promises a snapshot made of its own exposure
  functions, and a sink that only an update of a market can move that market's exposure.
\<close>

locale order_event_sink =
  fixes on_update :: "'s \<Rightarrow> OrderStateUpdate \<Rightarrow> 's \<times> bool" and sink_inv :: "'s \<Rightarrow> bool"
    and accepts :: "OrderStateUpdate \<Rightarrow> bool"
  assumes update_inv: "sink_inv s \<Longrightarrow> accepts u \<Longrightarrow> sink_inv (fst (on_update s u))"
begin

definition deliver :: "'s \<Rightarrow> OrderStateUpdate list \<Rightarrow> 's" where
  "deliver s us = fold (\<lambda>u s. fst (on_update s u)) us s"

lemma deliver_simps [simp]:
  "deliver s [] = s" "deliver s (u # us) = deliver (fst (on_update s u)) us"
  "deliver s (us @ vs) = deliver (deliver s us) vs"
  by (simp_all add: deliver_def)

lemma deliver_inv: "sink_inv s \<Longrightarrow> list_all accepts us \<Longrightarrow> sink_inv (deliver s us)"
  by (induction us arbitrary: s) (simp_all add: update_inv)

end

locale exposure_provider = order_event_sink on_update sink_inv accepts
  for on_update :: "'s \<Rightarrow> OrderStateUpdate \<Rightarrow> 's \<times> bool" and sink_inv :: "'s \<Rightarrow> bool"
    and accepts :: "OrderStateUpdate \<Rightarrow> bool" +
  fixes snapshot :: "'s \<Rightarrow> ExchangeId \<Rightarrow> string \<Rightarrow> PortfolioRiskSnapshot"
    and exposure :: "'s \<Rightarrow> MarketKey \<Rightarrow> int"
    and market_of :: "OrderStateUpdate \<Rightarrow> MarketKey"
  assumes snapshot_net: "prs_net_position_market (snapshot s ex m) = exposure s (ex, m)"
    and update_frame: "key \<noteq> market_of u \<Longrightarrow> exposure (fst (on_update s u)) key = exposure s key"
begin

lemma deliver_frame:
  "\<forall>u \<in> set us. market_of u \<noteq> key \<Longrightarrow> exposure (deliver s us) key = exposure s key"
proof (induction us arbitrary: s)
  case (Cons u us)
  then show ?case using update_frame [of key u s] by auto
qed simp

lemma deliver_snapshot_frame:
  assumes "\<forall>u \<in> set us. market_of u \<noteq> (ex, m)"
  shows "prs_net_position_market (snapshot (deliver s us) ex m) = prs_net_position_market (snapshot s ex m)"
  using deliver_frame [OF assms] by (simp add: snapshot_net)

end

definition update_market :: "OrderStateUpdate \<Rightarrow> MarketKey" where
  "update_market u = (case ou_data u of Upd_Fill f \<Rightarrow> fill_key u f
     | _ \<Rightarrow> (ou_exchange u, ou_market_ticker u))"

lemma ledger_update_frame:
  assumes "key \<noteq> update_market u"
  shows "position_of (fst (ledger_on_order_update l u)) key = position_of l key"
proof (cases "\<exists>f. ou_data u = Upd_Fill f \<and> (ou_status u = St_kFilled \<or> ou_status u = St_kPartiallyFilled)")
  case True
  then obtain f where f: "ou_data u = Upd_Fill f"
    "ledger_on_order_update l u = apply_fill l u f" by (auto simp: ledger_on_order_update_def)
  obtain l' r where ap: "apply_fill l u f = (l', r)" by (cases "apply_fill l u f")
  from ap show ?thesis
    by (cases rule: apply_fillE) (use assms f ap in \<open>simp_all add: update_market_def fill_key_def\<close>)
next
  case False
  then show ?thesis
    by (auto simp: ledger_on_order_update_def ledger_reject_def split: OmsUpdateData.split)
qed

lemma PositionLedger_update_core [simp]:
  "led_core (fst (PositionLedger_on_order_update p u)) = fst (ledger_on_order_update (led_core p) u)"
  by (simp add: PositionLedger_on_order_update_def split: prod.split sum.split)

interpretation ledger: exposure_provider PositionLedger_on_order_update
  "\<lambda>p. ledger_inv (led_core p)" update_in_range PositionLedger_snapshot_for
  "\<lambda>p. net_position (led_core p)" update_market
proof unfold_locales
  show "ledger_inv (led_core p) \<Longrightarrow> update_in_range u \<Longrightarrow>
      ledger_inv (led_core (fst (PositionLedger_on_order_update p u)))" for p u
    by (simp add: ledger_update_inv)
  show "prs_net_position_market (PositionLedger_snapshot_for p ex m) = net_position (led_core p) (ex, m)" for p ex m
    by (simp add: PositionLedger_snapshot_for_def portfolio_risk_snapshot_eq)
  show "key \<noteq> update_market u \<Longrightarrow> net_position (led_core (fst (PositionLedger_on_order_update p u))) key
      = net_position (led_core p) key" for key u p
    by (simp add: net_position_def position_or_new_def ledger_update_frame)
qed

section \<open>Claims about the ledger\<close>

text \<open>A run used by the witnesses: three lots bought at 50, two more at 53, then seven sold at 60.\<close>

definition example_fill :: "Side \<Rightarrow> QtyLots \<Rightarrow> PriceTicks \<Rightarrow> OrderFill" where
  "example_fill s q p = \<lparr> of_client_order_id = ''A'', of_exchange_order_id = None,
     of_market_ticker = ''MKT'', of_fill_qty_lots = q, of_fill_price_ticks = p, of_side = s,
     of_liquidity = Liq_kTaker \<rparr>"

definition example_fill_update :: "Side \<Rightarrow> QtyLots \<Rightarrow> PriceTicks \<Rightarrow> OrderStateUpdate" where
  "example_fill_update s q p = \<lparr> ou_exchange = Ex_kKalshi, ou_status = St_kFilled,
     ou_client_order_id = ''A'', ou_exchange_order_id = None, ou_market_ticker = ''MKT'',
     ou_recv_ts_ns = 5, ou_data = Upd_Fill (example_fill s q p), ou_raw_payload = '''' \<rparr>"

lemmas example_fill_defs = example_fill_def example_fill_update_def

definition example_ledger :: PositionLedgerCore where
  "example_ledger = ledger_run PositionLedgerCore_new [example_fill_update Side_kBuy 3 50]"

lemma example_ledger_position:
  "position_or_new example_ledger (Ex_kKalshi, ''MKT'') = \<lparr> mp_exchange = Ex_kKalshi,
     mp_market_ticker = ''MKT'', mp_net_qty_lots = 3, mp_avg_open_price_ticks = 50,
     mp_has_open_price = True, mp_bought_qty_lots = 3, mp_sold_qty_lots = 0, mp_closed_qty_lots = 0,
     mp_realized_pnl_ticks = 0, mp_fill_count = 1, mp_last_fill_ts_ns = 5 \<rparr>"
  by (simp add: example_ledger_def ledger_run_def ledger_on_order_update_def apply_fill_def
      example_fill_defs PositionLedgerCore_new_def MarketPositionState_default_def stamp_fill_def
      open_position_def position_or_new_def ledger_reject_def i64_add_def wrap_i64_def Let_def)

lemma example_fill_applied:
  assumes "s \<in> {Side_kBuy, Side_kSell}" "0 < q" "q < 100"
  shows "snd (apply_fill example_ledger (example_fill_update s q p) (example_fill s q p)) = Inr ()"
  using assms
  by (auto simp: apply_fill_def example_fill_defs Let_def i64_neg_def wrap_in_range in_i64_def)

text \<open>
  After any sequence of order updates the ledger is consistent: one entry per exchange and
  market, net quantity equal to bought less sold (in 64-bit arithmetic), an open price exactly
  for positions that are not flat, and the running total equal to the sum of the realised profits.
  The hypothesis says that quantities and prices are 64-bit values.
\<close>

theorem ledger_consistent:
  assumes "list_all update_in_range us"
  shows "ledger_inv (ledger_run PositionLedgerCore_new us)"
  using assms by (intro ledger_run_inv) simp_all

theorem ledger_consistent_witness: "ledger_inv example_ledger"
  unfolding example_ledger_def
  by (rule ledger_consistent)
    (simp add: update_in_range_def fill_in_range_def example_fill_defs in_i64_def)

text \<open>
  C4. Cash accounting of one applied fill of signed quantity \<open>q\<close>: realised profit less the cost
  of the open position changes by exactly \<open>- q * price\<close> when the fill opens, reduces, closes or
  flips the position; when it extends the position the difference is less than one tick per lot
  of the new position, the remainder of the average-price division. The arithmetic of the fill
  is assumed to fit 64 bits.
\<close>

theorem fill_conserves_cash:
  assumes "apply_fill l u f = (l', Inr ())"
    and "q = side_to_signed_qty (of_side f) (of_fill_qty_lots f)"
    and "fill_exact (position_or_new l (fill_key u f)) q (of_fill_price_ticks f)"
  shows "\<bar>book_value (position_or_new l' (fill_key u f))
      - (book_value (position_or_new l (fill_key u f)) - q * of_fill_price_ticks f)\<bar>
    < (if same_direction (mp_net_qty_lots (position_or_new l (fill_key u f))) q
       then \<bar>mp_net_qty_lots (position_or_new l' (fill_key u f))\<bar> else 1)"
proof -
  obtain p where "q \<noteq> 0" "fill_exact p = fill_exact (position_or_new l (fill_key u f))"
    "book_value p = book_value (position_or_new l (fill_key u f))"
    "mp_net_qty_lots p = mp_net_qty_lots (position_or_new l (fill_key u f))"
    "mp_avg_open_price_ticks p = mp_avg_open_price_ticks (position_or_new l (fill_key u f))"
    "position_or_new l' (fill_key u f) = fill_position p q (of_fill_price_ticks f)"
    by (rule apply_fill_accounts [OF assms(1,2)])
  then show ?thesis
    using fill_position_book_value [of p q "of_fill_price_ticks f"] assms(3) by (simp split: if_splits)
qed

theorem fill_conserves_cash_witness:
  "\<bar>book_value (position_or_new (fst (apply_fill example_ledger (example_fill_update Side_kSell 7 60)
       (example_fill Side_kSell 7 60))) (Ex_kKalshi, ''MKT'')) - ((0 - 3 * 50) + 7 * 60)\<bar> < (1::int)"
proof -
  let ?u = "example_fill_update Side_kSell 7 60" and ?f = "example_fill Side_kSell 7 60"
  have "apply_fill example_ledger ?u ?f = (fst (apply_fill example_ledger ?u ?f), Inr ())"
    using example_fill_applied [of Side_kSell 7 60] by (simp add: prod_eq_iff)
  from fill_conserves_cash [OF this, of "- 7"] show ?thesis
    by (simp add: example_ledger_position fill_key_def example_fill_defs fill_exact_def in_i64_def
        same_direction_def book_value_def i64_neg_def wrap_i64_def)
qed

text \<open>
  A fill that extends a position keeps its average price between the old average and the
  price of the fill: the truncating 64-bit division never drifts outside the prices paid.
\<close>

theorem average_price_between:
  assumes "apply_fill l u f = (l', Inr ())"
    and "q = side_to_signed_qty (of_side f) (of_fill_qty_lots f)"
    and "fill_exact (position_or_new l (fill_key u f)) q (of_fill_price_ticks f)"
    and "same_direction (mp_net_qty_lots (position_or_new l (fill_key u f))) q"
  shows "mp_avg_open_price_ticks (position_or_new l' (fill_key u f)) \<in>
    {min (mp_avg_open_price_ticks (position_or_new l (fill_key u f))) (of_fill_price_ticks f) ..
     max (mp_avg_open_price_ticks (position_or_new l (fill_key u f))) (of_fill_price_ticks f)}"
proof -
  obtain p where "q \<noteq> 0" "fill_exact p = fill_exact (position_or_new l (fill_key u f))"
    "book_value p = book_value (position_or_new l (fill_key u f))"
    "mp_net_qty_lots p = mp_net_qty_lots (position_or_new l (fill_key u f))"
    "mp_avg_open_price_ticks p = mp_avg_open_price_ticks (position_or_new l (fill_key u f))"
    "position_or_new l' (fill_key u f) = fill_position p q (of_fill_price_ticks f)"
    by (rule apply_fill_accounts [OF assms(1,2)])
  then show ?thesis
    using fill_position_average [of p q "of_fill_price_ticks f"] assms(3,4) by simp
qed

theorem average_price_between_witness:
  "mp_avg_open_price_ticks (position_or_new (fst (apply_fill example_ledger (example_fill_update Side_kBuy 2 53)
       (example_fill Side_kBuy 2 53))) (Ex_kKalshi, ''MKT'')) \<in> {50 .. 53}"
proof -
  let ?u = "example_fill_update Side_kBuy 2 53" and ?f = "example_fill Side_kBuy 2 53"
  have "apply_fill example_ledger ?u ?f = (fst (apply_fill example_ledger ?u ?f), Inr ())"
    using example_fill_applied [of Side_kBuy 2 53] by (simp add: prod_eq_iff)
  from average_price_between [OF this, of 2] show ?thesis
    by (simp add: example_ledger_position fill_key_def example_fill_defs fill_exact_def in_i64_def
        same_direction_def)
qed

end
