(* ===== verification/Order_Manager.thy ===== *)
theory Order_Manager
  imports Order_Manager_Core Position_Ledger
begin

text \<open>
  \<open>oms/order_manager.cpp\<close>: the order manager takes intents from strategies, lets its core track
  them, and on its worker thread passes them through the two risk gates to the transport and
  feeds exchange updates to the core and the event sink. The adapter, the transport and the
  event sink are interfaces: records of functions over their own states (\<open>'t\<close> for the transport, \<open>'s\<close> for the
  event sink, whose state the portfolio snapshot provider reads too, since the ledger is both).
  A function that may throw returns the exception as a value. The clock is an argument, the idle
  sleep has no effect on the state.
\<close>

section \<open>Interfaces\<close>

datatype Thrown = Std_exception string | Other_exception

datatype OmsParseError = Ope_kNone | Ope_kInvalidJson | Ope_kMissingField | Ope_kInvalidField
  | Ope_kUnsupportedMessageType

record 'a OmsParseResult =
  opr_value :: "'a option"
  opr_error :: OmsParseError

definition oms_parse_success :: "'a \<Rightarrow> 'a OmsParseResult" where
  "oms_parse_success v = \<lparr> opr_value = Some v, opr_error = Ope_kNone \<rparr>"

definition oms_parse_failure :: "OmsParseError \<Rightarrow> 'a OmsParseResult" where
  "oms_parse_failure e = \<lparr> opr_value = None, opr_error = e \<rparr>"

record OmsAdapter =
  ad_supports :: "OrderIntent \<Rightarrow> bool"
  ad_build_request :: "OrderIntent \<Rightarrow> Thrown + string"
  ad_parse_update :: "string \<Rightarrow> OrderStateUpdate OmsParseResult"

record OrderTransportConfig =
  otc_endpoint :: string
  otc_headers :: "(string \<times> string) list"

record 't OrderTransport =
  ot_connect :: "'t \<Rightarrow> OrderTransportConfig \<Rightarrow> 't \<times> bool"
  ot_send_text :: "'t \<Rightarrow> string \<Rightarrow> 't \<times> (Thrown + bool)"
  ot_recv_text :: "'t \<Rightarrow> 't \<times> string option"
  ot_close :: "'t \<Rightarrow> 't"
  ot_last_error :: "'t \<Rightarrow> string"

record ('t, 's) OmsPorts =
  po_adapter :: OmsAdapter
  po_transport :: "'t OrderTransport"
  po_on_order_update :: "'s \<Rightarrow> OrderStateUpdate \<Rightarrow> 's \<times> bool"
  po_snapshot_for :: "('s \<Rightarrow> ExchangeId \<Rightarrow> string \<Rightarrow> PortfolioRiskSnapshot) option"

section \<open>Data\<close>

record OrderManagerConfig =
  omc_transport :: OrderTransportConfig
  omc_global_risk :: GlobalRiskConfig
  omc_portfolio_risk :: PortfolioRiskConfig

record PendingIntent =
  pi_request_id :: OrderRequestId
  pi_intent :: OrderIntent

record OrderManagerStats =
  oms_submitted_count :: u64
  oms_sent_count :: u64
  oms_send_failed_count :: u64
  oms_risk_reject_count :: u64
  oms_portfolio_risk_reject_count :: u64
  oms_receive_count :: u64
  oms_parse_failed_count :: u64
  oms_update_drop_count :: u64
  oms_transition_applied_count :: u64
  oms_transition_reject_count :: u64
  oms_unknown_order_update_count :: u64
  oms_policy_reject_count :: u64
  oms_unsupported_intent_count :: u64
  oms_pending_intent_count :: usize
  oms_tracked_order_count :: usize
  oms_active_order_count :: usize

record ('t, 's) OrderManager =
  om_transport :: 't
  om_sink :: 's
  om_config :: OrderManagerConfig
  om_core :: OrderManagerCore
  om_worker_joinable :: bool
  om_outbound_queue :: "PendingIntent list"
  om_last_error :: string
  om_running :: bool
  om_next_request_id :: OrderRequestId
  om_submitted_count :: u64
  om_sent_count :: u64
  om_send_failed_count :: u64
  om_receive_count :: u64
  om_parse_failed_count :: u64
  om_update_drop_count :: u64
  om_unsupported_intent_count :: u64

definition OrderManager_new :: "'t \<Rightarrow> 's \<Rightarrow> OrderManagerConfig \<Rightarrow> ('t, 's) OrderManager" where
  "OrderManager_new transport sink config = \<lparr> om_transport = transport, om_sink = sink, om_config = config,
     om_core = OrderManagerCore_new (omc_global_risk config) (omc_portfolio_risk config),
     om_worker_joinable = False, om_outbound_queue = [], om_last_error = '''', om_running = False,
     om_next_request_id = 1, om_submitted_count = 0, om_sent_count = 0, om_send_failed_count = 0,
     om_receive_count = 0, om_parse_failed_count = 0, om_update_drop_count = 0,
     om_unsupported_intent_count = 0 \<rparr>"

section \<open>Start and stop\<close>

definition om_start :: "('t, 's) OmsPorts \<Rightarrow> ('t, 's) OrderManager \<Rightarrow> ('t, 's) OrderManager \<times> bool" where
  "om_start ports m =
     (if om_worker_joinable m then (m, False)
      else let m = m\<lparr> om_last_error := '''', om_submitted_count := 0, om_sent_count := 0,
                 om_send_failed_count := 0, om_receive_count := 0, om_parse_failed_count := 0,
                 om_update_drop_count := 0, om_unsupported_intent_count := 0,
                 om_core := core_reset (om_core m) \<rparr>;
               r = ot_connect (po_transport ports) (om_transport m) (omc_transport (om_config m))
           in if \<not> snd r
              then (m\<lparr> om_transport := fst r, om_last_error := ot_last_error (po_transport ports) (fst r) \<rparr>, False)
              else (m\<lparr> om_transport := fst r, om_running := True, om_worker_joinable := True \<rparr>, True))"

text \<open>Both the caller and the worker, on leaving its loop, close the transport.\<close>

definition om_stop :: "('t, 's) OmsPorts \<Rightarrow> ('t, 's) OrderManager \<Rightarrow> ('t, 's) OrderManager" where
  "om_stop ports m =
     (if \<not> om_worker_joinable m then m\<lparr>om_running := False\<rparr>
      else m\<lparr> om_transport := ot_close (po_transport ports) (ot_close (po_transport ports) (om_transport m)),
              om_worker_joinable := False, om_running := False \<rparr>)"

section \<open>Submission\<close>

definition om_submit ::
    "('t, 's) OmsPorts \<Rightarrow> TimestampNs \<Rightarrow> ('t, 's) OrderManager \<Rightarrow> OrderIntent
      \<Rightarrow> ('t, 's) OrderManager \<times> OrderRequestId option" where
  "om_submit ports now m intent =
     (if \<not> om_running m then (m\<lparr>om_last_error := ''OrderManager is not running''\<rparr>, None)
      else if \<not> ad_supports (po_adapter ports) intent
      then (m\<lparr> om_unsupported_intent_count := om_unsupported_intent_count m + 1,
               om_last_error := ''Order intent is not supported by adapter'' \<rparr>, None)
      else let intent = (if oi_intent_ts_ns intent = 0 then intent\<lparr>oi_intent_ts_ns := now\<rparr> else intent);
               request_id = om_next_request_id m;
               m = m\<lparr>om_next_request_id := request_id + 1\<rparr>
           in case validate_and_track_submission (om_core m) request_id intent of
                (core, Inl core_error) \<Rightarrow> (m\<lparr>om_core := core, om_last_error := core_error\<rparr>, None)
              | (core, Inr _) \<Rightarrow>
                  (m\<lparr> om_core := core,
                      om_outbound_queue := om_outbound_queue m @ [\<lparr> pi_request_id = request_id, pi_intent = intent \<rparr>],
                      om_submitted_count := om_submitted_count m + 1 \<rparr>, Some request_id))"

definition om_stats :: "('t, 's) OrderManager \<Rightarrow> OrderManagerStats" where
  "om_stats m = (let cs = core_stats (om_core m) in \<lparr> oms_submitted_count = om_submitted_count m,
     oms_sent_count = om_sent_count m, oms_send_failed_count = om_send_failed_count m,
     oms_risk_reject_count = ocs_risk_reject_count cs,
     oms_portfolio_risk_reject_count = ocs_portfolio_risk_reject_count cs,
     oms_receive_count = om_receive_count m, oms_parse_failed_count = om_parse_failed_count m,
     oms_update_drop_count = om_update_drop_count m,
     oms_transition_applied_count = ocs_transition_applied_count cs,
     oms_transition_reject_count = ocs_transition_reject_count cs,
     oms_unknown_order_update_count = ocs_unknown_order_update_count cs,
     oms_policy_reject_count = ocs_policy_reject_count cs,
     oms_unsupported_intent_count = om_unsupported_intent_count m,
     oms_pending_intent_count = length (om_outbound_queue m),
     oms_tracked_order_count = ocs_tracked_order_count cs,
     oms_active_order_count = ocs_active_order_count cs \<rparr>)"

definition om_in_flight_order :: "('t, 's) OrderManager \<Rightarrow> string \<Rightarrow> InFlightOrderSnapshot option" where
  "om_in_flight_order m client_order_id = in_flight_order (om_core m) client_order_id"

section \<open>The worker\<close>

text \<open>An update the core accepted goes to the event sink; a refusal is counted as a drop.\<close>

definition forward_update ::
    "('t, 's) OmsPorts \<Rightarrow> OrderStateUpdate \<Rightarrow> ('t, 's) OrderManager \<Rightarrow> ('t, 's) OrderManager" where
  "forward_update ports u m =
     (let r = po_on_order_update ports (om_sink m) u
      in m\<lparr> om_sink := fst r, om_update_drop_count :=
              (if snd r then om_update_drop_count m else om_update_drop_count m + 1) \<rparr>)"

text \<open>
  A gate said no: the reject update is applied to the core and, if that worked, forwarded with
  the gate's reason as the last error; otherwise it is dropped with the core's error.
\<close>

definition reject_intent ::
    "('t, 's) OmsPorts \<Rightarrow> TimestampNs \<Rightarrow> OrderStateUpdate \<Rightarrow> string \<Rightarrow> ('t, 's) OrderManager \<Rightarrow> ('t, 's) OrderManager" where
  "reject_intent ports now risk_reject_update reason m =
     (case apply_update_transition now (om_core m) risk_reject_update of
        (core, u, Inl core_error) \<Rightarrow>
          m\<lparr>om_core := core, om_update_drop_count := om_update_drop_count m + 1, om_last_error := core_error\<rparr>
      | (core, u, Inr _) \<Rightarrow> forward_update ports u (m\<lparr>om_core := core, om_last_error := reason\<rparr>))"

definition send_intent ::
    "('t, 's) OmsPorts \<Rightarrow> OrderIntent \<Rightarrow> ('t, 's) OrderManager \<Rightarrow> ('t, 's) OrderManager" where
  "send_intent ports intent m =
     (let thrown = (\<lambda>e. case e of Std_exception what \<Rightarrow> what
                      | Other_exception \<Rightarrow> ''Unknown error building OMS request'');
          failed = m\<lparr>om_send_failed_count := om_send_failed_count m + 1\<rparr>
      in case ad_build_request (po_adapter ports) intent of
           Inl e \<Rightarrow> failed\<lparr>om_last_error := thrown e\<rparr>
         | Inr payload \<Rightarrow>
             (case ot_send_text (po_transport ports) (om_transport m) payload of
                (t, Inl e) \<Rightarrow> failed\<lparr>om_transport := t, om_last_error := thrown e\<rparr>
              | (t, Inr False) \<Rightarrow>
                  failed\<lparr>om_transport := t, om_last_error := ot_last_error (po_transport ports) t\<rparr>
              | (t, Inr True) \<Rightarrow> m\<lparr>om_transport := t, om_sent_count := om_sent_count m + 1\<rparr>))"

text \<open>One round of the loop over the drained intents.\<close>

definition process_intent ::
    "('t, 's) OmsPorts \<Rightarrow> TimestampNs \<Rightarrow> PendingIntent \<Rightarrow> ('t, 's) OrderManager \<Rightarrow> ('t, 's) OrderManager" where
  "process_intent ports now pending m =
     (let intent = pi_intent pending in
      case evaluate_global_risk (om_core m) intent of
        (core, Some decision) \<Rightarrow>
          reject_intent ports now (make_global_risk_reject_update now intent decision)
            (grd_reason_message decision) (m\<lparr>om_core := core\<rparr>)
      | (core, None) \<Rightarrow>
          (let m = m\<lparr>om_core := core\<rparr> in
           case po_snapshot_for ports of
             None \<Rightarrow> send_intent ports intent m
           | Some snapshot_for \<Rightarrow>
               (case evaluate_portfolio_risk (om_core m) intent
                       (snapshot_for (om_sink m) (oi_exchange intent) (oi_market_ticker intent)) of
                  (core, Some decision) \<Rightarrow>
                    reject_intent ports now (make_portfolio_risk_reject_update now intent decision)
                      (prd_reason_message decision) (m\<lparr>om_core := core\<rparr>)
                | (core, None) \<Rightarrow> send_intent ports intent (m\<lparr>om_core := core\<rparr>))))"

definition drain_outbound_intents ::
    "('t, 's) OmsPorts \<Rightarrow> TimestampNs \<Rightarrow> ('t, 's) OrderManager \<Rightarrow> ('t, 's) OrderManager \<times> usize" where
  "drain_outbound_intents ports now m =
     (if om_outbound_queue m = [] then (m, 0)
      else (fold (process_intent ports now) (om_outbound_queue m) (m\<lparr>om_outbound_queue := []\<rparr>),
            length (om_outbound_queue m)))"

definition pump_incoming_update ::
    "('t, 's) OmsPorts \<Rightarrow> TimestampNs \<Rightarrow> ('t, 's) OrderManager \<Rightarrow> ('t, 's) OrderManager \<times> bool" where
  "pump_incoming_update ports now m =
     (case ot_recv_text (po_transport ports) (om_transport m) of
        (t, None) \<Rightarrow> (m\<lparr>om_transport := t\<rparr>, False)
      | (t, Some payload) \<Rightarrow>
          let m = m\<lparr>om_transport := t, om_receive_count := om_receive_count m + 1\<rparr> in
          case opr_value (ad_parse_update (po_adapter ports) payload) of
            None \<Rightarrow> (m\<lparr>om_parse_failed_count := om_parse_failed_count m + 1\<rparr>, True)
          | Some parsed_update \<Rightarrow>
              (case apply_update_transition now (om_core m) parsed_update of
                 (core, u, Inl core_error) \<Rightarrow>
                   (m\<lparr>om_core := core, om_update_drop_count := om_update_drop_count m + 1,
                      om_last_error := core_error\<rparr>, True)
               | (core, u, Inr _) \<Rightarrow> (forward_update ports u (m\<lparr>om_core := core\<rparr>), True)))"

text \<open>
  The loop of the worker. A round drains and then receives once; it reports whether the worker sleeps before
  the next one. The rounds go on until a stop is requested; then the worker closes the transport.
\<close>

definition om_worker_round ::
    "('t, 's) OmsPorts \<Rightarrow> TimestampNs \<times> TimestampNs \<Rightarrow> ('t, 's) OrderManager \<Rightarrow> ('t, 's) OrderManager \<times> bool" where
  "om_worker_round ports clock m =
     (let drained = drain_outbound_intents ports (fst clock) m;
          received = pump_incoming_update ports (snd clock) (fst drained)
      in (fst received, snd drained = 0 \<and> \<not> snd received))"

definition om_worker_exit :: "('t, 's) OmsPorts \<Rightarrow> ('t, 's) OrderManager \<Rightarrow> ('t, 's) OrderManager" where
  "om_worker_exit ports m = m\<lparr> om_transport := ot_close (po_transport ports) (om_transport m), om_running := False \<rparr>"

fun om_run :: "('t, 's) OmsPorts \<Rightarrow> (TimestampNs \<times> TimestampNs) list \<Rightarrow> ('t, 's) OrderManager \<Rightarrow> ('t, 's) OrderManager" where
  "om_run ports [] m = om_worker_exit ports m"
| "om_run ports (clock # clocks) m = om_run ports clocks (fst (om_worker_round ports clock m))"

section \<open>Facts about the parts\<close>

lemma apply_update_counts:
  assumes "apply_update_transition now c u = (c', u', r)"
  shows "oc_risk_reject_count c' = oc_risk_reject_count c"
    and "oc_portfolio_risk_reject_count c' = oc_portfolio_risk_reject_count c"
  using assms
  by (auto simp: apply_update_transition_def Let_def split: option.splits prod.splits if_splits)

lemma validate_counts:
  assumes "validate_and_track_submission c rid i = (c', r)"
  shows "oc_risk_reject_count c' = oc_risk_reject_count c"
    and "oc_portfolio_risk_reject_count c' = oc_portfolio_risk_reject_count c"
  using assms by (cases rule: validate_trackE; simp add: track_def)+

lemma evaluate_counts:
  "oc_risk_reject_count (fst (evaluate_global_risk c i))
     = oc_risk_reject_count c + (if snd (evaluate_global_risk c i) = None then 0 else 1)"
  "oc_portfolio_risk_reject_count (fst (evaluate_global_risk c i)) = oc_portfolio_risk_reject_count c"
  "oc_portfolio_risk_reject_count (fst (evaluate_portfolio_risk c i s))
     = oc_portfolio_risk_reject_count c + (if snd (evaluate_portfolio_risk c i s) = None then 0 else 1)"
  "oc_risk_reject_count (fst (evaluate_portfolio_risk c i s)) = oc_risk_reject_count c"
  by (simp_all add: evaluate_global_risk_def evaluate_portfolio_risk_def Let_def)

lemma forward_update_frame [simp]:
  "om_core (forward_update ports u m) = om_core m" "om_transport (forward_update ports u m) = om_transport m"
  "om_outbound_queue (forward_update ports u m) = om_outbound_queue m"
  "om_sent_count (forward_update ports u m) = om_sent_count m"
  "om_send_failed_count (forward_update ports u m) = om_send_failed_count m"
  "om_submitted_count (forward_update ports u m) = om_submitted_count m"
  "om_sink (forward_update ports u m) = fst (po_on_order_update ports (om_sink m) u)"
  by (simp_all add: forward_update_def Let_def)

text \<open>Rejecting: the core takes one update step, and either the sink gets the update or nothing.\<close>

lemma reject_intent_effect:
  fixes ports :: "('t, 's) OmsPorts"
  assumes "apply_update_transition now (om_core m) u = (core, u', r)"
  shows "om_core (reject_intent ports now u reason m) = core"
    and "om_transport (reject_intent ports now u reason m) = om_transport m"
    and "om_outbound_queue (reject_intent ports now u reason m) = om_outbound_queue m"
    and "om_sent_count (reject_intent ports now u reason m) = om_sent_count m"
    and "om_send_failed_count (reject_intent ports now u reason m) = om_send_failed_count m"
    and "om_submitted_count (reject_intent ports now u reason m) = om_submitted_count m"
    and "om_sink (reject_intent ports now u reason m)
      = (if r = Inr () then fst (po_on_order_update ports (om_sink m) u') else om_sink m)"
  using assms by (cases r; simp add: reject_intent_def)+

lemma send_intent_frame [simp]:
  "om_core (send_intent ports i m) = om_core m" "om_sink (send_intent ports i m) = om_sink m"
  "om_outbound_queue (send_intent ports i m) = om_outbound_queue m"
  "om_submitted_count (send_intent ports i m) = om_submitted_count m"
  by (simp_all add: send_intent_def Let_def split: sum.split prod.split bool.split)

lemma send_intent_counts:
  "om_sent_count (send_intent ports i m) + om_send_failed_count (send_intent ports i m)
     = om_sent_count m + om_send_failed_count m + 1"
  by (auto simp: send_intent_def Let_def split: sum.split prod.split bool.split)

lemma send_intent_transport:
  "om_transport (send_intent ports i m) = (case ad_build_request (po_adapter ports) i of
     Inl e \<Rightarrow> om_transport m
   | Inr payload \<Rightarrow> fst (ot_send_text (po_transport ports) (om_transport m) payload))"
  by (auto simp: send_intent_def Let_def split: sum.split prod.split bool.split)

section \<open>Outcomes of processing an intent\<close>

definition portfolio_check ::
    "('t, 's) OmsPorts \<Rightarrow> ('t, 's) OrderManager \<Rightarrow> OrderIntent \<Rightarrow> PortfolioRiskDecision option" where
  "portfolio_check ports m i = (case po_snapshot_for ports of None \<Rightarrow> None
     | Some f \<Rightarrow> snd (evaluate_portfolio_risk (om_core m) i (f (om_sink m) (oi_exchange i) (oi_market_ticker i))))"

lemma evaluate_global_pass: "snd (evaluate_global_risk c i) = None \<Longrightarrow> evaluate_global_risk c i = (c, None)"
  by (auto simp: evaluate_global_risk_def Let_def split: if_splits)

lemma evaluate_portfolio_pass: "snd (evaluate_portfolio_risk c i s) = None \<Longrightarrow> evaluate_portfolio_risk c i s = (c, None)"
  by (auto simp: evaluate_portfolio_risk_def Let_def split: if_splits)

lemma process_intentE:
  fixes ports :: "('t, 's) OmsPorts" and pending :: PendingIntent
  defines "i \<equiv> pi_intent pending"
  obtains (global) decision core where "evaluate_global_risk (om_core m) i = (core, Some decision)"
      "process_intent ports now pending m = reject_intent ports now
         (make_global_risk_reject_update now i decision) (grd_reason_message decision) (m\<lparr>om_core := core\<rparr>)"
    | (portfolio) f decision core where "snd (evaluate_global_risk (om_core m) i) = None"
      "po_snapshot_for ports = Some f"
      "evaluate_portfolio_risk (om_core m) i (f (om_sink m) (oi_exchange i) (oi_market_ticker i)) = (core, Some decision)"
      "process_intent ports now pending m = reject_intent ports now
         (make_portfolio_risk_reject_update now i decision) (prd_reason_message decision) (m\<lparr>om_core := core\<rparr>)"
    | (sent) "snd (evaluate_global_risk (om_core m) i) = None" "portfolio_check ports m i = None"
      "process_intent ports now pending m = send_intent ports i m"
proof (cases "snd (evaluate_global_risk (om_core m) i)")
  case (Some decision)
  obtain core where "evaluate_global_risk (om_core m) i = (core, Some decision)"
    using Some by (cases "evaluate_global_risk (om_core m) i") simp
  then show ?thesis by (intro global) (simp_all add: process_intent_def i_def)
next
  case None
  note pass = evaluate_global_pass [OF None]
  show ?thesis
  proof (cases "po_snapshot_for ports")
    case no: None
    show ?thesis
      by (rule sent) (use None pass no in \<open>simp_all add: portfolio_check_def process_intent_def i_def\<close>)
  next
    case (Some f)
    let ?s = "f (om_sink m) (oi_exchange i) (oi_market_ticker i)"
    obtain core d where res: "evaluate_portfolio_risk (om_core m) i ?s = (core, d)" by fastforce
    show ?thesis
    proof (cases d)
      case no: None
      then have "core = om_core m" using res evaluate_portfolio_pass [of "om_core m" i ?s] by simp
      then show ?thesis
        using None pass Some res no
        by (intro sent) (simp_all add: portfolio_check_def process_intent_def i_def)
    next
      case (Some decision)
      with None pass \<open>po_snapshot_for ports = Some f\<close> res show ?thesis
        by (intro portfolio) (simp_all add: process_intent_def i_def)
    qed
  qed
qed


section \<open>The running system\<close>

text \<open>
  Strategy threads submit while the worker alternates between taking the whole outbound queue,
  processing what it took one by one, and receiving updates. \<open>sy_local\<close> is the worker's local deque.
\<close>

record ('t, 's) OmsSystem =
  sy_manager :: "('t, 's) OrderManager"
  sy_local :: "PendingIntent list"

inductive om_step :: "('t, 's) OmsPorts \<Rightarrow> ('t, 's) OmsSystem \<Rightarrow> ('t, 's) OmsSystem \<Rightarrow> bool" for ports where
  submit: "om_submit ports now (sy_manager s) intent = (m', r) \<Longrightarrow> om_step ports s (s\<lparr>sy_manager := m'\<rparr>)"
| swap: "sy_local s = [] \<Longrightarrow> om_step ports s (s\<lparr> sy_local := om_outbound_queue (sy_manager s),
     sy_manager := (sy_manager s)\<lparr>om_outbound_queue := []\<rparr> \<rparr>)"
| process: "sy_local s = pending # rest \<Longrightarrow>
    om_step ports s (s\<lparr> sy_local := rest, sy_manager := process_intent ports now pending (sy_manager s) \<rparr>)"
| receive: "sy_local s = [] \<Longrightarrow> pump_incoming_update ports now (sy_manager s) = (m', b) \<Longrightarrow>
    om_step ports s (s\<lparr>sy_manager := m'\<rparr>)"

inductive_cases om_stepE: "om_step ports s s'"

text \<open>The core only moves by its own operations.\<close>

lemma submit_core:
  assumes "om_submit ports now m i = (m', r)"
  shows "core_step\<^sup>*\<^sup>* (om_core m) (om_core m')"
  using assms
  by (auto simp: om_submit_def Let_def split: if_splits prod.splits sum.splits dest: core_step.step_submit)

lemma process_intent_core: "core_step\<^sup>*\<^sup>* (om_core m) (om_core (process_intent ports now pending m))"
proof (rule process_intentE [of m pending ports now])
  fix decision core
  let ?i = "pi_intent pending"
  assume eval: "evaluate_global_risk (om_core m) ?i = (core, Some decision)"
    and proc: "process_intent ports now pending m = reject_intent ports now
         (make_global_risk_reject_update now ?i decision) (grd_reason_message decision) (m\<lparr>om_core := core\<rparr>)"
  obtain c' u' r where upd: "apply_update_transition now core (make_global_risk_reject_update now ?i decision) = (c', u', r)"
    by (metis prod_cases3)
  then have "om_core (process_intent ports now pending m) = c'"
    by (simp add: proc reject_intent_effect [where m = "m\<lparr>om_core := core\<rparr>"])
  with core_step.step_global [OF eval] core_step.step_update [OF upd] show ?thesis by auto
next
  fix f decision core
  let ?i = "pi_intent pending"
  assume eval: "evaluate_portfolio_risk (om_core m) ?i (f (om_sink m) (oi_exchange ?i) (oi_market_ticker ?i)) = (core, Some decision)"
    and proc: "process_intent ports now pending m = reject_intent ports now
         (make_portfolio_risk_reject_update now ?i decision) (prd_reason_message decision) (m\<lparr>om_core := core\<rparr>)"
  obtain c' u' r where upd: "apply_update_transition now core (make_portfolio_risk_reject_update now ?i decision) = (c', u', r)"
    by (metis prod_cases3)
  then have "om_core (process_intent ports now pending m) = c'"
    by (simp add: proc reject_intent_effect [where m = "m\<lparr>om_core := core\<rparr>"])
  with core_step.step_portfolio [OF eval] core_step.step_update [OF upd] show ?thesis by auto
qed simp

lemma pump_core:
  assumes "pump_incoming_update ports now m = (m', b)"
  shows "core_step\<^sup>*\<^sup>* (om_core m) (om_core m')"
  using assms
  by (auto simp: pump_incoming_update_def Let_def split: prod.splits option.splits sum.splits
      dest: core_step.step_update)

lemma om_step_core: "om_step ports s s' \<Longrightarrow> core_step\<^sup>*\<^sup>* (om_core (sy_manager s)) (om_core (sy_manager s'))"
  by (erule om_stepE) (auto simp: submit_core process_intent_core pump_core)

lemma om_steps_core:
  "(om_step ports)\<^sup>*\<^sup>* s s' \<Longrightarrow> core_step\<^sup>*\<^sup>* (om_core (sy_manager s)) (om_core (sy_manager s'))"
  by (induction rule: rtranclp_induct) (auto intro: rtranclp_trans om_step_core)

section \<open>Accounting of intents\<close>

definition finished_intents :: "('t, 's) OrderManager \<Rightarrow> u64" where
  "finished_intents m = om_sent_count m + om_send_failed_count m
     + oc_risk_reject_count (om_core m) + oc_portfolio_risk_reject_count (om_core m)"

definition intents_accounted :: "('t, 's) OmsSystem \<Rightarrow> bool" where
  "intents_accounted s \<longleftrightarrow> om_submitted_count (sy_manager s) = finished_intents (sy_manager s)
     + of_nat (length (sy_local s)) + of_nat (length (om_outbound_queue (sy_manager s)))"

lemma process_intent_frame:
  "om_outbound_queue (process_intent ports now pending m) = om_outbound_queue m"
  "om_submitted_count (process_intent ports now pending m) = om_submitted_count m"
  by (auto simp: process_intent_def reject_intent_def Let_def split: prod.split option.split sum.split)

lemma process_intent_finishes:
  "finished_intents (process_intent ports now pending m) = finished_intents m + 1"
proof (rule process_intentE [of m pending ports now])
  fix decision core
  let ?i = "pi_intent pending"
  assume eval: "evaluate_global_risk (om_core m) ?i = (core, Some decision)"
    and proc: "process_intent ports now pending m = reject_intent ports now
         (make_global_risk_reject_update now ?i decision) (grd_reason_message decision) (m\<lparr>om_core := core\<rparr>)"
  obtain c' u' r where upd: "apply_update_transition now core (make_global_risk_reject_update now ?i decision) = (c', u', r)"
    by (metis prod_cases3)
  note eff = reject_intent_effect [where m = "m\<lparr>om_core := core\<rparr>", simplified, OF upd]
  show ?thesis
    using evaluate_counts(1,2) [of "om_core m" ?i] eval apply_update_counts [OF upd]
    by (simp add: proc finished_intents_def eff)
next
  fix f decision core
  let ?i = "pi_intent pending"
  assume eval: "evaluate_portfolio_risk (om_core m) ?i (f (om_sink m) (oi_exchange ?i) (oi_market_ticker ?i)) = (core, Some decision)"
    and proc: "process_intent ports now pending m = reject_intent ports now
         (make_portfolio_risk_reject_update now ?i decision) (prd_reason_message decision) (m\<lparr>om_core := core\<rparr>)"
  obtain c' u' r where upd: "apply_update_transition now core (make_portfolio_risk_reject_update now ?i decision) = (c', u', r)"
    by (metis prod_cases3)
  note eff = reject_intent_effect [where m = "m\<lparr>om_core := core\<rparr>", simplified, OF upd]
  show ?thesis
    using evaluate_counts(3,4) [of "om_core m" ?i "f (om_sink m) (oi_exchange ?i) (oi_market_ticker ?i)"] eval apply_update_counts [OF upd]
    by (simp add: proc finished_intents_def eff)
next
  assume "process_intent ports now pending m = send_intent ports (pi_intent pending) m"
  then show ?thesis
    using send_intent_counts [of ports "pi_intent pending" m] by (simp add: finished_intents_def)
qed

lemma submit_accounts:
  assumes "om_submit ports now m i = (m', r)"
  shows "finished_intents m' = finished_intents m \<and>
    om_submitted_count m' - of_nat (length (om_outbound_queue m')) = om_submitted_count m - of_nat (length (om_outbound_queue m))"
  using assms
  by (auto simp: om_submit_def Let_def finished_intents_def validate_counts
      split: if_splits prod.splits sum.splits)

lemma pump_accounts:
  assumes "pump_incoming_update ports now m = (m', b)"
  shows "finished_intents m' = finished_intents m \<and> om_submitted_count m' = om_submitted_count m \<and>
    om_outbound_queue m' = om_outbound_queue m"
  using assms
  by (auto simp: pump_incoming_update_def Let_def finished_intents_def apply_update_counts
      split: prod.splits option.splits sum.splits)

lemma om_step_accounts: "om_step ports s s' \<Longrightarrow> intents_accounted s \<Longrightarrow> intents_accounted s'"
proof (induction rule: om_step.induct)
  case (submit now s intent m' r)
  then show ?case using submit_accounts [of ports now "sy_manager s" intent m' r]
    by (simp add: intents_accounted_def algebra_simps)
next
  case (swap s)
  then show ?case by (simp add: intents_accounted_def finished_intents_def)
next
  case (process s pending rest now)
  then show ?case
    by (simp add: intents_accounted_def process_intent_frame process_intent_finishes)
next
  case (receive s now m' b)
  then show ?case using pump_accounts [of ports now "sy_manager s" m' b]
    by (simp add: intents_accounted_def)
qed

lemma om_steps_accounts: "(om_step ports)\<^sup>*\<^sup>* s s' \<Longrightarrow> intents_accounted s \<Longrightarrow> intents_accounted s'"
  by (induction rule: rtranclp_induct) (auto intro: om_step_accounts)


section \<open>The worker loop as steps\<close>

text \<open>
  Undisturbed, the worker's loop is a run of the system: a drain is a swap and one step for each intent
  taken, in the order of submission.
\<close>

lemma process_all_run: "(om_step ports)\<^sup>*\<^sup>* \<lparr> sy_manager = m, sy_local = ps \<rparr>
    \<lparr> sy_manager = fold (process_intent ports now) ps m, sy_local = [] \<rparr>"
proof (induction ps arbitrary: m)
  case (Cons p ps)
  have "om_step ports \<lparr> sy_manager = m, sy_local = p # ps \<rparr> \<lparr> sy_manager = process_intent ports now p m, sy_local = ps \<rparr>"
    using om_step.process [of "\<lparr> sy_manager = m, sy_local = p # ps \<rparr>" p ps ports now] by simp
  with Cons show ?case by (auto intro: converse_rtranclp_into_rtranclp)
qed simp

lemma process_all_finishes:
  "finished_intents (fold (process_intent ports now) ps m) = finished_intents m + of_nat (length ps)"
  "om_outbound_queue (fold (process_intent ports now) ps m) = om_outbound_queue m"
  by (induction ps arbitrary: m) (simp_all add: process_intent_finishes process_intent_frame)

lemma drain_run:
  "(om_step ports)\<^sup>*\<^sup>* \<lparr> sy_manager = m, sy_local = [] \<rparr> \<lparr> sy_manager = fst (drain_outbound_intents ports now m), sy_local = [] \<rparr>"
proof (cases "om_outbound_queue m = []")
  case False
  have "om_step ports \<lparr> sy_manager = m, sy_local = [] \<rparr> \<lparr> sy_manager = m\<lparr>om_outbound_queue := []\<rparr>, sy_local = om_outbound_queue m \<rparr>"
    using om_step.swap [of "\<lparr> sy_manager = m, sy_local = [] \<rparr>" ports] by simp
  from converse_rtranclp_into_rtranclp [where r = "om_step ports", OF this process_all_run] False show ?thesis
    by (simp add: drain_outbound_intents_def)
qed (simp add: drain_outbound_intents_def)

lemma drain_finishes:
  "om_outbound_queue (fst (drain_outbound_intents ports now m)) = []"
  "finished_intents (fst (drain_outbound_intents ports now m)) = finished_intents m + of_nat (length (om_outbound_queue m))"
  "snd (drain_outbound_intents ports now m) = length (om_outbound_queue m)"
  by (simp_all add: drain_outbound_intents_def process_all_finishes) (simp add: finished_intents_def)

lemma worker_round_run:
  "(om_step ports)\<^sup>*\<^sup>* \<lparr> sy_manager = m, sy_local = [] \<rparr> \<lparr> sy_manager = fst (om_worker_round ports clock m), sy_local = [] \<rparr>"
proof -
  let ?m = "fst (drain_outbound_intents ports (fst clock) m)"
  have "om_step ports \<lparr> sy_manager = ?m, sy_local = [] \<rparr> \<lparr> sy_manager = fst (om_worker_round ports clock m), sy_local = [] \<rparr>"
    using om_step.receive [of "\<lparr> sy_manager = ?m, sy_local = [] \<rparr>" ports "snd clock"]
    by (cases "pump_incoming_update ports (snd clock) ?m") (simp add: om_worker_round_def Let_def)
  then show ?thesis by (rule rtranclp.rtrancl_into_rtrancl [where r = "om_step ports", OF drain_run])
qed

lemma om_run_steps:
  "\<exists>m'. (om_step ports)\<^sup>*\<^sup>* \<lparr> sy_manager = m, sy_local = [] \<rparr> \<lparr> sy_manager = m', sy_local = [] \<rparr> \<and>
    om_run ports clocks m = om_worker_exit ports m'"
proof (induction clocks arbitrary: m)
  case (Cons clock clocks)
  from Cons [of "fst (om_worker_round ports clock m)"] obtain m' where
    "(om_step ports)\<^sup>*\<^sup>* \<lparr> sy_manager = fst (om_worker_round ports clock m), sy_local = [] \<rparr> \<lparr> sy_manager = m', sy_local = [] \<rparr>"
    "om_run ports (clock # clocks) m = om_worker_exit ports m'" by auto
  with worker_round_run [of ports m clock] show ?case by (meson rtranclp_trans)
qed auto

text \<open>Stopping is the caller's close, the end of the worker's loop and the join.\<close>

lemma om_stop_joins:
  assumes "om_worker_joinable m"
  shows "om_stop ports m = (om_run ports [] (m\<lparr>om_transport := ot_close (po_transport ports) (om_transport m)\<rparr>))\<lparr>om_worker_joinable := False\<rparr>"
  using assms by (simp add: om_stop_def om_worker_exit_def)

section \<open>The event sink under the order manager\<close>

text \<open>
  What the manager needs of an event sink to keep the sink's invariant: the sink accepts whatever
  the core forwards of an acceptable update, and every reject the gates produce.
\<close>

locale oms_event_sink = order_event_sink on_update sink_inv accepts
  for on_update :: "'s \<Rightarrow> OrderStateUpdate \<Rightarrow> 's \<times> bool" and sink_inv :: "'s \<Rightarrow> bool"
    and accepts :: "OrderStateUpdate \<Rightarrow> bool" +
  assumes accepts_forwarded: "accepts u \<Longrightarrow> apply_update_transition now c u = (c', u', r) \<Longrightarrow> accepts u'"
    and accepts_rejects: "ou_data u = Upd_Reject rej \<Longrightarrow> accepts u"
begin

lemma reject_intent_sink:
  assumes "po_on_order_update ports = on_update" "sink_inv (om_sink m)" "accepts u"
  shows "sink_inv (om_sink (reject_intent ports now u reason m))"
proof -
  obtain c' u' r where upd: "apply_update_transition now (om_core m) u = (c', u', r)" by (metis prod_cases3)
  then have "accepts u'" using accepts_forwarded assms(3) by blast
  then show ?thesis
    using update_inv assms(1,2) by (simp add: reject_intent_effect(7) [OF upd])
qed

lemma process_intent_sink:
  assumes "po_on_order_update ports = on_update" "sink_inv (om_sink m)"
  shows "sink_inv (om_sink (process_intent ports now pending m))"
proof (rule process_intentE [of m pending ports now])
  fix decision core
  assume "process_intent ports now pending m = reject_intent ports now
     (make_global_risk_reject_update now (pi_intent pending) decision) (grd_reason_message decision) (m\<lparr>om_core := core\<rparr>)"
  then show ?thesis
    using reject_intent_sink [of ports "m\<lparr>om_core := core\<rparr>"] assms accepts_rejects
    by (simp add: make_global_risk_reject_update_def)
next
  fix decision core
  assume "process_intent ports now pending m = reject_intent ports now
     (make_portfolio_risk_reject_update now (pi_intent pending) decision) (prd_reason_message decision) (m\<lparr>om_core := core\<rparr>)"
  then show ?thesis
    using reject_intent_sink [of ports "m\<lparr>om_core := core\<rparr>"] assms accepts_rejects
    by (simp add: make_portfolio_risk_reject_update_def)
qed (use assms in simp)

lemma pump_sink:
  assumes "po_on_order_update ports = on_update" "sink_inv (om_sink m)"
    and "\<And>payload u. opr_value (ad_parse_update (po_adapter ports) payload) = Some u \<Longrightarrow> accepts u"
    and "pump_incoming_update ports now m = (m', b)"
  shows "sink_inv (om_sink m')"
proof -
  have "sink_inv (fst (on_update (om_sink m) u'))"
    if "opr_value (ad_parse_update (po_adapter ports) p) = Some u"
      "apply_update_transition now (om_core m) u = (c', u', r)" for p u c' u' r
    using update_inv [OF assms(2)] accepts_forwarded [OF assms(3) [OF that(1)] that(2)] by blast
  then show ?thesis
    using assms(4,1,2)
    by (auto simp: pump_incoming_update_def Let_def split: prod.splits option.splits sum.splits)
qed

lemma om_step_sink:
  assumes "om_step ports s s'" "po_on_order_update ports = on_update" "sink_inv (om_sink (sy_manager s))"
    and "\<And>payload u. opr_value (ad_parse_update (po_adapter ports) payload) = Some u \<Longrightarrow> accepts u"
  shows "sink_inv (om_sink (sy_manager s'))"
  using assms
proof (cases rule: om_step.cases)
  case (submit now intent m' r)
  then have "om_sink m' = om_sink (sy_manager s)"
    by (auto simp: om_submit_def Let_def split: if_splits prod.splits sum.splits)
  with submit assms(3) show ?thesis by simp
next
  case (receive now m' b)
  then show ?thesis using pump_sink [OF assms(2,3,4) receive(3)] by simp
qed (use assms in \<open>simp_all add: process_intent_sink\<close>)

lemma om_steps_sink:
  assumes "(om_step ports)\<^sup>*\<^sup>* s s'" "po_on_order_update ports = on_update" "sink_inv (om_sink (sy_manager s))"
    and "\<And>payload u. opr_value (ad_parse_update (po_adapter ports) payload) = Some u \<Longrightarrow> accepts u"
  shows "sink_inv (om_sink (sy_manager s'))"
  using assms(1)
proof (induction rule: rtranclp_induct)
  case base
  show ?case by (rule assms(3))
next
  case (step y z)
  show ?case by (rule om_step_sink [OF step(2) assms(2) step(3)]) (rule assms(4))
qed

end

lemma forwarded_in_range:
  assumes "update_in_range u" "apply_update_transition now c u = (c', u', r)"
  shows "update_in_range u'"
  using assms(2)
proof (cases rule: apply_updateE)
  case rejected
  with assms(1) show ?thesis by simp
qed (use assms(1) in \<open>auto simp: transition_order_forwarded enriched_data_def enrich_fill_def
  update_in_range_def fill_in_range_def split: OmsUpdateData.splits\<close>)

interpretation ledger_sink: oms_event_sink PositionLedger_on_order_update
  "\<lambda>p. ledger_inv (led_core p)" update_in_range
proof unfold_locales
  show "update_in_range u \<Longrightarrow> apply_update_transition now c u = (c', u', r) \<Longrightarrow> update_in_range u'" for now c c' u u' r
    by (rule forwarded_in_range)
  show "ou_data u = Upd_Reject rej \<Longrightarrow> update_in_range u" for u rej by (simp add: update_in_range_def)
qed


section \<open>The transport interface\<close>

text \<open>
  What the manager relies on in \<open>IOrderTransport\<close>: \<open>connect\<close> reports whether the transport is
  connected afterwards, \<open>close\<close> disconnects it, and a transport that is not connected neither
  sends nor delivers anything.
\<close>

locale order_transport =
  fixes ops :: "'t OrderTransport" and connected :: "'t \<Rightarrow> bool"
  assumes connect_connects: "ot_connect ops t cfg = (t', ok) \<Longrightarrow> connected t' = ok"
    and close_closes: "\<not> connected (ot_close ops t)"
    and send_closed: "\<not> connected t \<Longrightarrow> ot_send_text ops t payload = (t', r) \<Longrightarrow> r = Inr False \<and> \<not> connected t'"
    and recv_closed: "\<not> connected t \<Longrightarrow> ot_recv_text ops t = (t', message) \<Longrightarrow> message = None \<and> \<not> connected t'"
begin

lemma start_connects:
  assumes "po_transport ports = ops" "\<not> om_worker_joinable m" "om_start ports m = (m', started)"
  shows "connected (om_transport m') = started"
  using assms connect_connects [OF prod.collapse [symmetric]]
  by (auto simp: om_start_def Let_def split: if_splits)

lemma stop_disconnects:
  assumes "po_transport ports = ops" "om_worker_joinable m"
  shows "\<not> connected (om_transport (om_stop ports m))"
  using assms close_closes by (simp add: om_stop_def)

lemma closed_sends_nothing:
  assumes "po_transport ports = ops" "\<not> connected (om_transport m)"
  shows "om_sent_count (send_intent ports i m) = om_sent_count m"
    and "om_send_failed_count (send_intent ports i m) = om_send_failed_count m + 1"
    and "\<not> connected (om_transport (send_intent ports i m))"
proof -
  obtain t r where send: "\<And>p. ad_build_request (po_adapter ports) i = Inr p \<Longrightarrow> ot_send_text ops (om_transport m) p = (t, r)"
    by (cases "ad_build_request (po_adapter ports) i") fastforce+
  with send_closed [OF assms(2)]
  have "r = Inr False \<and> \<not> connected t" if "ad_build_request (po_adapter ports) i = Inr p" for p using that by blast
  then show "om_sent_count (send_intent ports i m) = om_sent_count m"
    "om_send_failed_count (send_intent ports i m) = om_send_failed_count m + 1"
    "\<not> connected (om_transport (send_intent ports i m))"
    using assms send by (auto simp: send_intent_def Let_def split: sum.splits)
qed

lemma closed_receives_nothing:
  assumes "po_transport ports = ops" "\<not> connected (om_transport m)"
  obtains t where "pump_incoming_update ports now m = (m\<lparr>om_transport := t\<rparr>, False)" "\<not> connected t"
  using assms(1) recv_closed [OF assms(2) prod.collapse [symmetric]]
  by (intro that [of "fst (ot_recv_text ops (om_transport m))"])
    (auto simp: pump_incoming_update_def split: prod.splits option.splits)

end

section \<open>Claims about the order manager\<close>

text \<open>
  An environment for the witnesses: a transport that records what it sends, an adapter that
  accepts every intent, and the position ledger as event sink and snapshot provider.
\<close>

definition example_ports :: "(string list, PositionLedger) OmsPorts" where
  "example_ports = \<lparr>
     po_adapter = \<lparr> ad_supports = (\<lambda>i. True), ad_build_request = (\<lambda>i. Inr (oi_client_order_id i)),
       ad_parse_update = (\<lambda>p. oms_parse_failure Ope_kInvalidJson) \<rparr>,
     po_transport = \<lparr> ot_connect = (\<lambda>t c. (t, True)), ot_send_text = (\<lambda>t p. (t @ [p], Inr True)),
       ot_recv_text = (\<lambda>t. (t, None)), ot_close = (\<lambda>t. t), ot_last_error = (\<lambda>t. '''') \<rparr>,
     po_on_order_update = PositionLedger_on_order_update,
     po_snapshot_for = Some PositionLedger_snapshot_for \<rparr>"

definition example_manager :: "(string list, PositionLedger) OrderManager" where
  "example_manager = fst (om_start example_ports (OrderManager_new [] PositionLedger_new
     \<lparr> omc_transport = \<lparr> otc_endpoint = ''wss'', otc_headers = [] \<rparr>,
       omc_global_risk = example_global_config, omc_portfolio_risk = example_portfolio_config \<rparr>))"

definition example_submitted :: "(string list, PositionLedger) OmsSystem" where
  "example_submitted = \<lparr> sy_manager = fst (om_submit example_ports 5 example_manager example_intent), sy_local = [] \<rparr>"

lemmas example_om_defs = example_ports_def example_manager_def om_start_def OrderManager_new_def

lemma example_manager_started:
  "om_start example_ports (OrderManager_new [] PositionLedger_new
     \<lparr> omc_transport = \<lparr> otc_endpoint = ''wss'', otc_headers = [] \<rparr>,
       omc_global_risk = example_global_config, omc_portfolio_risk = example_portfolio_config \<rparr>)
   = (example_manager, True)"
  by (simp add: example_om_defs)

lemma example_submit_step:
  "om_step example_ports \<lparr> sy_manager = example_manager, sy_local = [] \<rparr> example_submitted"
  unfolding example_submitted_def
  using om_step.submit [of example_ports 5 "\<lparr> sy_manager = example_manager, sy_local = [] \<rparr>" example_intent]
  by (cases "om_submit example_ports 5 example_manager example_intent") simp

lemma example_submit_steps:
  "(om_step example_ports)\<^sup>*\<^sup>* \<lparr> sy_manager = example_manager, sy_local = [] \<rparr> example_submitted"
  using example_submit_step ..

lemma example_manager_core: "om_core example_manager = example_new_core" "om_transport example_manager = []"
  "om_sink example_manager = PositionLedger_new"
  by (simp_all add: example_om_defs core_reset_def example_new_core_def OrderManagerCore_new_def)

text \<open>
  C5. Nothing reaches the exchange unchecked: when processing an intent touches the transport at
  all, the global gate let the intent through on the current orders, the portfolio gate (when a
  snapshot provider is configured) let it through on the current exposure, and what was sent is
  the adapter's request for this very intent.
\<close>

theorem only_approved_intents_are_sent:
  assumes "om_transport (process_intent ports now pending m) \<noteq> om_transport m"
  shows "snd (evaluate_global_risk (om_core m) (pi_intent pending)) = None \<and>
    portfolio_check ports m (pi_intent pending) = None \<and>
    (\<exists>payload. ad_build_request (po_adapter ports) (pi_intent pending) = Inr payload \<and>
      om_transport (process_intent ports now pending m)
        = fst (ot_send_text (po_transport ports) (om_transport m) payload))"
proof (rule process_intentE [of m pending ports now])
  fix decision core
  let ?u = "make_global_risk_reject_update now (pi_intent pending) decision"
  assume "process_intent ports now pending m = reject_intent ports now ?u (grd_reason_message decision) (m\<lparr>om_core := core\<rparr>)"
  then show ?thesis
    using assms reject_intent_effect(2) [of now "m\<lparr>om_core := core\<rparr>" ?u]
    by (cases "apply_update_transition now core ?u") auto
next
  fix decision core
  let ?u = "make_portfolio_risk_reject_update now (pi_intent pending) decision"
  assume "process_intent ports now pending m = reject_intent ports now ?u (prd_reason_message decision) (m\<lparr>om_core := core\<rparr>)"
  then show ?thesis
    using assms reject_intent_effect(2) [of now "m\<lparr>om_core := core\<rparr>" ?u]
    by (cases "apply_update_transition now core ?u") auto
next
  assume "snd (evaluate_global_risk (om_core m) (pi_intent pending)) = None"
    "portfolio_check ports m (pi_intent pending) = None"
    "process_intent ports now pending m = send_intent ports (pi_intent pending) m"
  then show ?thesis
    using assms by (auto simp: send_intent_transport split: sum.splits)
qed

definition example_pending :: PendingIntent where
  "example_pending = \<lparr> pi_request_id = 1, pi_intent = example_intent \<rparr>"

lemma example_provider_pass:
  "evaluate_portfolio_risk example_core example_intent (PositionLedger_snapshot_for PositionLedger_new Ex_kKalshi ''MKT'') = (example_core, None)"
  by (rule evaluate_portfolio_pass)
    (simp add: evaluate_portfolio_risk_def portfolio_evaluate_def PositionLedger_snapshot_for_def
        PositionLedger_new_def PositionLedgerCore_new_def portfolio_risk_snapshot_def Let_def
        example_core_eq track_def example_core_defs signed_intent_qty_def gate_abs_qty_def
        portfolio_allow_decision_def i64_add_def i64_sub_def i64_neg_def wrap_i64_def)

lemma example_process:
  assumes "om_core m = example_core" "om_sink m = PositionLedger_new" "po_snapshot_for ports = Some PositionLedger_snapshot_for"
  shows "process_intent ports 5 example_pending m = send_intent ports example_intent m"
proof -
  have "oi_exchange example_intent = Ex_kKalshi" "oi_market_ticker example_intent = ''MKT''"
    by (simp_all add: example_intent_defs)
  then show ?thesis
    using evaluate_global_pass [OF example_global_pass] example_provider_pass
    by (simp add: process_intent_def example_pending_def assms) (simp flip: assms(1))
qed

lemma example_provider: "po_snapshot_for example_ports = Some PositionLedger_snapshot_for"
  by (simp add: example_ports_def)

lemma example_process_sends:
  "om_transport (process_intent example_ports 5 example_pending (example_manager\<lparr>om_core := example_core\<rparr>)) = [''A'']"
  by (simp add: example_process example_provider example_manager_core send_intent_def)
    (simp add: example_ports_def example_intent_defs example_manager_core)

theorem only_approved_intents_are_sent_witness:
  "snd (evaluate_global_risk example_core example_intent) = None"
  using only_approved_intents_are_sent [of example_ports 5 example_pending "example_manager\<lparr>om_core := example_core\<rparr>"]
    example_process_sends
  by (simp add: example_manager_core example_pending_def)

text \<open>
  Whatever strategies submit and the exchange reports, in any interleaving with the worker, an
  order once tracked stays tracked with its identity, and one that was filled, canceled or
  rejected keeps that status: the manager changes orders only through steps of its core.
\<close>

theorem manager_orders_persist:
  assumes "(om_step ports)\<^sup>*\<^sup>* s s'" and "tracked (om_core (sy_manager s)) k = Some ord"
  shows "\<exists>ord'. tracked (om_core (sy_manager s')) k = Some ord' \<and> same_identity ord ord' \<and>
    (is_terminal_state (ord_status ord) \<longrightarrow> ord_status ord' = ord_status ord)"
  using om_steps_core [OF assms(1)] assms(2) by (rule core_steps_evolve)

theorem manager_orders_persist_witness:
  "\<exists>ord'. tracked (om_core (process_intent example_ports 5 example_pending (example_manager\<lparr>om_core := example_core\<rparr>))) ''A'' = Some ord' \<and>
     ord_client_order_id ord' = ''A''"
proof -
  let ?s = "\<lparr> sy_manager = example_manager\<lparr>om_core := example_core\<rparr>, sy_local = [example_pending] \<rparr>"
  let ?s' = "?s\<lparr> sy_local := [], sy_manager := process_intent example_ports 5 example_pending (sy_manager ?s) \<rparr>"
  have step: "om_step example_ports ?s ?s'" by (rule om_step.process) simp
  have "tracked (om_core (sy_manager ?s)) ''A'' = Some (place_order 1 example_intent)"
    by (simp add: example_core_orders)
  from manager_orders_persist [OF r_into_rtranclp [where r = "om_step example_ports", OF step] this] obtain ord'
    where "tracked (om_core (sy_manager ?s')) ''A'' = Some ord'" "same_identity (place_order 1 example_intent) ord'"
    by blast
  moreover have "oi_client_order_id example_intent = ''A''" by (simp add: example_intent_defs)
  ultimately show ?thesis by (simp add: same_identity_def)
qed

text \<open>
  Every submitted intent is accounted for: after a start with an empty outbound queue and in
  any interleaving, the number of accepted submissions equals (modulo \<open>2 ^ 64\<close>) the intents
  sent, failed to send, rejected by the global gate, rejected by the portfolio gate, and
  still waiting with the worker or in the queue.
\<close>

theorem submitted_intents_accounted:
  assumes "om_start ports m = (m', True)" and "om_outbound_queue m = []"
    and "(om_step ports)\<^sup>*\<^sup>* \<lparr> sy_manager = m', sy_local = [] \<rparr> s"
  shows "om_submitted_count (sy_manager s) = om_sent_count (sy_manager s) + om_send_failed_count (sy_manager s)
     + oc_risk_reject_count (om_core (sy_manager s)) + oc_portfolio_risk_reject_count (om_core (sy_manager s))
     + of_nat (length (sy_local s)) + of_nat (length (om_outbound_queue (sy_manager s)))"
proof -
  have "intents_accounted \<lparr> sy_manager = m', sy_local = [] \<rparr>"
    using assms(1,2)
    by (auto simp: om_start_def Let_def intents_accounted_def finished_intents_def core_reset_def split: if_splits)
  from om_steps_accounts [OF assms(3) this] show ?thesis
    by (simp add: intents_accounted_def finished_intents_def)
qed

theorem submitted_intents_accounted_witness:
  "om_submitted_count (sy_manager example_submitted) = om_sent_count (sy_manager example_submitted)
     + om_send_failed_count (sy_manager example_submitted)
     + oc_risk_reject_count (om_core (sy_manager example_submitted))
     + oc_portfolio_risk_reject_count (om_core (sy_manager example_submitted))
     + of_nat (length (om_outbound_queue (sy_manager example_submitted)))"
  using submitted_intents_accounted [OF example_manager_started _ example_submit_steps]
  by (simp add: OrderManager_new_def) (simp add: example_submitted_def)

text \<open>
  The ledger behind the manager stays consistent in any interleaving: with the position ledger
  as event sink and an adapter that reports 64-bit quantities and prices, the ledger invariant
  holds throughout.
\<close>

theorem ledger_consistent_under_manager:
  assumes "(om_step ports)\<^sup>*\<^sup>* s s'" and "po_on_order_update ports = PositionLedger_on_order_update"
    and "\<And>payload u. opr_value (ad_parse_update (po_adapter ports) payload) = Some u \<Longrightarrow> update_in_range u"
    and "ledger_inv (led_core (om_sink (sy_manager s)))"
  shows "ledger_inv (led_core (om_sink (sy_manager s')))"
  by (rule ledger_sink.om_steps_sink [OF assms(1,2,4)]) (rule assms(3))

theorem ledger_consistent_under_manager_witness:
  "ledger_inv (led_core (om_sink (sy_manager example_submitted)))"
  by (rule ledger_consistent_under_manager [OF example_submit_steps])
    (simp_all add: example_manager_core PositionLedger_new_def example_ports_def oms_parse_failure_def)

text \<open>
  A restart does not clear the outbound queue: after a successful start the queue is what it
  was before, while the core tracks nothing, so intents left over from the previous run are
  still going to be processed, for orders the core no longer knows.
\<close>

theorem restart_keeps_stale_intents:
  assumes "om_start ports m = (m', True)"
  shows "om_outbound_queue m' = om_outbound_queue m \<and> oc_in_flight_orders (om_core m') = [] \<and>
    om_submitted_count m' = 0"
  using assms by (auto simp: om_start_def Let_def core_reset_def split: if_splits)

theorem restart_keeps_stale_intents_witness:
  "let m = om_stop example_ports (example_manager\<lparr>om_outbound_queue := [example_pending]\<rparr>)
   in om_outbound_queue (fst (om_start example_ports m)) = [example_pending] \<and>
      oc_in_flight_orders (om_core (fst (om_start example_ports m))) = []"
proof -
  let ?m = "om_stop example_ports (example_manager\<lparr>om_outbound_queue := [example_pending]\<rparr>)"
  have "om_start example_ports ?m = (fst (om_start example_ports ?m), True)" "om_outbound_queue ?m = [example_pending]"
    by (simp_all add: om_stop_def example_om_defs Let_def)
  then show ?thesis using restart_keeps_stale_intents [of example_ports ?m] by (simp add: Let_def)
qed

text \<open>
  C21. The loop of the worker does what the system of steps allows and leaves nothing behind: any number of
  its rounds is a run of the order manager, and in every round all the intents queued at its beginning are processed,
  each of them sent, failed or rejected, so that the queue is empty afterwards. The worker sleeps only when
  there was nothing in the queue and nothing to receive. When it ends the transport has been closed.
\<close>

theorem worker_leaves_nothing_queued:
  fixes ports :: "('t, 's) OmsPorts"
  shows "(\<exists>m'. (om_step ports)\<^sup>*\<^sup>* \<lparr> sy_manager = m, sy_local = [] \<rparr> \<lparr> sy_manager = m', sy_local = [] \<rparr> \<and>
      om_run ports clocks m = m'\<lparr> om_transport := ot_close (po_transport ports) (om_transport m'), om_running := False \<rparr>) \<and>
    om_outbound_queue (fst (om_worker_round ports clock m)) = [] \<and>
    finished_intents (fst (om_worker_round ports clock m)) = finished_intents m + of_nat (length (om_outbound_queue m)) \<and>
    (snd (om_worker_round ports clock m) \<longleftrightarrow> om_outbound_queue m = [] \<and>
      snd (ot_recv_text (po_transport ports) (om_transport m)) = None)"
proof -
  let ?d = "fst (drain_outbound_intents ports (fst clock) m)"
  obtain m2 b where pump: "pump_incoming_update ports (snd clock) ?d = (m2, b)" by fastforce
  have "?d = m" if "om_outbound_queue m = []" using that by (simp add: drain_outbound_intents_def)
  moreover have "b \<longleftrightarrow> snd (ot_recv_text (po_transport ports) (om_transport ?d)) \<noteq> None"
    using pump by (auto simp: pump_incoming_update_def Let_def split: prod.splits option.splits sum.splits)
  ultimately show ?thesis
    using om_run_steps [of ports m clocks] pump_accounts [OF pump] drain_finishes [of ports "fst clock" m]
    by (auto simp: om_worker_round_def pump Let_def om_worker_exit_def)
qed

end
