(* ===== verification/Strategy_Runner.thy ===== *)
theory Strategy_Runner
  imports Order_Manager
begin

text \<open>
  \<open>strategy/strategy_runner.cpp\<close> and the classes around it: the runner feeds an event to the
  strategy, completes the intents it returns, passes each through the shard risk gate and submits it
  to the intent sink. The strategy, the intent sink and the snapshot provider are interfaces: functions
  over their own states (\<open>'st\<close> for the strategy, \<open>'k\<close> for the sink; the provider reads the state
  behind the sink, where the ledger lives). A strategy that throws returns the exception.
\<close>

section \<open>The runner\<close>

record StrategyRunnerStats =
  srt_events_processed_count :: u64
  srt_intents_emitted_count :: u64
  srt_intents_submitted_count :: u64
  srt_risk_reject_count :: u64
  srt_sink_reject_count :: u64
  srt_strategy_error_count :: u64

record ('st, 'k) StrategyPorts =
  sp_on_event :: "'st \<Rightarrow> NormalizedEvent \<Rightarrow> 'st \<times> (Thrown + OrderIntent list)"
  sp_submit_intent :: "'k \<Rightarrow> OrderIntent \<Rightarrow> 'k \<times> bool"
  sp_sink_last_error :: "'k \<Rightarrow> string"
  sp_snapshot_for :: "('k \<Rightarrow> ExchangeId \<Rightarrow> string \<Rightarrow> ShardRiskSnapshot) option"

record ('st, 'k) StrategyRunner =
  sr_strategy :: 'st
  sr_sink :: 'k
  sr_shard_risk :: ShardRiskConfig
  sr_stats :: StrategyRunnerStats
  sr_last_error :: string

definition StrategyRunner_new :: "'st \<Rightarrow> 'k \<Rightarrow> ShardRiskConfig \<Rightarrow> ('st, 'k) StrategyRunner" where
  "StrategyRunner_new strategy sink cfg = \<lparr> sr_strategy = strategy, sr_sink = sink, sr_shard_risk = cfg,
     sr_stats = \<lparr> srt_events_processed_count = 0, srt_intents_emitted_count = 0,
       srt_intents_submitted_count = 0, srt_risk_reject_count = 0, srt_sink_reject_count = 0,
       srt_strategy_error_count = 0 \<rparr>, sr_last_error = '''' \<rparr>"

definition complete_intent :: "NormalizedEvent \<Rightarrow> OrderIntent \<Rightarrow> OrderIntent" where
  "complete_intent event intent = intent\<lparr>
     oi_exchange := (if oi_exchange intent = Ex_kUnknown then em_exchange (ne_meta event) else oi_exchange intent),
     oi_market_ticker := (if oi_market_ticker intent = '''' then ne_market_ticker event else oi_market_ticker intent),
     oi_intent_ts_ns := (if oi_intent_ts_ns intent = 0 then em_recv_ns (ne_meta event) else oi_intent_ts_ns intent) \<rparr>"

text \<open>The risk decision, when a snapshot provider is configured.\<close>

definition shard_check :: "('st, 'k) StrategyPorts \<Rightarrow> ('st, 'k) StrategyRunner \<Rightarrow> OrderIntent \<Rightarrow> ShardRiskDecision option" where
  "shard_check ports r intent = (case sp_snapshot_for ports of
       None \<Rightarrow> None
     | Some snapshot_for \<Rightarrow> Some (shard_evaluate (sr_shard_risk r) intent
         (snapshot_for (sr_sink r) (oi_exchange intent) (oi_market_ticker intent))))"

definition submit_to_sink :: "('st, 'k) StrategyPorts \<Rightarrow> OrderIntent \<Rightarrow> ('st, 'k) StrategyRunner \<Rightarrow> ('st, 'k) StrategyRunner" where
  "submit_to_sink ports intent r =
     (let res = sp_submit_intent ports (sr_sink r) intent; st = sr_stats r in
      if \<not> snd res
      then r\<lparr> sr_sink := fst res, sr_stats := st\<lparr>srt_sink_reject_count := srt_sink_reject_count st + 1\<rparr>,
              sr_last_error := sp_sink_last_error ports (fst res) \<rparr>
      else r\<lparr> sr_sink := fst res,
              sr_stats := st\<lparr>srt_intents_submitted_count := srt_intents_submitted_count st + 1\<rparr> \<rparr>)"

text \<open>One round of the loop over the intents of a decision.\<close>

definition handle_intent ::
    "('st, 'k) StrategyPorts \<Rightarrow> NormalizedEvent \<Rightarrow> OrderIntent \<Rightarrow> ('st, 'k) StrategyRunner \<Rightarrow> ('st, 'k) StrategyRunner" where
  "handle_intent ports event raw_intent r =
     (let intent = complete_intent event raw_intent; st = sr_stats r;
          r = r\<lparr>sr_stats := st\<lparr>srt_intents_emitted_count := srt_intents_emitted_count st + 1\<rparr>\<rparr>
      in case shard_check ports r intent of
           Some d \<Rightarrow>
             if \<not> srd_allow d
             then r\<lparr> sr_stats := (sr_stats r)\<lparr>srt_risk_reject_count := srt_risk_reject_count (sr_stats r) + 1\<rparr>,
                     sr_last_error := srd_reason_message d \<rparr>
             else submit_to_sink ports intent r
         | None \<Rightarrow> submit_to_sink ports intent r)"

definition runner_on_event ::
    "('st, 'k) StrategyPorts \<Rightarrow> ('st, 'k) StrategyRunner \<Rightarrow> NormalizedEvent \<Rightarrow> ('st, 'k) StrategyRunner \<times> bool" where
  "runner_on_event ports r event =
     (let r = r\<lparr>sr_stats := (sr_stats r)\<lparr>srt_events_processed_count := srt_events_processed_count (sr_stats r) + 1\<rparr>\<rparr>;
          res = sp_on_event ports (sr_strategy r) event;
          r = r\<lparr>sr_strategy := fst res\<rparr>;
          failed = r\<lparr>sr_stats := (sr_stats r)\<lparr>srt_strategy_error_count := srt_strategy_error_count (sr_stats r) + 1\<rparr>\<rparr>
      in case snd res of
           Inl (Std_exception what) \<Rightarrow> (failed\<lparr>sr_last_error := what\<rparr>, False)
         | Inl Other_exception \<Rightarrow> (failed\<lparr>sr_last_error := ''strategy error: unknown exception''\<rparr>, False)
         | Inr intents \<Rightarrow> (fold (handle_intent ports event) intents r, True))"

section \<open>Strategies, sinks and handlers of the program\<close>

definition noop_strategy :: "unit \<Rightarrow> NormalizedEvent \<Rightarrow> unit \<times> (Thrown + OrderIntent list)" where
  "noop_strategy s event = (s, Inr [])"

definition dropping_submit_intent :: "u64 \<Rightarrow> OrderIntent \<Rightarrow> u64 \<times> bool" where
  "dropping_submit_intent dropped_count intent = (dropped_count + 1, True)"

record ('t, 's) OrderManagerIntentSink =
  ois_order_manager :: "('t, 's) OrderManager"
  ois_last_error :: string

definition om_sink_submit_intent ::
    "('t, 's) OmsPorts \<Rightarrow> TimestampNs \<Rightarrow> ('t, 's) OrderManagerIntentSink \<Rightarrow> OrderIntent
      \<Rightarrow> ('t, 's) OrderManagerIntentSink \<times> bool" where
  "om_sink_submit_intent ports now k intent =
     (case om_submit ports now (ois_order_manager k) intent of
        (m, Some request_id) \<Rightarrow> (k\<lparr>ois_order_manager := m, ois_last_error := ''''\<rparr>, True)
      | (m, None) \<Rightarrow> (k\<lparr>ois_order_manager := m, ois_last_error := om_last_error m\<rparr>, False))"

definition ledger_snapshot_for ::
    "('k \<Rightarrow> ExchangeId \<Rightarrow> string \<Rightarrow> PortfolioRiskSnapshot) \<Rightarrow> 'k \<Rightarrow> ExchangeId \<Rightarrow> string \<Rightarrow> ShardRiskSnapshot" where
  "ledger_snapshot_for portfolio_snapshot_for k exchange market_ticker =
     \<lparr> srs_open_orders_market = 0, srs_working_qty_market = 0,
       srs_net_position_market = prs_net_position_market (portfolio_snapshot_for k exchange market_ticker) \<rparr>"

definition market_filter_on_event ::
    "string set \<Rightarrow> ('h \<Rightarrow> NormalizedEvent \<Rightarrow> 'h \<times> bool) option \<Rightarrow> 'h \<Rightarrow> NormalizedEvent \<Rightarrow> 'h \<times> bool" where
  "market_filter_on_event allowed_markets on_event h event =
     (case on_event of
        None \<Rightarrow> (h, False)
      | Some delegate \<Rightarrow>
          if allowed_markets = {} then delegate h event
          else if ne_market_ticker event \<in> allowed_markets then delegate h event
          else (h, True))"

definition strategy_handler_on_event ::
    "('st, 'k) StrategyPorts \<Rightarrow> ('st, 'k) StrategyRunner \<Rightarrow> NormalizedEvent \<Rightarrow> ('st, 'k) StrategyRunner \<times> bool" where
  "strategy_handler_on_event ports runner event = runner_on_event ports runner event"

section \<open>Facts about the runner\<close>

definition runner_balanced :: "('st, 'k) StrategyRunner \<Rightarrow> bool" where
  "runner_balanced r \<longleftrightarrow> srt_intents_emitted_count (sr_stats r) =
     srt_intents_submitted_count (sr_stats r) + srt_risk_reject_count (sr_stats r) + srt_sink_reject_count (sr_stats r)"

lemma handle_intent_balanced: "runner_balanced r \<Longrightarrow> runner_balanced (handle_intent ports event i r)"
  by (auto simp: runner_balanced_def handle_intent_def submit_to_sink_def Let_def split: option.split)

lemma handle_intents_balanced: "runner_balanced r \<Longrightarrow> runner_balanced (fold (handle_intent ports event) is r)"
  by (induction "is" arbitrary: r) (simp_all add: handle_intent_balanced)

lemma runner_on_event_balanced: "runner_balanced r \<Longrightarrow> runner_balanced (fst (runner_on_event ports r event))"
  using handle_intents_balanced [where ports = ports and event = event]
  by (auto simp: runner_on_event_def Let_def runner_balanced_def split: sum.split Thrown.split)

definition runner_run :: "('st, 'k) StrategyPorts \<Rightarrow> ('st, 'k) StrategyRunner \<Rightarrow> NormalizedEvent list \<Rightarrow> ('st, 'k) StrategyRunner" where
  "runner_run ports r events = fold (\<lambda>e r. fst (runner_on_event ports r e)) events r"

text \<open>
  What a runner needs of an intent sink to keep the sink's invariant: that submitting keeps it. The
  runner touches the sink in no other way.
\<close>

locale intent_sink =
  fixes ports :: "('st, 'k) StrategyPorts" and sink_ok :: "'k \<Rightarrow> bool"
  assumes submit_ok: "sink_ok k \<Longrightarrow> sink_ok (fst (sp_submit_intent ports k i))"
begin

lemma handle_intent_ok: "sink_ok (sr_sink r) \<Longrightarrow> sink_ok (sr_sink (handle_intent ports event i r))"
  by (auto simp: handle_intent_def submit_to_sink_def submit_ok Let_def split: option.split)

lemma runner_on_event_ok: "sink_ok (sr_sink r) \<Longrightarrow> sink_ok (sr_sink (fst (runner_on_event ports r event)))"
proof -
  have "sink_ok (sr_sink r) \<Longrightarrow> sink_ok (sr_sink (fold (handle_intent ports event) intents r))" for intents r
    by (induction intents arbitrary: r) (simp_all add: handle_intent_ok)
  then show "sink_ok (sr_sink r) \<Longrightarrow> ?thesis"
    by (auto simp: runner_on_event_def Let_def split: sum.split Thrown.split)
qed

lemma runner_run_ok: "sink_ok (sr_sink r) \<Longrightarrow> sink_ok (sr_sink (runner_run ports r events))"
  unfolding runner_run_def by (induction events arbitrary: r) (simp_all add: runner_on_event_ok)

end

lemma runner_run_balanced: "runner_balanced r \<Longrightarrow> runner_balanced (runner_run ports r events)"
  by (induction events arbitrary: r) (simp_all add: runner_run_def runner_on_event_balanced)

lemma handle_intent_sink:
  "sr_sink (handle_intent ports event i r) =
    (case shard_check ports r (complete_intent event i) of
       Some d \<Rightarrow> if srd_allow d then fst (sp_submit_intent ports (sr_sink r) (complete_intent event i)) else sr_sink r
     | None \<Rightarrow> fst (sp_submit_intent ports (sr_sink r) (complete_intent event i)))"
  by (auto simp: handle_intent_def submit_to_sink_def shard_check_def Let_def split: option.split)

lemma complete_intent_fields [simp]:
  "oi_action (complete_intent e i) = oi_action i" "oi_qty_lots (complete_intent e i) = oi_qty_lots i"
  "oi_side (complete_intent e i) = oi_side i" "oi_client_order_id (complete_intent e i) = oi_client_order_id i"
  by (simp_all add: complete_intent_def)

section \<open>Claims about strategies\<close>

text \<open>
  The counters of a runner balance: over any sequence of events, with any strategy (throwing
  or not), sink and provider, every emitted intent was submitted, rejected by the shard gate, or
  rejected by the sink (modulo \<open>2 ^ 64\<close>).
\<close>

theorem runner_counters_balance:
  "srt_intents_emitted_count (sr_stats (runner_run ports (StrategyRunner_new st k cfg) events)) =
     srt_intents_submitted_count (sr_stats (runner_run ports (StrategyRunner_new st k cfg) events))
     + srt_risk_reject_count (sr_stats (runner_run ports (StrategyRunner_new st k cfg) events))
     + srt_sink_reject_count (sr_stats (runner_run ports (StrategyRunner_new st k cfg) events))"
proof -
  have "runner_balanced (StrategyRunner_new st k cfg)"
    by (simp add: runner_balanced_def StrategyRunner_new_def)
  from runner_run_balanced [OF this, of ports events] show ?thesis by (simp add: runner_balanced_def)
qed


definition example_strategy_ports :: "(unit, u64) StrategyPorts" where
  "example_strategy_ports = \<lparr> sp_on_event = noop_strategy, sp_submit_intent = dropping_submit_intent,
     sp_sink_last_error = (\<lambda>k. ''''), sp_snapshot_for = Some (\<lambda>k ex m.
       \<lparr> srs_open_orders_market = 0, srs_working_qty_market = 0, srs_net_position_market = 3 \<rparr>) \<rparr>"

definition example_runner :: "(unit, u64) StrategyRunner" where
  "example_runner = StrategyRunner_new () 0 \<lparr> src_max_open_orders_per_market = 0,
     src_max_working_qty_per_market = 0, src_max_abs_net_position_per_market = 20 \<rparr>"


text \<open>
  Cancels are never blocked by risk: the runner always hands a cancel to the sink, and the
  order manager always goes on to send it, whatever the limits and the exposure are.
\<close>

theorem cancels_pass_all_gates:
  assumes "oi_action i = Act_kCancel"
  shows "sr_sink (handle_intent ports event i r) = fst (sp_submit_intent ports (sr_sink r) (complete_intent event i)) \<and>
    process_intent oports now \<lparr> pi_request_id = rid, pi_intent = i \<rparr> m = send_intent oports i m"
proof -
  have "shard_check ports r (complete_intent event i) = None \<or>
      (\<exists>d. shard_check ports r (complete_intent event i) = Some d \<and> srd_allow d)"
    using assms by (auto simp: shard_check_def shard_gate.cancel_allowed split: option.split)
  then have "sr_sink (handle_intent ports event i r) = fst (sp_submit_intent ports (sr_sink r) (complete_intent event i))"
    by (auto simp: handle_intent_sink)
  moreover have "evaluate_global_risk (om_core m) i = (om_core m, None)"
    using assms by (simp add: evaluate_global_risk_def global_gate.cancel_allowed Let_def)
  moreover have "evaluate_portfolio_risk (om_core m) i s = (om_core m, None)" for s
    using assms by (simp add: evaluate_portfolio_risk_def portfolio_gate.cancel_allowed Let_def)
  ultimately show ?thesis by (simp add: process_intent_def Let_def split: option.split)
qed

theorem cancels_pass_all_gates_witness:
  "sr_sink (handle_intent example_strategy_ports NormalizedEvent_default
     (example_intent\<lparr>oi_action := Act_kCancel\<rparr>) example_runner) = 1"
  using cancels_pass_all_gates [of "example_intent\<lparr>oi_action := Act_kCancel\<rparr>" example_strategy_ports
      NormalizedEvent_default example_runner example_ports 5 1 example_manager]
  by (simp add: example_runner_def StrategyRunner_new_def)
    (simp add: example_strategy_ports_def dropping_submit_intent_def)

text \<open>
  With the ledger as snapshot provider the open-order limit of the shard gate is never enforced:
  the provider reports no open orders and no working quantity, so however many orders a market has
  open, the gate never rejects for that reason.
\<close>

theorem ledger_provider_ignores_open_orders:
  "srd_code (shard_evaluate cfg i (ledger_snapshot_for portfolio_snapshot_for k ex m)) \<noteq> Sr_kOpenOrdersPerMarketLimit"
  by (simp add: shard_evaluate_def shard_decision_defs ledger_snapshot_for_def Let_def)

end
