(* ===== verification/Kalshi_Orders.thy ===== *)
theory Kalshi_Orders
  imports Order_Manager Json_Text
begin

text \<open>
  The Kalshi order protocol: \<open>adapters/exchanges/kalshi/oms_adapter.cpp\<close>, which writes order
  intents as JSON requests and reads acknowledgements, rejects and fills, and
  \<open>oms/paper_order_transport.cpp\<close>, the simulated exchange that answers such requests. Both use
  \<open>nlohmann::json\<close>, the parameter \<open>nl\<close>.
\<close>

section \<open>The adapter\<close>

fun action_to_string :: "OmsAction \<Rightarrow> string" where
  "action_to_string Act_kPlace = ''place_order''"
| "action_to_string Act_kCancel = ''cancel_order''"
| "action_to_string Act_kReplace = ''replace_order''"
| "action_to_string Act_kUnknown = ''unknown''"

fun side_to_string :: "Side \<Rightarrow> string" where
  "side_to_string Side_kBuy = ''buy''"
| "side_to_string Side_kSell = ''sell''"
| "side_to_string Side_kBid = ''bid''"
| "side_to_string Side_kAsk = ''ask''"
| "side_to_string Side_kUnknown = ''unknown''"

definition side_from_string :: "string \<Rightarrow> Side option" where
  "side_from_string side =
     (if side = ''buy'' then Some Side_kBuy else if side = ''sell'' then Some Side_kSell
      else if side = ''bid'' then Some Side_kBid else if side = ''ask'' then Some Side_kAsk else None)"

fun tif_to_string :: "OmsTimeInForce \<Rightarrow> string" where
  "tif_to_string Tif_kGtc = ''gtc''"
| "tif_to_string Tif_kIoc = ''ioc''"
| "tif_to_string Tif_kFok = ''fok''"
| "tif_to_string Tif_kUnknown = ''unknown''"

definition try_get_qty :: "json \<Rightarrow> string \<Rightarrow> QtyLots option" where
  "try_get_qty object key = try_get_int64 object key"

definition try_get_price :: "json \<Rightarrow> string \<Rightarrow> PriceTicks option" where
  "try_get_price object key = try_get_int64 object key"

definition try_get_side :: "json \<Rightarrow> string \<Rightarrow> Side option" where
  "try_get_side object key = Option.bind (try_get_string object key) side_from_string"

text \<open>
  \<open>root.value("recv_ts_ns", 0U)\<close>: the default has type \<open>unsigned\<close>, so the value is converted to
  32 bits before it becomes a time stamp; \<open>None\<close> when the conversion throws.
\<close>

definition recv_ts_of :: "Nlohmann \<Rightarrow> json \<Rightarrow> TimestampNs option" where
  "recv_ts_of nl root_obj = (case json_find root_obj ''recv_ts_ns'' of
       None \<Rightarrow> Some 0
     | Some v \<Rightarrow> map_option ucast (nl_get_unsigned nl v))"

text \<open>The message parsers: \<open>None\<close> stands for an exception on the way.\<close>

definition parse_ack :: "Nlohmann \<Rightarrow> json \<Rightarrow> json \<Rightarrow> string \<Rightarrow> OrderStateUpdate OmsParseResult option" where
  "parse_ack nl root_obj message raw_payload =
     (case (try_get_string message ''client_order_id'', try_get_string message ''market_ticker'',
            try_get_qty message ''accepted_qty'') of
        (Some client_order_id, Some market_ticker, Some accepted_qty) \<Rightarrow>
          map_option (\<lambda>recv_ts. oms_parse_success \<lparr>
              ou_exchange = Ex_kKalshi, ou_status = St_kAccepted, ou_client_order_id = client_order_id,
              ou_exchange_order_id = try_get_string message ''exchange_order_id'',
              ou_market_ticker = market_ticker, ou_recv_ts_ns = recv_ts,
              ou_data = Upd_Ack \<lparr> oa_client_order_id = client_order_id,
                oa_exchange_order_id = try_get_string message ''exchange_order_id'',
                oa_market_ticker = market_ticker, oa_accepted_qty_lots = accepted_qty \<rparr>,
              ou_raw_payload = raw_payload \<rparr>)
            (recv_ts_of nl root_obj)
      | _ \<Rightarrow> Some (oms_parse_failure Ope_kMissingField))"

definition parse_reject :: "Nlohmann \<Rightarrow> json \<Rightarrow> json \<Rightarrow> string \<Rightarrow> OrderStateUpdate OmsParseResult option" where
  "parse_reject nl root_obj message raw_payload =
     (case (try_get_string message ''client_order_id'', try_get_string message ''reason_code'') of
        (Some client_order_id, Some reason_code) \<Rightarrow>
          (let reason_message = (case try_get_string message ''reason_message'' of Some m \<Rightarrow> m | None \<Rightarrow> ''unspecified'')
           in map_option (\<lambda>recv_ts. oms_parse_success \<lparr>
                ou_exchange = Ex_kKalshi, ou_status = St_kRejected, ou_client_order_id = client_order_id,
                ou_exchange_order_id = try_get_string message ''exchange_order_id'',
                ou_market_ticker = (case try_get_string message ''market_ticker'' of Some m \<Rightarrow> m | None \<Rightarrow> ''''),
                ou_recv_ts_ns = recv_ts,
                ou_data = Upd_Reject \<lparr> or_client_order_id = client_order_id,
                  or_exchange_order_id = try_get_string message ''exchange_order_id'',
                  or_reason_code = reason_code, or_reason_message = reason_message \<rparr>,
                ou_raw_payload = raw_payload \<rparr>)
              (recv_ts_of nl root_obj))
      | _ \<Rightarrow> Some (oms_parse_failure Ope_kMissingField))"

definition parse_fill :: "Nlohmann \<Rightarrow> json \<Rightarrow> json \<Rightarrow> string \<Rightarrow> OrderStateUpdate OmsParseResult option" where
  "parse_fill nl root_obj message raw_payload =
     (case (try_get_string message ''client_order_id'', try_get_string message ''market_ticker'',
            try_get_qty message ''fill_qty'', try_get_price message ''fill_price'') of
        (Some client_order_id, Some market_ticker, Some fill_qty, Some fill_price) \<Rightarrow>
          map_option (\<lambda>recv_ts. oms_parse_success \<lparr>
              ou_exchange = Ex_kKalshi, ou_status = St_kFilled, ou_client_order_id = client_order_id,
              ou_exchange_order_id = try_get_string message ''exchange_order_id'',
              ou_market_ticker = market_ticker, ou_recv_ts_ns = recv_ts,
              ou_data = Upd_Fill \<lparr> of_client_order_id = client_order_id,
                of_exchange_order_id = try_get_string message ''exchange_order_id'',
                of_market_ticker = market_ticker, of_fill_qty_lots = fill_qty, of_fill_price_ticks = fill_price,
                of_side = (case try_get_side message ''side'' of Some s \<Rightarrow> s | None \<Rightarrow> Side_kUnknown),
                of_liquidity = Liq_kUnknown \<rparr>,
              ou_raw_payload = raw_payload \<rparr>)
            (recv_ts_of nl root_obj)
      | _ \<Rightarrow> Some (oms_parse_failure Ope_kMissingField))"

definition kalshi_supports :: "OrderIntent \<Rightarrow> bool" where
  "kalshi_supports intent \<longleftrightarrow> oi_exchange intent = Ex_kKalshi \<and> oi_action intent \<noteq> Act_kUnknown"

text \<open>\<open>payload.dump()\<close>, whose exception is a \<open>std::exception\<close>.\<close>

definition dump_request :: "Nlohmann \<Rightarrow> json \<Rightarrow> Thrown + string" where
  "dump_request nl payload = (case nl_dump nl payload of Inl what \<Rightarrow> Inl (Std_exception what) | Inr s \<Rightarrow> Inr s)"

definition place_json :: "OrderIntent \<Rightarrow> PriceTicks \<Rightarrow> json" where
  "place_json intent limit_price = json_obj [
     (''action'', Json_string (action_to_string (oi_action intent))),
     (''client_order_id'', Json_string (oi_client_order_id intent)),
     (''market_ticker'', Json_string (oi_market_ticker intent)),
     (''side'', Json_string (side_to_string (oi_side intent))),
     (''qty'', Json_integer (oi_qty_lots intent)),
     (''limit_price'', Json_integer limit_price),
     (''time_in_force'', Json_string (tif_to_string (oi_time_in_force intent)))]"

definition build_place_request :: "Nlohmann \<Rightarrow> OrderIntent \<Rightarrow> Thrown + string" where
  "build_place_request nl intent =
     (case oi_limit_price_ticks intent of
        None \<Rightarrow> Inl (Std_exception ''Invalid place intent'')
      | Some limit_price \<Rightarrow>
          if oi_client_order_id intent = '''' \<or> oi_market_ticker intent = '''' \<or> oi_qty_lots intent \<le> 0 \<or>
             oi_side intent = Side_kUnknown
          then Inl (Std_exception ''Invalid place intent'')
          else dump_request nl (place_json intent limit_price))"

text \<open>The optional target ids, set after the other fields.\<close>

definition set_targets :: "OrderIntent \<Rightarrow> json \<Rightarrow> json" where
  "set_targets intent payload =
     (let payload = (case oi_target_client_order_id intent of
            Some t \<Rightarrow> json_set payload ''target_client_order_id'' (Json_string t) | None \<Rightarrow> payload)
      in case oi_target_exchange_order_id intent of
           Some t \<Rightarrow> json_set payload ''target_exchange_order_id'' (Json_string t) | None \<Rightarrow> payload)"

definition cancel_json :: "OrderIntent \<Rightarrow> json" where
  "cancel_json intent = set_targets intent (json_obj [
     (''action'', Json_string (action_to_string (oi_action intent))),
     (''client_order_id'', Json_string (oi_client_order_id intent))])"

definition build_cancel_request :: "Nlohmann \<Rightarrow> OrderIntent \<Rightarrow> Thrown + string" where
  "build_cancel_request nl intent =
     (if oi_client_order_id intent = '''' \<and> oi_target_client_order_id intent = None \<and>
         oi_target_exchange_order_id intent = None
      then Inl (Std_exception ''Invalid cancel intent'')
      else dump_request nl (cancel_json intent))"

definition build_replace_request :: "Nlohmann \<Rightarrow> OrderIntent \<Rightarrow> Thrown + string" where
  "build_replace_request nl intent =
     (if oi_target_client_order_id intent = None \<and> oi_target_exchange_order_id intent = None
      then Inl (Std_exception ''Invalid replace intent'')
      else case oi_limit_price_ticks intent of
          None \<Rightarrow> Inl (Std_exception ''Invalid replace intent payload'')
        | Some limit_price \<Rightarrow>
            if oi_client_order_id intent = '''' \<or> oi_qty_lots intent \<le> 0
            then Inl (Std_exception ''Invalid replace intent payload'')
            else dump_request nl (set_targets intent (json_obj [
                   (''action'', Json_string (action_to_string (oi_action intent))),
                   (''client_order_id'', Json_string (oi_client_order_id intent)),
                   (''qty'', Json_integer (oi_qty_lots intent)),
                   (''limit_price'', Json_integer limit_price)])))"

definition kalshi_build_request :: "Nlohmann \<Rightarrow> OrderIntent \<Rightarrow> Thrown + string" where
  "kalshi_build_request nl intent =
     (if \<not> kalshi_supports intent then Inl (Std_exception ''Kalshi OmsAdapter does not support this order intent'')
      else case oi_action intent of
          Act_kPlace \<Rightarrow> build_place_request nl intent
        | Act_kCancel \<Rightarrow> build_cancel_request nl intent
        | Act_kReplace \<Rightarrow> build_replace_request nl intent
        | Act_kUnknown \<Rightarrow> Inl (Std_exception ''Unknown OMS action''))"

text \<open>Everything thrown inside \<open>parse_update\<close> becomes \<open>kInvalidJson\<close>.\<close>

definition kalshi_parse_update :: "Nlohmann \<Rightarrow> string \<Rightarrow> OrderStateUpdate OmsParseResult" where
  "kalshi_parse_update nl payload =
     (let caught = (\<lambda>r. case r of Some res \<Rightarrow> res | None \<Rightarrow> oms_parse_failure Ope_kInvalidJson)
      in case nl_parse nl payload of
           None \<Rightarrow> oms_parse_failure Ope_kInvalidJson
         | Some root_obj \<Rightarrow>
             if \<not> json_is_object root_obj then oms_parse_failure Ope_kInvalidJson
             else case (try_get_string root_obj ''type'', json_find root_obj ''msg'') of
                 (Some kind, Some message) \<Rightarrow>
                   if \<not> json_is_object message then oms_parse_failure Ope_kMissingField
                   else if kind = ''order_ack'' then caught (parse_ack nl root_obj message payload)
                   else if kind = ''order_reject'' then caught (parse_reject nl root_obj message payload)
                   else if kind = ''fill'' then caught (parse_fill nl root_obj message payload)
                   else oms_parse_failure Ope_kUnsupportedMessageType
               | _ \<Rightarrow> oms_parse_failure Ope_kMissingField)"

definition kalshi_adapter :: "Nlohmann \<Rightarrow> OmsAdapter" where
  "kalshi_adapter nl = \<lparr> ad_supports = kalshi_supports, ad_build_request = kalshi_build_request nl,
     ad_parse_update = kalshi_parse_update nl \<rparr>"

section \<open>The paper transport\<close>

datatype PaperErrorCode = Pt_kNone | Pt_kNotConnected | Pt_kInvalidPayload | Pt_kInvalidRequest | Pt_kUnknownAction

record PaperOrderTransport =
  pt_auto_fill_on_place :: bool
  pt_connected :: bool
  pt_next_recv_ts_ns :: u64
  pt_next_exchange_order_id :: u64
  pt_inbound_updates :: "string list"
  pt_last_error_code :: PaperErrorCode

definition PaperOrderTransport_new :: "bool \<Rightarrow> PaperOrderTransport" where
  "PaperOrderTransport_new auto_fill = \<lparr> pt_auto_fill_on_place = auto_fill, pt_connected = False,
     pt_next_recv_ts_ns = 1, pt_next_exchange_order_id = 1, pt_inbound_updates = [], pt_last_error_code = Pt_kNone \<rparr>"

definition paper_connect :: "PaperOrderTransport \<Rightarrow> OrderTransportConfig \<Rightarrow> PaperOrderTransport \<times> bool" where
  "paper_connect t config = (t\<lparr>pt_connected := True, pt_last_error_code := Pt_kNone\<rparr>, True)"

definition paper_ack_json :: "u64 \<Rightarrow> string \<Rightarrow> string \<Rightarrow> string \<Rightarrow> i64 \<Rightarrow> json" where
  "paper_ack_json recv_ts client_order_id exchange_order_id market_ticker qty = json_obj [
     (''type'', Json_string ''order_ack''), (''recv_ts_ns'', Json_integer (uint recv_ts)),
     (''msg'', json_obj [(''client_order_id'', Json_string client_order_id),
        (''exchange_order_id'', Json_string exchange_order_id), (''market_ticker'', Json_string market_ticker),
        (''accepted_qty'', Json_integer qty)])]"

definition paper_fill_json :: "u64 \<Rightarrow> string \<Rightarrow> string \<Rightarrow> string \<Rightarrow> i64 \<Rightarrow> i64 \<Rightarrow> string \<Rightarrow> json" where
  "paper_fill_json recv_ts client_order_id exchange_order_id market_ticker qty limit_price side = json_obj [
     (''type'', Json_string ''fill''), (''recv_ts_ns'', Json_integer (uint recv_ts)),
     (''msg'', json_obj [(''client_order_id'', Json_string client_order_id),
        (''exchange_order_id'', Json_string exchange_order_id), (''market_ticker'', Json_string market_ticker),
        (''fill_qty'', Json_integer qty), (''fill_price'', Json_integer limit_price), (''side'', Json_string side)])]"

definition paper_reject_json :: "u64 \<Rightarrow> string \<Rightarrow> string \<Rightarrow> json" where
  "paper_reject_json recv_ts client_order_id market_ticker = json_obj [
     (''type'', Json_string ''order_reject''), (''recv_ts_ns'', Json_integer (uint recv_ts)),
     (''msg'', json_obj [(''client_order_id'', Json_string client_order_id),
        (''market_ticker'', Json_string market_ticker), (''reason_code'', Json_string ''paper_action_unsupported''),
        (''reason_message'', Json_string ''paper transport currently supports place_order only'')])]"

text \<open>
  Dumping an update and queueing it: the time stamp is used up even when \<open>dump\<close> throws. The
  argument builds the document from the time stamp.
\<close>

definition paper_push :: "Nlohmann \<Rightarrow> (u64 \<Rightarrow> json) \<Rightarrow> PaperOrderTransport \<Rightarrow> PaperOrderTransport \<times> (Thrown + unit)" where
  "paper_push nl doc t =
     (let ts = pt_next_recv_ts_ns t; t = t\<lparr>pt_next_recv_ts_ns := ts + 1\<rparr>
      in case nl_dump nl (doc ts) of
           Inl what \<Rightarrow> (t, Inl (Std_exception what))
         | Inr s \<Rightarrow> (t\<lparr>pt_inbound_updates := pt_inbound_updates t @ [s]\<rparr>, Inr ()))"

definition paper_place ::
    "Nlohmann \<Rightarrow> string \<Rightarrow> string \<Rightarrow> i64 \<Rightarrow> i64 \<Rightarrow> string \<Rightarrow> PaperOrderTransport \<Rightarrow> PaperOrderTransport \<times> (Thrown + bool)" where
  "paper_place nl client_order_id market_ticker qty limit_price side t =
     (let exchange_order_id = ''paper-ex-'' @ std_to_string (unat (pt_next_exchange_order_id t));
          t = t\<lparr>pt_next_exchange_order_id := pt_next_exchange_order_id t + 1\<rparr>
      in case paper_push nl (\<lambda>ts. paper_ack_json ts client_order_id exchange_order_id market_ticker qty) t of
           (t, Inl e) \<Rightarrow> (t, Inl e)
         | (t, Inr _) \<Rightarrow>
             if \<not> pt_auto_fill_on_place t then (t\<lparr>pt_last_error_code := Pt_kNone\<rparr>, Inr True)
             else (case paper_push nl (\<lambda>ts. paper_fill_json ts client_order_id exchange_order_id market_ticker
                                                qty limit_price side) t of
                     (t, Inl e) \<Rightarrow> (t, Inl e)
                   | (t, Inr _) \<Rightarrow> (t\<lparr>pt_last_error_code := Pt_kNone\<rparr>, Inr True)))"

definition paper_send_text :: "Nlohmann \<Rightarrow> PaperOrderTransport \<Rightarrow> string \<Rightarrow> PaperOrderTransport \<times> (Thrown + bool)" where
  "paper_send_text nl t payload =
     (let failed = (\<lambda>code. (t\<lparr>pt_last_error_code := code\<rparr>, Inr False)) in
      if \<not> pt_connected t then failed Pt_kNotConnected
      else case nl_parse nl payload of
          None \<Rightarrow> failed Pt_kInvalidPayload
        | Some request \<Rightarrow>
            if \<not> json_is_object request then failed Pt_kInvalidPayload
            else case (try_get_string request ''action'', try_get_string request ''client_order_id'') of
                (Some action, Some client_order_id) \<Rightarrow>
                  if client_order_id = '''' then failed Pt_kInvalidRequest
                  else if action = ''place_order'' then
                    (case (try_get_string request ''market_ticker'', try_get_int64 request ''qty'',
                           try_get_int64 request ''limit_price'', try_get_string request ''side'') of
                       (Some market_ticker, Some qty, Some limit_price, Some side) \<Rightarrow>
                         if qty \<le> 0 then failed Pt_kInvalidRequest
                         else paper_place nl client_order_id market_ticker qty limit_price side t
                     | _ \<Rightarrow> failed Pt_kInvalidRequest)
                  else if action = ''cancel_order'' \<or> action = ''replace_order'' then
                    (case paper_push nl (\<lambda>ts. paper_reject_json ts client_order_id
                            (case try_get_string request ''market_ticker'' of Some m \<Rightarrow> m | None \<Rightarrow> ''paper'')) t of
                       (t, Inl e) \<Rightarrow> (t, Inl e)
                     | (t, Inr _) \<Rightarrow> (t\<lparr>pt_last_error_code := Pt_kNone\<rparr>, Inr True))
                  else failed Pt_kUnknownAction
              | _ \<Rightarrow> failed Pt_kInvalidRequest)"

definition paper_recv_text :: "PaperOrderTransport \<Rightarrow> PaperOrderTransport \<times> string option" where
  "paper_recv_text t =
     (if \<not> pt_connected t then (t, None)
      else case pt_inbound_updates t of
          [] \<Rightarrow> (t, None)
        | payload # rest \<Rightarrow> (t\<lparr>pt_inbound_updates := rest\<rparr>, Some payload))"

definition paper_close :: "PaperOrderTransport \<Rightarrow> PaperOrderTransport" where
  "paper_close t = t\<lparr>pt_connected := False\<rparr>"

definition paper_last_error :: "PaperOrderTransport \<Rightarrow> string" where
  "paper_last_error t = (case pt_last_error_code t of
       Pt_kNone \<Rightarrow> ''''
     | Pt_kNotConnected \<Rightarrow> ''paper transport not connected''
     | Pt_kInvalidPayload \<Rightarrow> ''paper transport invalid request payload''
     | Pt_kInvalidRequest \<Rightarrow> ''paper transport invalid request''
     | Pt_kUnknownAction \<Rightarrow> ''paper transport unknown action'')"

definition paper_transport :: "Nlohmann \<Rightarrow> PaperOrderTransport OrderTransport" where
  "paper_transport nl = \<lparr> ot_connect = paper_connect, ot_send_text = paper_send_text nl,
     ot_recv_text = paper_recv_text, ot_close = paper_close, ot_last_error = paper_last_error \<rparr>"

interpretation paper: order_transport "paper_transport nl" pt_connected for nl
  by unfold_locales (auto simp: paper_transport_def paper_connect_def paper_close_def paper_send_text_def paper_recv_text_def
      split: if_splits list.splits)

section \<open>Requests and the updates that answer them\<close>

lemma side_round_trip: "side_from_string (side_to_string s) = (if s = Side_kUnknown then None else Some s)"
  by (cases s) (simp_all add: side_from_string_def)

lemma place_requestE:
  assumes "kalshi_build_request nl i = Inr payload" "oi_action i = Act_kPlace"
  obtains price where "oi_limit_price_ticks i = Some price" "nl_dump nl (place_json i price) = Inr payload"
    "oi_client_order_id i \<noteq> ''''" "oi_market_ticker i \<noteq> ''''" "0 < oi_qty_lots i" "oi_side i \<noteq> Side_kUnknown"
    "oi_exchange i = Ex_kKalshi"
  using assms
  by (auto simp: kalshi_build_request_def build_place_request_def dump_request_def kalshi_supports_def
      split: option.splits if_splits sum.splits)

definition paper_exchange_id :: "PaperOrderTransport \<Rightarrow> string" where
  "paper_exchange_id t = ''paper-ex-'' @ std_to_string (unat (pt_next_exchange_order_id t))"

text \<open>The two updates the paper exchange makes of a place request.\<close>

definition ack_of :: "OrderIntent \<Rightarrow> PaperOrderTransport \<Rightarrow> json" where
  "ack_of i t = paper_ack_json (pt_next_recv_ts_ns t) (oi_client_order_id i) (paper_exchange_id t)
     (oi_market_ticker i) (oi_qty_lots i)"

definition fill_of :: "OrderIntent \<Rightarrow> PriceTicks \<Rightarrow> PaperOrderTransport \<Rightarrow> json" where
  "fill_of i price t = paper_fill_json (pt_next_recv_ts_ns t + 1) (oi_client_order_id i) (paper_exchange_id t)
     (oi_market_ticker i) (oi_qty_lots i) price (side_to_string (oi_side i))"

lemma paper_send_place:
  assumes lib: "nl_lawful nl" and req: "kalshi_build_request nl i = Inr payload" "oi_action i = Act_kPlace"
    and price: "oi_limit_price_ticks i = Some price" and rng: "in_i64 (oi_qty_lots i)" "in_i64 price"
    and up: "pt_connected t" "pt_auto_fill_on_place t"
    and docs: "nl_dump nl (ack_of i t) = Inr ack" "nl_dump nl (fill_of i price t) = Inr fill"
  shows "paper_send_text nl t payload =
    (t\<lparr> pt_next_exchange_order_id := pt_next_exchange_order_id t + 1, pt_next_recv_ts_ns := pt_next_recv_ts_ns t + 2,
        pt_inbound_updates := pt_inbound_updates t @ [ack, fill], pt_last_error_code := Pt_kNone \<rparr>, Inr True)"
proof -
  have d: "nl_dump nl (place_json i price) = Inr payload" and c: "oi_client_order_id i \<noteq> ''''" and q: "0 < oi_qty_lots i"
    using req price by (auto elim!: place_requestE)
  have "nl_parse nl payload = Some (place_json i price)" using lib d by (simp add: nl_lawful_def)
  moreover have "paper_place nl (oi_client_order_id i) (oi_market_ticker i) (oi_qty_lots i) price (side_to_string (oi_side i)) t =
    (t\<lparr> pt_next_exchange_order_id := pt_next_exchange_order_id t + 1, pt_next_recv_ts_ns := pt_next_recv_ts_ns t + 2,
        pt_inbound_updates := pt_inbound_updates t @ [ack, fill], pt_last_error_code := Pt_kNone \<rparr>, Inr True)"
    using docs up unfolding ack_of_def fill_of_def paper_exchange_id_def
    by (simp add: paper_place_def paper_push_def Let_def)
  ultimately show ?thesis
    using c q rng up req(2) by (simp add: paper_send_text_def place_json_def wrap_in_range)
qed

definition ack_update :: "OrderIntent \<Rightarrow> PaperOrderTransport \<Rightarrow> string \<Rightarrow> OrderStateUpdate" where
  "ack_update i t raw = \<lparr> ou_exchange = Ex_kKalshi, ou_status = St_kAccepted, ou_client_order_id = oi_client_order_id i,
     ou_exchange_order_id = Some (paper_exchange_id t), ou_market_ticker = oi_market_ticker i,
     ou_recv_ts_ns = ucast (ucast (pt_next_recv_ts_ns t) :: u32),
     ou_data = Upd_Ack \<lparr> oa_client_order_id = oi_client_order_id i, oa_exchange_order_id = Some (paper_exchange_id t),
       oa_market_ticker = oi_market_ticker i, oa_accepted_qty_lots = oi_qty_lots i \<rparr>, ou_raw_payload = raw \<rparr>"

definition fill_update :: "OrderIntent \<Rightarrow> PriceTicks \<Rightarrow> PaperOrderTransport \<Rightarrow> string \<Rightarrow> OrderStateUpdate" where
  "fill_update i price t raw = \<lparr> ou_exchange = Ex_kKalshi, ou_status = St_kFilled, ou_client_order_id = oi_client_order_id i,
     ou_exchange_order_id = Some (paper_exchange_id t), ou_market_ticker = oi_market_ticker i,
     ou_recv_ts_ns = ucast (ucast (pt_next_recv_ts_ns t + 1) :: u32),
     ou_data = Upd_Fill \<lparr> of_client_order_id = oi_client_order_id i, of_exchange_order_id = Some (paper_exchange_id t),
       of_market_ticker = oi_market_ticker i, of_fill_qty_lots = oi_qty_lots i, of_fill_price_ticks = price,
       of_side = oi_side i, of_liquidity = Liq_kUnknown \<rparr>, ou_raw_payload = raw \<rparr>"

lemma u32_of_uint: "(word_of_int (uint (w :: u64)) :: u32) = ucast w"
  by simp

lemma parse_paper_ack:
  assumes "nl_lawful nl" "nl_dump nl (ack_of i t) = Inr raw" "in_i64 (oi_qty_lots i)"
  shows "kalshi_parse_update nl raw = oms_parse_success (ack_update i t raw)"
  using assms
  by (simp add: kalshi_parse_update_def nl_lawful_def ack_of_def paper_ack_json_def parse_ack_def recv_ts_of_def
      try_get_qty_def ack_update_def wrap_in_range Let_def)

lemma parse_paper_fill:
  assumes "nl_lawful nl" "nl_dump nl (fill_of i price t) = Inr raw" "in_i64 (oi_qty_lots i)" "in_i64 price"
    "oi_side i \<noteq> Side_kUnknown"
  shows "kalshi_parse_update nl raw = oms_parse_success (fill_update i price t raw)"
  using assms
  by (simp add: kalshi_parse_update_def nl_lawful_def fill_of_def paper_fill_json_def parse_fill_def recv_ts_of_def
      try_get_qty_def try_get_price_def try_get_side_def side_round_trip fill_update_def wrap_in_range Let_def)
text \<open>
  C30. Requests survive the trip through the wire format: the request the adapter builds for a
  place intent is accepted by a connected paper exchange, which answers with exactly two
  updates, and these parse back to an acknowledgement and a full fill of the same client order,
  market, quantity, limit price and side, under one fresh exchange order id. The JSON library is
  assumed to read back what it writes, and to write the two answers.
\<close>

theorem place_request_round_trip:
  assumes "nl_lawful nl" "kalshi_build_request nl i = Inr payload" "oi_action i = Act_kPlace"
    and "oi_limit_price_ticks i = Some price" "in_i64 (oi_qty_lots i)" "in_i64 price"
    and "pt_connected t" "pt_auto_fill_on_place t"
    and "nl_dump nl (ack_of i t) = Inr ack" "nl_dump nl (fill_of i price t) = Inr fill"
  shows "\<exists>t'. paper_send_text nl t payload = (t', Inr True) \<and>
      pt_inbound_updates t' = pt_inbound_updates t @ [ack, fill] \<and>
      pt_next_exchange_order_id t' = pt_next_exchange_order_id t + 1 \<and>
      map (kalshi_parse_update nl) [ack, fill] =
        [oms_parse_success (ack_update i t ack), oms_parse_success (fill_update i price t fill)]"
proof -
  have "oi_side i \<noteq> Side_kUnknown" using assms(2,3) by (rule place_requestE)
  then show ?thesis
    using paper_send_place [OF assms] parse_paper_ack [OF assms(1,9,5)] parse_paper_fill [OF assms(1,10,5,6)] by simp
qed

section \<open>Paper trading end to end\<close>

text \<open>The ports of the order manager as the trader wires them in paper mode.\<close>

definition paper_ports :: "Nlohmann \<Rightarrow> (PaperOrderTransport, PositionLedger) OmsPorts" where
  "paper_ports nl = \<lparr> po_adapter = kalshi_adapter nl, po_transport = paper_transport nl,
     po_on_order_update = PositionLedger_on_order_update, po_snapshot_for = Some PositionLedger_snapshot_for \<rparr>"

lemma apply_update_tracked:
  assumes "tracked c (ou_client_order_id u) = Some ord" "to_in_flight_status (ou_status u) = Some s"
    "can_transition (ord_status ord) s"
  obtains c' where "apply_update_transition now c u = (c', snd (transition_order now s ord u), Inr ())"
    "tracked c' (ou_client_order_id u) = Some (fst (transition_order now s ord u))"
  by (rule that [of "fst (apply_update_transition now c u)"])
    (use assms in \<open>simp_all add: apply_update_transition_def find_order_def Let_def split: prod.split\<close>)

lemma paper_pump:
  assumes "pt_connected (om_transport m)" "pt_inbound_updates (om_transport m) = raw # rest"
    and "kalshi_parse_update nl raw = oms_parse_success u"
    and "apply_update_transition now (om_core m) u = (c', u', Inr ())"
  shows "pump_incoming_update (paper_ports nl) now m =
    (forward_update (paper_ports nl) u' (m\<lparr> om_transport := (om_transport m)\<lparr>pt_inbound_updates := rest\<rparr>,
       om_receive_count := om_receive_count m + 1, om_core := c' \<rparr>), True)"
  using assms
  by (simp add: pump_incoming_update_def paper_ports_def paper_transport_def kalshi_adapter_def paper_recv_text_def
      oms_parse_success_def Let_def)

lemma process_intent_sends:
  assumes "snd (evaluate_global_risk (om_core m) (pi_intent p)) = None" "portfolio_check ports m (pi_intent p) = None"
  shows "process_intent ports now p m = send_intent ports (pi_intent p) m"
  using assms
  by (auto simp: process_intent_def portfolio_check_def dest!: evaluate_global_pass evaluate_portfolio_pass
      split: option.splits)

text \<open>An acknowledgement does not touch the ledger's positions, a fill of a known side is applied to them.\<close>

lemma ledger_ignores_ack:
  "ou_status u = St_kAccepted \<Longrightarrow> pl_positions (fst (ledger_on_order_update l u)) = pl_positions l"
  by (simp add: ledger_on_order_update_def)

lemma apply_fill_applied:
  assumes "0 < of_fill_qty_lots f" "in_i64 (of_fill_qty_lots f)" "of_side f \<noteq> Side_kUnknown" "of_market_ticker f \<noteq> ''''"
  shows "snd (apply_fill l u f) = Inr ()"
proof -
  have "side_to_signed_qty (of_side f) (of_fill_qty_lots f) \<noteq> 0"
    using assms by (cases "of_side f") (auto simp: i64_neg_def wrap_in_range in_i64_def)
  then show ?thesis using assms by (simp add: apply_fill_def Let_def)
qed

lemma net_position_cong: "pl_positions l = pl_positions l' \<Longrightarrow> net_position l k = net_position l' k"
  by (simp add: net_position_def position_or_new_def)
text \<open>The manager between the three steps of the worker: what each leaves for the next.\<close>

lemma paper_send_step:
  fixes m :: "(PaperOrderTransport, PositionLedger) OrderManager"
  assumes "nl_lawful nl" "kalshi_build_request nl i = Inr payload" "oi_action i = Act_kPlace"
    and "oi_limit_price_ticks i = Some price" "in_i64 (oi_qty_lots i)" "in_i64 price"
    and "pt_connected (om_transport m)" "pt_auto_fill_on_place (om_transport m)"
    and "nl_dump nl (ack_of i (om_transport m)) = Inr ack" "nl_dump nl (fill_of i price (om_transport m)) = Inr fill"
    and "pt_inbound_updates (om_transport m) = []"
    and "snd (evaluate_global_risk (om_core m) i) = None" "portfolio_check (paper_ports nl) m i = None"
  obtains m1 where "process_intent (paper_ports nl) now \<lparr> pi_request_id = rid, pi_intent = i \<rparr> m = m1"
    "om_core m1 = om_core m" "om_sink m1 = om_sink m"
    "pt_connected (om_transport m1)" "pt_inbound_updates (om_transport m1) = [ack, fill]"
proof -
  let ?m1 = "send_intent (paper_ports nl) i m"
  have "om_transport ?m1 = fst (paper_send_text nl (om_transport m) payload)"
    using assms(2) by (simp add: send_intent_transport paper_ports_def kalshi_adapter_def paper_transport_def)
  with paper_send_place [OF assms(1-10)] assms(7,11)
  have "pt_connected (om_transport ?m1)" "pt_inbound_updates (om_transport ?m1) = [ack, fill]" by simp_all
  moreover have "process_intent (paper_ports nl) now \<lparr> pi_request_id = rid, pi_intent = i \<rparr> m = ?m1"
    using process_intent_sends [of m "\<lparr> pi_request_id = rid, pi_intent = i \<rparr>"] assms(12,13) by simp
  ultimately show ?thesis by (intro that) simp_all
qed

lemma paper_ack_step:
  fixes m :: "(PaperOrderTransport, PositionLedger) OrderManager"
  assumes "nl_lawful nl" "nl_dump nl (ack_of i t) = Inr ack" "in_i64 (oi_qty_lots i)"
    and "pt_connected (om_transport m)" "pt_inbound_updates (om_transport m) = [ack, fill]"
    and "tracked (om_core m) (oi_client_order_id i) = Some ord" "ord_status ord = If_kPending"
  obtains m' ord' where "pump_incoming_update (paper_ports nl) now m = (m', True)"
    "tracked (om_core m') (oi_client_order_id i) = Some ord'" "ord_status ord' = If_kAccepted"
    "ord_requested_qty_lots ord' = ord_requested_qty_lots ord"
    "pl_positions (led_core (om_sink m')) = pl_positions (led_core (om_sink m))"
    "pt_connected (om_transport m')" "pt_inbound_updates (om_transport m') = [fill]"
proof -
  let ?u = "ack_update i t ack"
  have u: "ou_client_order_id ?u = oi_client_order_id i" "ou_status ?u = St_kAccepted"
    by (simp_all add: ack_update_def)
  obtain c' where c': "apply_update_transition now (om_core m) ?u = (c', snd (transition_order now If_kAccepted ord ?u), Inr ())"
      "tracked c' (oi_client_order_id i) = Some (fst (transition_order now If_kAccepted ord ?u))"
    using apply_update_tracked [of "om_core m" ?u ord If_kAccepted now] assms(6,7) u
    by (auto simp: can_transition_def)
  let ?m' = "forward_update (paper_ports nl) (snd (transition_order now If_kAccepted ord ?u))
     (m\<lparr> om_transport := (om_transport m)\<lparr>pt_inbound_updates := [fill]\<rparr>,
        om_receive_count := om_receive_count m + 1, om_core := c' \<rparr>)"
  have "pump_incoming_update (paper_ports nl) now m = (?m', True)"
    by (rule paper_pump [OF assms(4,5) parse_paper_ack [OF assms(1-3)] c'(1)])
  moreover have "pl_positions (led_core (om_sink ?m')) = pl_positions (led_core (om_sink m))"
    by (simp add: paper_ports_def ledger_ignores_ack transition_order_forwarded u)
  ultimately show ?thesis
    using c'(2) assms(4) by (intro that [of ?m' "fst (transition_order now If_kAccepted ord ?u)"]) simp_all
qed

lemma paper_fill_step:
  fixes m :: "(PaperOrderTransport, PositionLedger) OrderManager"
  assumes lib: "nl_lawful nl" "nl_dump nl (fill_of i price t) = Inr fill" "in_i64 (oi_qty_lots i)" "in_i64 price"
    and i: "oi_side i \<noteq> Side_kUnknown" "oi_market_ticker i \<noteq> ''''" "0 < oi_qty_lots i"
    and t: "pt_connected (om_transport m)" "pt_inbound_updates (om_transport m) = [fill]"
    and ord: "tracked (om_core m) (oi_client_order_id i) = Some ord" "ord_status ord = If_kAccepted"
  obtains m' ord' where "pump_incoming_update (paper_ports nl) now m = (m', True)"
    "tracked (om_core m') (oi_client_order_id i) = Some ord'" "ord_status ord' = If_kFilled"
    "pt_inbound_updates (om_transport m') = []"
    "\<exists>u f. apply_fill (led_core (om_sink m)) u f = (led_core (om_sink m'), Inr ()) \<and> ou_exchange u = Ex_kKalshi \<and>
       of_market_ticker f = oi_market_ticker i \<and> of_side f = oi_side i \<and> of_fill_qty_lots f = oi_qty_lots i"
proof -
  let ?u = "fill_update i price t fill"
  have u: "ou_client_order_id ?u = oi_client_order_id i" "ou_status ?u = St_kFilled" by (simp_all add: fill_update_def)
  obtain c' where c': "apply_update_transition now (om_core m) ?u = (c', snd (transition_order now If_kFilled ord ?u), Inr ())"
      "tracked c' (oi_client_order_id i) = Some (fst (transition_order now If_kFilled ord ?u))"
    using apply_update_tracked [of "om_core m" ?u ord If_kFilled now] ord u by (auto simp: can_transition_def)
  let ?u' = "snd (transition_order now If_kFilled ord ?u)"
  let ?m' = "forward_update (paper_ports nl) ?u'
     (m\<lparr> om_transport := (om_transport m)\<lparr>pt_inbound_updates := []\<rparr>,
        om_receive_count := om_receive_count m + 1, om_core := c' \<rparr>)"
  have pump: "pump_incoming_update (paper_ports nl) now m = (?m', True)"
    by (rule paper_pump [OF t parse_paper_fill [OF lib i(1)] c'(1)])
  have u': "?u' = ?u" using i(1) by (simp add: transition_order_forwarded enriched_data_def enrich_fill_def fill_update_def)
  obtain f where f: "ou_data ?u = Upd_Fill f" "of_market_ticker f = oi_market_ticker i" "of_side f = oi_side i"
      "of_fill_qty_lots f = oi_qty_lots i"
    by (simp add: fill_update_def)
  have "snd (apply_fill (led_core (om_sink m)) ?u f) = Inr ()"
    using apply_fill_applied [of f] f i lib(3) by simp
  then have "apply_fill (led_core (om_sink m)) ?u f = (led_core (om_sink ?m'), Inr ())"
    using f(1) u(2)
    by (cases "apply_fill (led_core (om_sink m)) ?u f")
      (simp add: u' paper_ports_def PositionLedger_on_order_update_def ledger_on_order_update_def)
  moreover have "ou_exchange ?u = Ex_kKalshi" by (simp add: fill_update_def)
  ultimately have "\<exists>u f. apply_fill (led_core (om_sink m)) u f = (led_core (om_sink ?m'), Inr ()) \<and> ou_exchange u = Ex_kKalshi \<and>
       of_market_ticker f = oi_market_ticker i \<and> of_side f = oi_side i \<and> of_fill_qty_lots f = oi_qty_lots i"
    using f by blast
  then show ?thesis
    using pump c'(2) by (intro that [of ?m' "fst (transition_order now If_kFilled ord ?u)"]) simp_all
qed
text \<open>
  C20. Paper trading works end to end: a place intent of a tracked, pending order that both gates
  pass goes out in one round of the drain, and the next two rounds of the pump bring the order
  to accepted and then to filled, and move the ledger's position in the market by exactly the
  signed quantity of the intent; nothing is left to receive. Everything on the way is the
  program's own code: the adapter's request, the paper exchange, its updates, the adapter's
  parser, the core's state machine and the ledger.
\<close>

theorem paper_trade_fills_ledger:
  fixes m :: "(PaperOrderTransport, PositionLedger) OrderManager"
  assumes "nl_lawful nl" "kalshi_build_request nl i = Inr payload" "oi_action i = Act_kPlace"
    and "oi_limit_price_ticks i = Some price" "in_i64 (oi_qty_lots i)" "in_i64 price"
    and "pt_connected (om_transport m)" "pt_auto_fill_on_place (om_transport m)"
    and "nl_dump nl (ack_of i (om_transport m)) = Inr ack" "nl_dump nl (fill_of i price (om_transport m)) = Inr fill"
    and "pt_inbound_updates (om_transport m) = []"
    and "snd (evaluate_global_risk (om_core m) i) = None" "portfolio_check (paper_ports nl) m i = None"
    and "tracked (om_core m) (oi_client_order_id i) = Some ord" "ord_status ord = If_kPending"
    and "in_i64 (net_position (led_core (om_sink m)) (Ex_kKalshi, oi_market_ticker i) + side_to_signed_qty (oi_side i) (oi_qty_lots i))"
  shows "\<exists>m1 m2 m3 ord'. process_intent (paper_ports nl) now \<lparr> pi_request_id = rid, pi_intent = i \<rparr> m = m1 \<and>
      pump_incoming_update (paper_ports nl) now m1 = (m2, True) \<and>
      pump_incoming_update (paper_ports nl) now m2 = (m3, True) \<and>
      tracked (om_core m3) (oi_client_order_id i) = Some ord' \<and> ord_status ord' = If_kFilled \<and>
      pt_inbound_updates (om_transport m3) = [] \<and>
      net_position (led_core (om_sink m3)) (Ex_kKalshi, oi_market_ticker i) =
        net_position (led_core (om_sink m)) (Ex_kKalshi, oi_market_ticker i) + side_to_signed_qty (oi_side i) (oi_qty_lots i)"
proof -
  let ?k = "(Ex_kKalshi, oi_market_ticker i)" and ?q = "side_to_signed_qty (oi_side i) (oi_qty_lots i)"
  have i: "oi_side i \<noteq> Side_kUnknown" "oi_market_ticker i \<noteq> ''''" "0 < oi_qty_lots i"
    using assms(2,3) by (auto elim!: place_requestE)
  obtain m1 where m1: "process_intent (paper_ports nl) now \<lparr> pi_request_id = rid, pi_intent = i \<rparr> m = m1"
      "om_core m1 = om_core m" "om_sink m1 = om_sink m" "pt_connected (om_transport m1)"
      "pt_inbound_updates (om_transport m1) = [ack, fill]"
    by (rule paper_send_step [OF assms(1-13)])
  obtain m2 ord2 where m2: "pump_incoming_update (paper_ports nl) now m1 = (m2, True)"
      "tracked (om_core m2) (oi_client_order_id i) = Some ord2" "ord_status ord2 = If_kAccepted"
      "pl_positions (led_core (om_sink m2)) = pl_positions (led_core (om_sink m1))"
      "pt_connected (om_transport m2)" "pt_inbound_updates (om_transport m2) = [fill]"
    by (rule paper_ack_step [OF assms(1,9,5) m1(4,5)]) (use m1(2) assms(14,15) in simp_all)
  obtain m3 ord' u f where m3: "pump_incoming_update (paper_ports nl) now m2 = (m3, True)"
      "tracked (om_core m3) (oi_client_order_id i) = Some ord'" "ord_status ord' = If_kFilled"
      "pt_inbound_updates (om_transport m3) = []"
    and f: "apply_fill (led_core (om_sink m2)) u f = (led_core (om_sink m3), Inr ())" "ou_exchange u = Ex_kKalshi"
      "of_market_ticker f = oi_market_ticker i" "of_side f = oi_side i" "of_fill_qty_lots f = oi_qty_lots i"
    by (rule paper_fill_step [OF assms(1,10,5,6) i m2(5,6,2,3), of now]) blast
  have net: "net_position (led_core (om_sink m2)) ?k = net_position (led_core (om_sink m)) ?k"
    by (rule net_position_cong) (simp add: m2(4) m1(3))
  have q: "in_i64 ?q" using i(1) assms(5) by (cases "oi_side i") simp_all
  have "net_position (led_core (om_sink m3)) ?k = net_position (led_core (om_sink m)) ?k + ?q"
    using fill_moves_position(1) [OF f(1), of "oi_market_ticker i" ?q] q assms(16) i(2) by (simp add: f net)
  with m1(1) m2(1) m3 show ?thesis by blast
qed

section \<open>Examples\<close>

text \<open>A library that knows three documents, enough for one paper trade.\<close>

definition table_nl :: "json \<Rightarrow> json \<Rightarrow> json \<Rightarrow> Nlohmann" where
  "table_nl a b c = \<lparr>
     nl_parse = (\<lambda>s. if s = ''1'' then Some a else if s = ''2'' then Some b else if s = ''3'' then Some c else None),
     nl_parse_what = (\<lambda>s. ''''),
     nl_dump = (\<lambda>j. if j = a then Inr ''1'' else if j = b then Inr ''2'' else if j = c then Inr ''3'' else Inl ''''),
     nl_get_unsigned = (\<lambda>j. case j of Json_integer n \<Rightarrow> Some (word_of_int n) | _ \<Rightarrow> None) \<rparr>"

lemma table_nl_lawful: "nl_lawful (table_nl a b c)"
  by (auto simp: nl_lawful_def table_nl_def split: if_splits)

definition example_paper :: PaperOrderTransport where
  "example_paper = fst (paper_connect (PaperOrderTransport_new True) \<lparr> otc_endpoint = ''paper://oms'', otc_headers = [] \<rparr>)"

definition example_nl :: Nlohmann where
  "example_nl = table_nl (place_json example_intent 45) (ack_of example_intent example_paper)
     (fill_of example_intent 45 example_paper)"

lemma example_docs_distinct:
  "ack_of example_intent example_paper \<noteq> place_json example_intent 45"
  "fill_of example_intent 45 example_paper \<noteq> place_json example_intent 45"
  "fill_of example_intent 45 example_paper \<noteq> ack_of example_intent example_paper"
proof -
  have ne: "json_find a k \<noteq> json_find b k \<Longrightarrow> a \<noteq> b" for a b k by blast
  show "ack_of example_intent example_paper \<noteq> place_json example_intent 45"
    by (rule ne [where k = "''action''"]) (simp add: ack_of_def paper_ack_json_def place_json_def)
  show "fill_of example_intent 45 example_paper \<noteq> place_json example_intent 45"
    by (rule ne [where k = "''action''"]) (simp add: fill_of_def paper_fill_json_def place_json_def)
  show "fill_of example_intent 45 example_paper \<noteq> ack_of example_intent example_paper"
    by (rule ne [where k = "''type''"]) (simp add: fill_of_def paper_fill_json_def ack_of_def paper_ack_json_def)
qed

lemma example_nl_dumps:
  "nl_lawful example_nl"
  "kalshi_build_request example_nl example_intent = Inr ''1''"
  "nl_dump example_nl (ack_of example_intent example_paper) = Inr ''2''"
  "nl_dump example_nl (fill_of example_intent 45 example_paper) = Inr ''3''"
  using example_docs_distinct
  by (simp_all add: example_nl_def table_nl_lawful)
    (simp_all add: table_nl_def kalshi_build_request_def kalshi_supports_def build_place_request_def dump_request_def
      example_intent_defs)

lemma example_paper_fields [simp]:
  "pt_connected example_paper" "pt_auto_fill_on_place example_paper" "pt_inbound_updates example_paper = []"
  by (simp_all add: example_paper_def paper_connect_def PaperOrderTransport_new_def)

lemma example_intent_place: "oi_action example_intent = Act_kPlace" "oi_limit_price_ticks example_intent = Some 45"
  "in_i64 (oi_qty_lots example_intent)" "in_i64 45"
  by (simp_all add: example_intent_defs in_i64_def)
theorem place_request_round_trip_witness:
  "\<exists>t'. paper_send_text example_nl example_paper ''1'' = (t', Inr True) \<and> length (pt_inbound_updates t') = 2"
  using place_request_round_trip [OF example_nl_dumps(1,2) example_intent_place _ _ example_nl_dumps(3,4)] by fastforce

definition example_paper_manager :: "(PaperOrderTransport, PositionLedger) OrderManager" where
  "example_paper_manager = (OrderManager_new example_paper PositionLedger_new
     \<lparr> omc_transport = \<lparr> otc_endpoint = ''paper://oms'', otc_headers = [] \<rparr>,
       omc_global_risk = example_global_config, omc_portfolio_risk = example_portfolio_config \<rparr>)\<lparr>om_core := example_core\<rparr>"

lemma example_paper_manager_fields:
  "om_transport example_paper_manager = example_paper" "om_core example_paper_manager = example_core"
  "om_sink example_paper_manager = PositionLedger_new"
  by (simp_all add: example_paper_manager_def OrderManager_new_def)

lemma example_portfolio_check: "portfolio_check (paper_ports nl) example_paper_manager example_intent = None"
  by (simp add: portfolio_check_def paper_ports_def example_paper_manager_fields PositionLedger_snapshot_for_def
      PositionLedger_new_def portfolio_risk_snapshot_def PositionLedgerCore_new_def evaluate_portfolio_risk_def
      portfolio_evaluate_def portfolio_decision_defs example_core_eq track_def example_core_defs signed_intent_qty_def
      gate_abs_qty_def i64_add_def i64_sub_def wrap_i64_def Let_def)

theorem paper_trade_fills_ledger_witness:
  "\<exists>m2 m3. pump_incoming_update (paper_ports example_nl) 9
       (process_intent (paper_ports example_nl) 9 \<lparr> pi_request_id = 1, pi_intent = example_intent \<rparr> example_paper_manager) = (m2, True) \<and>
     pump_incoming_update (paper_ports example_nl) 9 m2 = (m3, True) \<and>
     net_position (led_core (om_sink m3)) (Ex_kKalshi, ''MKT'') = 10"
proof -
  have net: "net_position (led_core (om_sink example_paper_manager)) (Ex_kKalshi, ''MKT'') = 0"
    by (simp add: example_paper_manager_fields net_position_def position_or_new_def PositionLedger_new_def
        PositionLedgerCore_new_def MarketPositionState_default_def)
  have i: "oi_market_ticker example_intent = ''MKT''" "oi_side example_intent = Side_kBuy" "oi_qty_lots example_intent = 10"
    "oi_client_order_id example_intent = ''A''"
    by (simp_all add: example_intent_defs)
  have ord: "tracked example_core ''A'' = Some (place_order 1 example_intent)"
    "ord_status (place_order 1 example_intent) = If_kPending"
    by (simp_all add: example_core_orders place_order_def)
  show ?thesis
    using paper_trade_fills_ledger [of example_nl example_intent "''1''" 45 example_paper_manager "''2''" "''3''"
        "place_order 1 example_intent" 9 1]
    by (simp add: example_nl_dumps example_intent_place example_paper_manager_fields example_global_pass example_portfolio_check net [unfolded example_paper_manager_fields] i ord
        in_i64_def) blast
qed

section \<open>A rejected cancel\<close>

definition reject_of :: "OrderIntent \<Rightarrow> PaperOrderTransport \<Rightarrow> json" where
  "reject_of i t = paper_reject_json (pt_next_recv_ts_ns t) (oi_client_order_id i) ''paper''"

lemma cancel_json_fields [simp]:
  "json_is_object (cancel_json i)"
  "json_find (cancel_json i) ''action'' = Some (Json_string (action_to_string (oi_action i)))"
  "json_find (cancel_json i) ''client_order_id'' = Some (Json_string (oi_client_order_id i))"
  "json_find (cancel_json i) ''market_ticker'' = None"
  by (simp_all add: cancel_json_def set_targets_def Let_def split: option.split)

lemma paper_send_cancel:
  assumes "nl_lawful nl" "kalshi_build_request nl i = Inr payload" "oi_action i = Act_kCancel"
    "oi_client_order_id i \<noteq> ''''" "pt_connected t" "nl_dump nl (reject_of i t) = Inr rej"
  shows "paper_send_text nl t payload = (t\<lparr> pt_next_recv_ts_ns := pt_next_recv_ts_ns t + 1,
      pt_inbound_updates := pt_inbound_updates t @ [rej], pt_last_error_code := Pt_kNone \<rparr>, Inr True)"
proof -
  have "nl_dump nl (cancel_json i) = Inr payload"
    using assms(2,3)
    by (auto simp: kalshi_build_request_def build_cancel_request_def cancel_json_def dump_request_def
        split: if_splits sum.splits)
  then have "nl_parse nl payload = Some (cancel_json i)" using assms(1) by (simp add: nl_lawful_def)
  then show ?thesis
    using assms(3-6) unfolding reject_of_def
    by (simp add: paper_send_text_def paper_push_def Let_def)
qed

lemma parse_paper_reject:
  assumes "nl_lawful nl" "nl_dump nl (reject_of i t) = Inr raw"
  obtains u where "kalshi_parse_update nl raw = oms_parse_success u" "ou_status u = St_kRejected"
    "ou_client_order_id u = oi_client_order_id i"
  by (rule that [of "the (opr_value (kalshi_parse_update nl raw))"])
    (use assms in \<open>simp_all add: kalshi_parse_update_def nl_lawful_def reject_of_def paper_reject_json_def
      parse_reject_def recv_ts_of_def oms_parse_success_def Let_def\<close>)


definition example_cancel :: OrderIntent where
  "example_cancel = OrderIntent_default\<lparr> oi_exchange := Ex_kKalshi, oi_action := Act_kCancel, oi_client_order_id := ''A'' \<rparr>"

definition example_cancel_nl :: Nlohmann where
  "example_cancel_nl = table_nl (cancel_json example_cancel) (reject_of example_cancel example_paper) Json_null"

lemma example_cancel_docs:
  "nl_lawful example_cancel_nl" "kalshi_build_request example_cancel_nl example_cancel = Inr ''1''"
  "nl_dump example_cancel_nl (reject_of example_cancel example_paper) = Inr ''2''"
proof -
  have "json_find (reject_of example_cancel example_paper) ''action'' \<noteq> json_find (cancel_json example_cancel) ''action''"
    by (simp add: reject_of_def paper_reject_json_def)
  then have "reject_of example_cancel example_paper \<noteq> cancel_json example_cancel" by metis
  then show "nl_dump example_cancel_nl (reject_of example_cancel example_paper) = Inr ''2''"
    by (simp add: example_cancel_nl_def table_nl_def)
  show "nl_lawful example_cancel_nl" by (simp add: example_cancel_nl_def table_nl_lawful)
  show "kalshi_build_request example_cancel_nl example_cancel = Inr ''1''"
    by (simp add: kalshi_build_request_def build_cancel_request_def dump_request_def kalshi_supports_def
        example_cancel_nl_def table_nl_def cancel_json_def example_cancel_def OrderIntent_default_def)
qed


end
