(* ===== verification/Auth_Signer.thy ===== *)
theory Auth_Signer
  imports Order_Manager Json_Text "HOL-Library.Word" "HOL-Library.Sublist"
begin

text \<open>
  \<open>adapters/exchanges/kalshi/auth_signer.cpp\<close>: the headers that authenticate a websocket handshake.

  OpenSSL is the record \<open>OpenSsl\<close> of the functions the signer calls, over a library state \<open>'s\<close> (the
  heap behind its handles and its error queue): a pointer is a number, a null pointer \<open>None\<close>, a
  return code an integer. The signer itself is an action on the library state that may throw; it
  also writes the trace of its calls and of the handles it owns, a history the code does not have,
  so that the properties can speak about the order of the calls and the life of the handles. A
  \<open>std::unique_ptr\<close> with a custom deleter is \<open>ossl_guard\<close>: the deleter runs on the normal and on the
  exceptional way out of its scope.
\<close>

section \<open>OpenSSL\<close>

datatype Digest = EVP_sha1 | EVP_sha256 | EVP_sha512
datatype RsaPadding = RSA_PKCS1_PADDING | RSA_NO_PADDING | RSA_PKCS1_OAEP_PADDING | RSA_PKCS1_PSS_PADDING
datatype SaltLen = RSA_PSS_SALTLEN_DIGEST | RSA_PSS_SALTLEN_AUTO | RSA_PSS_SALTLEN_MAX

text \<open>
  \<open>EVP_DigestSignFinal\<close> is used twice, with a null buffer to ask for the length (\<open>ssl_sign_length\<close>) and with a
  buffer of that length (\<open>ssl_sign_final\<close>, which returns the bytes it wrote; their number is the
  length it stores). \<open>EVP_EncodeBlock\<close> returns its result and the characters it wrote.
\<close>

record 's OpenSsl =
  ssl_get_error :: "'s \<Rightarrow> nat \<times> 's"
  ssl_error_string_n :: "nat \<Rightarrow> nat \<Rightarrow> string"
  ssl_bio_new_mem_buf :: "string \<Rightarrow> int \<Rightarrow> 's \<Rightarrow> nat option \<times> 's"
  ssl_bio_free :: "nat \<Rightarrow> 's \<Rightarrow> 's"
  ssl_pem_read_private_key :: "nat \<Rightarrow> 's \<Rightarrow> nat option \<times> 's"
  ssl_pkey_free :: "nat \<Rightarrow> 's \<Rightarrow> 's"
  ssl_md_ctx_new :: "'s \<Rightarrow> nat option \<times> 's"
  ssl_md_ctx_free :: "nat \<Rightarrow> 's \<Rightarrow> 's"
  ssl_sign_init :: "nat \<Rightarrow> Digest \<Rightarrow> nat \<Rightarrow> 's \<Rightarrow> (int \<times> nat option) \<times> 's"
  ssl_set_rsa_padding :: "nat \<Rightarrow> RsaPadding \<Rightarrow> 's \<Rightarrow> int \<times> 's"
  ssl_set_rsa_mgf1_md :: "nat \<Rightarrow> Digest \<Rightarrow> 's \<Rightarrow> int \<times> 's"
  ssl_set_rsa_pss_saltlen :: "nat \<Rightarrow> SaltLen \<Rightarrow> 's \<Rightarrow> int \<times> 's"
  ssl_sign_update :: "nat \<Rightarrow> string \<Rightarrow> 's \<Rightarrow> int \<times> 's"
  ssl_sign_length :: "nat \<Rightarrow> 's \<Rightarrow> (int \<times> nat) \<times> 's"
  ssl_sign_final :: "nat \<Rightarrow> nat \<Rightarrow> 's \<Rightarrow> (int \<times> 8 word list) \<times> 's"
  ssl_encode_block :: "8 word list \<Rightarrow> int \<times> string"

text \<open>The handles the signer owns, its calls with what they are given, and the history of both.\<close>

datatype ossl_handle = Bio_Handle nat | Pkey_Handle nat | Md_Ctx_Handle nat

datatype ossl_call =
    Call_bio_new_mem_buf string int
  | Call_pem_read_private_key ossl_handle
  | Call_md_ctx_new
  | Call_sign_init ossl_handle Digest ossl_handle
  | Call_pkey_ctx_not_null ossl_handle
  | Call_set_rsa_padding ossl_handle RsaPadding
  | Call_set_rsa_mgf1_md ossl_handle Digest
  | Call_set_rsa_pss_saltlen ossl_handle SaltLen
  | Call_sign_update ossl_handle string
  | Call_sign_length ossl_handle
  | Call_sign_final ossl_handle nat

text \<open>The key context of \<open>EVP_DigestSignInit\<close> belongs to the digest context, so a call on the
  former uses the handle of the latter.\<close>

fun call_handles :: "ossl_call \<Rightarrow> ossl_handle set" where
  "call_handles (Call_pem_read_private_key h) = {h}"
| "call_handles (Call_sign_init h _ k) = {h, k}"
| "call_handles (Call_pkey_ctx_not_null h) = {h}"
| "call_handles (Call_set_rsa_padding h _) = {h}"
| "call_handles (Call_set_rsa_mgf1_md h _) = {h}"
| "call_handles (Call_set_rsa_pss_saltlen h _) = {h}"
| "call_handles (Call_sign_update h _) = {h}"
| "call_handles (Call_sign_length h) = {h}"
| "call_handles (Call_sign_final h _) = {h}"
| "call_handles _ = {}"

datatype ossl_event = Acquired ossl_handle | Released ossl_handle | Called ossl_call bool

type_synonym ('s, 'a) ossl = "'s \<times> ossl_event list \<Rightarrow> (Thrown + 'a) \<times> 's \<times> ossl_event list"

definition ossl_bind :: "('s, 'a) ossl \<Rightarrow> ('a \<Rightarrow> ('s, 'b) ossl) \<Rightarrow> ('s, 'b) ossl" where
  "ossl_bind m f st = (case m st of (Inl e, st') \<Rightarrow> (Inl e, st') | (Inr x, st') \<Rightarrow> f x st')"

definition ossl_guard :: "ossl_handle \<Rightarrow> ('s \<Rightarrow> 's) \<Rightarrow> ('s, 'a) ossl \<Rightarrow> ('s, 'a) ossl" where
  "ossl_guard h free scope st =
     (let (r, s', tr') = scope (fst st, snd st @ [Acquired h]) in (r, free s', tr' @ [Released h]))"

definition kOpenSslErrorBufferSize :: nat where "kOpenSslErrorBufferSize = 256"

definition openssl_error_message :: "'s OpenSsl \<Rightarrow> string \<Rightarrow> 's \<Rightarrow> string \<times> 's" where
  "openssl_error_message ssl context s =
     (let (code, s') = ssl_get_error ssl s
      in if code = 0 then (context, s')
         else (context @ '': '' @ ssl_error_string_n ssl code kOpenSslErrorBufferSize, s'))"

text \<open>A call and the check of its result: \<open>None\<close> is the null pointer or the non-positive code that
  makes the signer throw.\<close>

definition ossl_try :: "'s OpenSsl \<Rightarrow> ossl_call \<Rightarrow> string \<Rightarrow> ('s \<Rightarrow> 'a option \<times> 's) \<Rightarrow> ('s, 'a) ossl" where
  "ossl_try ssl c context f st =
     (let (s, tr) = st; (result, s') = f s
      in case result of
           None \<Rightarrow> (let (what, s'') = openssl_error_message ssl context s'
                    in (Inl (Std_exception what), s'', tr @ [Called c False]))
         | Some x \<Rightarrow> (Inr x, s', tr @ [Called c True]))"

definition rc_ok :: "int \<times> 's \<Rightarrow> unit option \<times> 's" where
  "rc_ok r = (if fst r \<le> 0 then None else Some (), snd r)"

definition rc_value :: "(int \<times> 'a) \<times> 's \<Rightarrow> 'a option \<times> 's" where
  "rc_value r = (if fst (fst r) \<le> 0 then None else Some (snd (fst r)), snd r)"

definition ossl_not_null :: "ossl_call \<Rightarrow> string \<Rightarrow> 'a option \<Rightarrow> ('s, 'a) ossl" where
  "ossl_not_null c context p st =
     (case p of
        None \<Rightarrow> (Inl (Std_exception context), fst st, snd st @ [Called c False])
      | Some x \<Rightarrow> (Inr x, fst st, snd st @ [Called c True]))"

section \<open>The signer\<close>

record Credentials =
  cd_key_id :: string
  cd_private_key_pem :: string

record AuthHeaders =
  ah_key_id :: string
  ah_timestamp_ms :: string
  ah_signature_base64 :: string

text \<open>PEM contents, or the path of a file that holds them; \<open>read_file\<close> is the file system.\<close>

definition read_file_contents :: "(string \<Rightarrow> string option) \<Rightarrow> string \<Rightarrow> Thrown + string" where
  "read_file_contents read_file path =
     (case read_file path of
        None \<Rightarrow> Inl (Std_exception (''Failed to open PEM file: '' @ path))
      | Some contents \<Rightarrow> Inr contents)"

definition resolve_private_key_pem :: "(string \<Rightarrow> string option) \<Rightarrow> string \<Rightarrow> Thrown + string" where
  "resolve_private_key_pem read_file value =
     (if value = '''' then Inl (Std_exception ''Kalshi private key is empty'')
      else if str_find ''-----BEGIN'' value 0 \<noteq> None then Inr value
      else read_file_contents read_file value)"

text \<open>Writing characters over the front of a buffer, and \<open>std::string::resize\<close>.\<close>

definition buffer_write :: "string \<Rightarrow> string \<Rightarrow> string" where
  "buffer_write buf cs = take (length buf) cs @ drop (length cs) buf"

definition str_resize :: "nat \<Rightarrow> string \<Rightarrow> string" where
  "str_resize n s = take n s @ replicate (n - length s) (CHR 0x00)"

definition base64_encode :: "'s OpenSsl \<Rightarrow> 8 word list \<Rightarrow> Thrown + string" where
  "base64_encode ssl data =
     (if length data > 2147483647 then Inl (Std_exception ''Signature is too large to base64 encode'')
      else let encoded = replicate (4 * ((length data + 2) div 3)) (CHR 0x00);
               (written, cs) = ssl_encode_block ssl data
           in if written < 0 then Inl (Std_exception ''Failed to base64 encode signature'')
              else Inr (str_resize (nat written) (buffer_write encoded cs)))"

record SignatureInput =
  si_private_key_pem :: string
  si_payload_message :: string

text \<open>The cast of the PEM's size to \<open>int\<close>.\<close>

definition int_of_size :: "nat \<Rightarrow> int" where
  "int_of_size n = sint (of_nat n :: 32 word)"

definition sign_digest :: "'s OpenSsl \<Rightarrow> ossl_handle \<Rightarrow> nat \<Rightarrow> nat \<Rightarrow> string \<Rightarrow> ('s, string) ossl" where
  "sign_digest ssl h md_ctx pkey_ctx payload =
     ossl_bind (ossl_try ssl (Call_set_rsa_padding h RSA_PKCS1_PSS_PADDING) ''Failed to set RSA-PSS padding''
       (\<lambda>s. rc_ok (ssl_set_rsa_padding ssl pkey_ctx RSA_PKCS1_PSS_PADDING s))) (\<lambda>_.
     ossl_bind (ossl_try ssl (Call_set_rsa_mgf1_md h EVP_sha256) ''Failed to set MGF1 digest''
       (\<lambda>s. rc_ok (ssl_set_rsa_mgf1_md ssl pkey_ctx EVP_sha256 s))) (\<lambda>_.
     ossl_bind (ossl_try ssl (Call_set_rsa_pss_saltlen h RSA_PSS_SALTLEN_DIGEST) ''Failed to set RSA-PSS salt length''
       (\<lambda>s. rc_ok (ssl_set_rsa_pss_saltlen ssl pkey_ctx RSA_PSS_SALTLEN_DIGEST s))) (\<lambda>_.
     ossl_bind (ossl_try ssl (Call_sign_update h payload) ''EVP_DigestSignUpdate failed''
       (\<lambda>s. rc_ok (ssl_sign_update ssl md_ctx payload s))) (\<lambda>_.
     ossl_bind (ossl_try ssl (Call_sign_length h) ''EVP_DigestSignFinal length query failed''
       (\<lambda>s. rc_value (ssl_sign_length ssl md_ctx s))) (\<lambda>signature_len.
     ossl_bind (ossl_try ssl (Call_sign_final h signature_len) ''EVP_DigestSignFinal failed''
       (\<lambda>s. rc_value (ssl_sign_final ssl md_ctx signature_len s))) (\<lambda>signature st.
     (base64_encode ssl signature, st)))))))"

definition sign_rsa_pss_sha256_base64 :: "'s OpenSsl \<Rightarrow> SignatureInput \<Rightarrow> ('s, string) ossl" where
  "sign_rsa_pss_sha256_base64 ssl inp =
     (let pem = si_private_key_pem inp; size = int_of_size (length pem) in
     ossl_bind (ossl_try ssl (Call_bio_new_mem_buf pem size) ''Failed to create BIO for private key''
       (ssl_bio_new_mem_buf ssl pem size)) (\<lambda>bio.
     ossl_guard (Bio_Handle bio) (ssl_bio_free ssl bio) (
     ossl_bind (ossl_try ssl (Call_pem_read_private_key (Bio_Handle bio)) ''Failed to parse private key PEM''
       (ssl_pem_read_private_key ssl bio)) (\<lambda>pkey.
     ossl_guard (Pkey_Handle pkey) (ssl_pkey_free ssl pkey) (
     ossl_bind (ossl_try ssl Call_md_ctx_new ''Failed to create digest context'' (ssl_md_ctx_new ssl)) (\<lambda>md_ctx.
     ossl_guard (Md_Ctx_Handle md_ctx) (ssl_md_ctx_free ssl md_ctx) (
     ossl_bind (ossl_try ssl (Call_sign_init (Md_Ctx_Handle md_ctx) EVP_sha256 (Pkey_Handle pkey)) ''EVP_DigestSignInit failed''
       (\<lambda>s. rc_value (ssl_sign_init ssl md_ctx EVP_sha256 pkey s))) (\<lambda>p.
     ossl_bind (ossl_not_null (Call_pkey_ctx_not_null (Md_Ctx_Handle md_ctx))
       ''EVP_DigestSignInit returned null EVP_PKEY_CTX'' p) (\<lambda>pkey_ctx.
     sign_digest ssl (Md_Ctx_Handle md_ctx) md_ctx pkey_ctx (si_payload_message inp))))))))))"

text \<open>
  The members of \<open>AuthSigner\<close> take the signature function as an argument; \<open>openssl_sign\<close> is the one
  the program links, at the library state in which it is called.
\<close>

definition openssl_sign :: "'s OpenSsl \<Rightarrow> 's \<Rightarrow> string \<Rightarrow> string \<Rightarrow> Thrown + string" where
  "openssl_sign ssl s pem payload =
     fst (sign_rsa_pss_sha256_base64 ssl \<lparr> si_private_key_pem = pem, si_payload_message = payload \<rparr> (s, []))"

definition sign_payload_base64 ::
    "(string \<Rightarrow> string option) \<Rightarrow> (string \<Rightarrow> string \<Rightarrow> Thrown + string) \<Rightarrow> Credentials \<Rightarrow> string \<Rightarrow> Thrown + string" where
  "sign_payload_base64 read_file sign creds payload =
     (case resolve_private_key_pem read_file (cd_private_key_pem creds) of
        Inl e \<Rightarrow> Inl e
      | Inr pem \<Rightarrow> sign pem payload)"

definition make_auth_headers ::
    "(string \<Rightarrow> string option) \<Rightarrow> (string \<Rightarrow> string \<Rightarrow> Thrown + string) \<Rightarrow> nat \<Rightarrow> Credentials \<Rightarrow> string \<Rightarrow> string
      \<Rightarrow> Thrown + AuthHeaders" where
  "make_auth_headers read_file sign now_ms creds http_method path =
     (let timestamp_ms = std_to_string now_ms; payload = timestamp_ms @ http_method @ path
      in case sign_payload_base64 read_file sign creds payload of
           Inl e \<Rightarrow> Inl e
         | Inr signature \<Rightarrow> Inr \<lparr> ah_key_id = cd_key_id creds, ah_timestamp_ms = timestamp_ms,
             ah_signature_base64 = signature \<rparr>)"

definition make_ws_headers ::
    "(string \<Rightarrow> string option) \<Rightarrow> (string \<Rightarrow> string \<Rightarrow> Thrown + string) \<Rightarrow> nat \<Rightarrow> Credentials \<Rightarrow> string \<Rightarrow> Thrown + AuthHeaders" where
  "make_ws_headers read_file sign now_ms creds ws_path = make_auth_headers read_file sign now_ms creds ''GET'' ws_path"

section \<open>Handles\<close>

text \<open>
  The stack of the handles that are live after a history: a handle is released in the reverse
  order of acquisition, and a call uses live handles only; otherwise the history has no result.
\<close>

fun handle_run :: "ossl_handle list \<Rightarrow> ossl_event list \<Rightarrow> ossl_handle list option" where
  "handle_run live [] = Some live"
| "handle_run live (Acquired h # es) = handle_run (h # live) es"
| "handle_run live (Released h # es) =
     (case live of [] \<Rightarrow> None | h' # live' \<Rightarrow> if h = h' then handle_run live' es else None)"
| "handle_run live (Called c ok # es) = (if call_handles c \<subseteq> set live then handle_run live es else None)"

lemma handle_run_append:
  "handle_run live (es @ fs) = Option.bind (handle_run live es) (\<lambda>live'. handle_run live' fs)"
  by (induction live es rule: handle_run.induct) (auto split: list.splits)

definition balanced :: "ossl_handle list \<Rightarrow> ('s, 'a) ossl \<Rightarrow> bool" where
  "balanced live act \<longleftrightarrow> (\<forall>st. \<exists>es. snd (snd (act st)) = snd st @ es \<and> handle_run live es = Some live)"

named_theorems balanced_intros

lemma balanced_bind [balanced_intros]:
  assumes "balanced live m" and "\<And>x. balanced live (f x)"
  shows "balanced live (ossl_bind m f)"
  unfolding balanced_def
proof
  fix st
  obtain r st1 where m: "m st = (r, st1)" by (cases "m st")
  with assms(1) obtain es where es: "snd st1 = snd st @ es" "handle_run live es = Some live"
    unfolding balanced_def by (metis snd_conv)
  show "\<exists>es. snd (snd (ossl_bind m f st)) = snd st @ es \<and> handle_run live es = Some live"
  proof (cases r)
    case Inl
    then show ?thesis using m es by (auto simp: ossl_bind_def)
  next
    case (Inr x)
    obtain fs where "snd (snd (f x st1)) = snd st1 @ fs" "handle_run live fs = Some live"
      using assms(2) [of x] unfolding balanced_def by blast
    then show ?thesis using m es Inr by (intro exI [of _ "es @ fs"]) (simp add: ossl_bind_def handle_run_append)
  qed
qed

lemma balanced_guard [balanced_intros]:
  assumes "balanced (h # live) scope"
  shows "balanced live (ossl_guard h free scope)"
  unfolding balanced_def
proof
  fix st
  obtain r s' tr' where m: "scope (fst st, snd st @ [Acquired h]) = (r, s', tr')" by (metis prod_cases3)
  with assms obtain es where "tr' = (snd st @ [Acquired h]) @ es" "handle_run (h # live) es = Some (h # live)"
    unfolding balanced_def by (metis snd_conv)
  then show "\<exists>es. snd (snd (ossl_guard h free scope st)) = snd st @ es \<and> handle_run live es = Some live"
    using m by (intro exI [of _ "Acquired h # es @ [Released h]"]) (simp add: ossl_guard_def handle_run_append)
qed

lemma balanced_try [balanced_intros]:
  "call_handles c \<subseteq> set live \<Longrightarrow> balanced live (ossl_try ssl c context f)"
  by (auto simp: balanced_def ossl_try_def Let_def split: prod.splits option.splits)

lemma balanced_not_null [balanced_intros]:
  "call_handles c \<subseteq> set live \<Longrightarrow> balanced live (ossl_not_null c context p)"
  by (auto simp: balanced_def ossl_not_null_def split: option.splits)

lemma balanced_result [balanced_intros]: "balanced live (\<lambda>st. (r, st))"
  by (simp add: balanced_def)

lemma balanced_sign_digest [balanced_intros]:
  "h \<in> set live \<Longrightarrow> balanced live (sign_digest ssl h md_ctx pkey_ctx payload)"
  unfolding sign_digest_def by (intro balanced_intros) simp_all

lemma balanced_sign: "balanced [] (sign_rsa_pss_sha256_base64 ssl inp)"
  unfolding sign_rsa_pss_sha256_base64_def Let_def by (intro balanced_intros) simp_all


section \<open>Calls\<close>

fun ossl_calls :: "ossl_event list \<Rightarrow> (ossl_call \<times> bool) list" where
  "ossl_calls [] = []"
| "ossl_calls (Called c ok # es) = (c, ok) # ossl_calls es"
| "ossl_calls (_ # es) = ossl_calls es"

lemma ossl_calls_append [simp]: "ossl_calls (es @ fs) = ossl_calls es @ ossl_calls fs"
  by (induction es rule: ossl_calls.induct) simp_all

text \<open>What the exception for a failed call begins with.\<close>

fun call_context :: "ossl_call \<Rightarrow> string" where
  "call_context (Call_bio_new_mem_buf _ _) = ''Failed to create BIO for private key''"
| "call_context (Call_pem_read_private_key _) = ''Failed to parse private key PEM''"
| "call_context Call_md_ctx_new = ''Failed to create digest context''"
| "call_context (Call_sign_init _ _ _) = ''EVP_DigestSignInit failed''"
| "call_context (Call_pkey_ctx_not_null _) = ''EVP_DigestSignInit returned null EVP_PKEY_CTX''"
| "call_context (Call_set_rsa_padding _ _) = ''Failed to set RSA-PSS padding''"
| "call_context (Call_set_rsa_mgf1_md _ _) = ''Failed to set MGF1 digest''"
| "call_context (Call_set_rsa_pss_saltlen _ _) = ''Failed to set RSA-PSS salt length''"
| "call_context (Call_sign_update _ _) = ''EVP_DigestSignUpdate failed''"
| "call_context (Call_sign_length _) = ''EVP_DigestSignFinal length query failed''"
| "call_context (Call_sign_final _ _) = ''EVP_DigestSignFinal failed''"

definition base64_errors :: "Thrown set" where
  "base64_errors = {Std_exception ''Signature is too large to base64 encode'',
     Std_exception ''Failed to base64 encode signature''}"

lemma base64_encode_error: "base64_encode ssl data = Inl e \<Longrightarrow> e \<in> base64_errors"
  by (auto simp: base64_encode_def base64_errors_def Let_def split: if_splits prod.splits)

text \<open>The calls of an action and its outcome: all succeed, or the last one fails and the exception is about it.\<close>

definition calls_explain :: "(ossl_call \<times> bool) list \<Rightarrow> Thrown + 'a \<Rightarrow> bool" where
  "calls_explain calls r \<longleftrightarrow>
     (case r of
        Inr _ \<Rightarrow> (\<forall>(c, ok)\<in>set calls. ok)
      | Inl e \<Rightarrow> ((\<forall>(c, ok)\<in>set calls. ok) \<and> e \<in> base64_errors) \<or>
          (\<exists>cs c rest. calls = cs @ [(c, False)] \<and> (\<forall>(c, ok)\<in>set cs. ok) \<and> e = Std_exception (call_context c @ rest)))"

lemma calls_explain_prefix:
  "(\<forall>(c, ok)\<in>set cs. ok) \<Longrightarrow> calls_explain ds r \<Longrightarrow> calls_explain (cs @ ds) r"
  unfolding calls_explain_def by (cases r) (fastforce intro: append_assoc [symmetric])+

definition explained :: "('s, 'a) ossl \<Rightarrow> bool" where
  "explained act \<longleftrightarrow> (\<forall>st. \<exists>es. snd (snd (act st)) = snd st @ es \<and> calls_explain (ossl_calls es) (fst (act st)))"

named_theorems explained_intros

lemma explained_bind [explained_intros]:
  assumes "explained m" and "\<And>x. explained (f x)"
  shows "explained (ossl_bind m f)"
  unfolding explained_def
proof
  fix st
  obtain r st1 where m: "m st = (r, st1)" by (cases "m st")
  with assms(1) obtain es where es: "snd st1 = snd st @ es" "calls_explain (ossl_calls es) r"
    unfolding explained_def by (metis fst_conv snd_conv)
  show "\<exists>es. snd (snd (ossl_bind m f st)) = snd st @ es \<and> calls_explain (ossl_calls es) (fst (ossl_bind m f st))"
  proof (cases r)
    case Inl
    then show ?thesis using m es by (auto simp: ossl_bind_def calls_explain_def)
  next
    case (Inr x)
    obtain fs where "snd (snd (f x st1)) = snd st1 @ fs" "calls_explain (ossl_calls fs) (fst (f x st1))"
      using assms(2) [of x] unfolding explained_def by blast
    moreover have "\<forall>(c, ok)\<in>set (ossl_calls es). ok" using es(2) Inr by (simp add: calls_explain_def)
    ultimately show ?thesis using m es(1) Inr
      by (intro exI [of _ "es @ fs"]) (simp add: ossl_bind_def calls_explain_prefix)
  qed
qed

lemma explained_guard [explained_intros]:
  assumes "explained scope"
  shows "explained (ossl_guard h free scope)"
  unfolding explained_def
proof
  fix st
  obtain r s' tr' where m: "scope (fst st, snd st @ [Acquired h]) = (r, s', tr')" by (metis prod_cases3)
  with assms obtain es where "tr' = (snd st @ [Acquired h]) @ es" "calls_explain (ossl_calls es) r"
    unfolding explained_def by (metis fst_conv snd_conv)
  then show "\<exists>es. snd (snd (ossl_guard h free scope st)) = snd st @ es \<and>
      calls_explain (ossl_calls es) (fst (ossl_guard h free scope st))"
    using m by (intro exI [of _ "Acquired h # es @ [Released h]"]) (simp add: ossl_guard_def)
qed

lemma openssl_error_message_prefix: "\<exists>rest. fst (openssl_error_message ssl context s) = context @ rest"
  by (auto simp: openssl_error_message_def Let_def split: prod.splits)

lemma explained_try [explained_intros]:
  assumes "call_context c = context"
  shows "explained (ossl_try ssl c context f)"
  unfolding explained_def
proof
  fix st
  obtain r s' where f: "f (fst (st :: _ \<times> ossl_event list)) = (r, s')" by (cases "f (fst st)")
  obtain rest where "fst (openssl_error_message ssl context s') = call_context c @ rest"
    using openssl_error_message_prefix assms by metis
  then show "\<exists>es. snd (snd (ossl_try ssl c context f st)) = snd st @ es \<and>
      calls_explain (ossl_calls es) (fst (ossl_try ssl c context f st))"
    using f by (cases r) (auto simp: ossl_try_def calls_explain_def split: prod.splits)
qed

lemma explained_not_null [explained_intros]:
  "call_context c = context \<Longrightarrow> explained (ossl_not_null c context p)"
  by (auto simp: explained_def ossl_not_null_def calls_explain_def split: option.splits)

lemma explained_base64 [explained_intros]: "explained (\<lambda>st. (base64_encode ssl data, st))"
  by (auto simp: explained_def calls_explain_def dest: base64_encode_error split: sum.splits)

lemma explained_sign: "explained (sign_rsa_pss_sha256_base64 ssl inp)"
  unfolding sign_rsa_pss_sha256_base64_def sign_digest_def Let_def by (intro explained_intros) simp_all
text \<open>
  An exception of the signer names its cause. When signing throws, either every OpenSSL call
  succeeded and the base64 step failed with one of its two messages, or the calls up to some point
  succeeded, the next one failed, it was the last one made, and the message begins with the text for
  that call.
\<close>

theorem signer_error_names_call:
  assumes "sign_rsa_pss_sha256_base64 ssl inp (s, []) = (Inl e, s', tr)"
  shows "((\<forall>(c, ok)\<in>set (ossl_calls tr). ok) \<and> e \<in> base64_errors) \<or>
    (\<exists>cs c rest. ossl_calls tr = cs @ [(c, False)] \<and> (\<forall>(c, ok)\<in>set cs. ok) \<and> e = Std_exception (call_context c @ rest))"
proof -
  obtain es where "snd (snd (sign_rsa_pss_sha256_base64 ssl inp (s, []))) = snd (s, []) @ es"
      "calls_explain (ossl_calls es) (fst (sign_rsa_pss_sha256_base64 ssl inp (s, [])))"
    using explained_sign [of ssl inp] unfolding explained_def by blast
  then show ?thesis unfolding assms calls_explain_def by simp
qed

lemma ossl_bind_Inr:
  assumes "ossl_bind m f st = (Inr y, st')"
  obtains x st1 where "m st = (Inr x, st1)" "f x st1 = (Inr y, st')"
  using assms by (cases "m st") (auto simp: ossl_bind_def split: sum.splits)

lemma ossl_guard_Inr:
  assumes "ossl_guard h free scope (s, tr) = (Inr y, s', tr')"
  obtains s1 tr1 where "scope (s, tr @ [Acquired h]) = (Inr y, s1, tr1)" "tr' = tr1 @ [Released h]"
  using assms by (auto simp: ossl_guard_def split: prod.splits)

lemma ossl_try_Inr:
  assumes "ossl_try ssl c context f (s, tr) = (Inr x, st')"
  obtains s1 where "f s = (Some x, s1)" "st' = (s1, tr @ [Called c True])"
  using assms by (auto simp: ossl_try_def split: prod.splits option.splits)

lemma ossl_not_null_Inr:
  assumes "ossl_not_null c context p (s, tr) = (Inr x, st')"
  obtains "p = Some x" "st' = (s, tr @ [Called c True])"
  using assms by (auto simp: ossl_not_null_def split: option.splits)

lemma rc_value_Some:
  assumes "rc_value r = (Some x, s)"
  obtains rc where "r = ((rc, x), s)" "0 < rc"
  using assms by (cases r) (auto simp: rc_value_def split: if_splits)

lemmas ossl_InrE = ossl_bind_Inr ossl_guard_Inr ossl_try_Inr ossl_not_null_Inr

text \<open>The calls of a signature that is returned, up to and from the digest context on.\<close>

definition key_calls :: "string \<Rightarrow> ossl_handle \<Rightarrow> ossl_handle \<Rightarrow> ossl_handle \<Rightarrow> ossl_event list" where
  "key_calls pem bio pkey md = [
     Called (Call_bio_new_mem_buf pem (int_of_size (length pem))) True, Acquired bio,
     Called (Call_pem_read_private_key bio) True, Acquired pkey,
     Called Call_md_ctx_new True, Acquired md,
     Called (Call_sign_init md EVP_sha256 pkey) True, Called (Call_pkey_ctx_not_null md) True]"

definition digest_calls :: "ossl_handle \<Rightarrow> string \<Rightarrow> nat \<Rightarrow> ossl_event list" where
  "digest_calls md payload n = [
     Called (Call_set_rsa_padding md RSA_PKCS1_PSS_PADDING) True,
     Called (Call_set_rsa_mgf1_md md EVP_sha256) True,
     Called (Call_set_rsa_pss_saltlen md RSA_PSS_SALTLEN_DIGEST) True,
     Called (Call_sign_update md payload) True,
     Called (Call_sign_length md) True, Called (Call_sign_final md n) True]"

lemma sign_digest_Inr:
  assumes "sign_digest ssl h md_ctx pkey_ctx payload (s, tr) = (Inr sig, s', tr')"
  obtains n data s1 rc where "ssl_sign_final ssl md_ctx n s1 = ((rc, data), s')" "0 < rc"
    "base64_encode ssl data = Inr sig" "tr' = tr @ digest_calls h payload n"
  using assms unfolding sign_digest_def
  by (auto elim!: ossl_InrE elim: rc_value_Some simp: digest_calls_def)

lemma sign_Inr:
  assumes "sign_rsa_pss_sha256_base64 ssl inp (s, []) = (Inr sig, s', tr)"
  obtains bio pkey md n data rc s1 s2 where "ssl_sign_final ssl md n s1 = ((rc, data), s2)" "0 < rc"
    "base64_encode ssl data = Inr sig"
    "tr = key_calls (si_private_key_pem inp) (Bio_Handle bio) (Pkey_Handle pkey) (Md_Ctx_Handle md) @
       digest_calls (Md_Ctx_Handle md) (si_payload_message inp) n @
       [Released (Md_Ctx_Handle md), Released (Pkey_Handle pkey), Released (Bio_Handle bio)]"
  using assms unfolding sign_rsa_pss_sha256_base64_def Let_def
  by (auto elim!: ossl_InrE sign_digest_Inr simp: key_calls_def)

lemma base64_encode_text:
  assumes "ssl_encode_block ssl data = (int (length cs), cs)" "length cs = 4 * ((length data + 2) div 3)"
    "length data \<le> 2147483647"
  shows "base64_encode ssl data = Inr cs"
  using assms by (simp add: base64_encode_def str_resize_def buffer_write_def)


text \<open>A library for the witnesses: handles are counted from the number of calls made, the signature is three zero bytes.\<close>

definition example_openssl :: "nat OpenSsl" where
  "example_openssl = \<lparr>
     ssl_get_error = (\<lambda>s. (0, s)), ssl_error_string_n = (\<lambda>code n. ''''),
     ssl_bio_new_mem_buf = (\<lambda>pem n s. (Some s, s + 1)), ssl_bio_free = (\<lambda>h s. s + 1),
     ssl_pem_read_private_key = (\<lambda>h s. (Some s, s + 1)), ssl_pkey_free = (\<lambda>h s. s + 1),
     ssl_md_ctx_new = (\<lambda>s. (Some s, s + 1)), ssl_md_ctx_free = (\<lambda>h s. s + 1),
     ssl_sign_init = (\<lambda>h d k s. ((1, Some s), s + 1)), ssl_set_rsa_padding = (\<lambda>h p s. (1, s + 1)),
     ssl_set_rsa_mgf1_md = (\<lambda>h d s. (1, s + 1)), ssl_set_rsa_pss_saltlen = (\<lambda>h l s. (1, s + 1)),
     ssl_sign_update = (\<lambda>h d s. (1, s + 1)), ssl_sign_length = (\<lambda>h s. ((1, 3), s + 1)),
     ssl_sign_final = (\<lambda>h n s. ((1, replicate n 0), s + 1)),
     ssl_encode_block = (\<lambda>d. (4 * ((int (length d) + 2) div 3), replicate (4 * ((length d + 2) div 3)) (CHR ''A''))) \<rparr>"

lemmas ossl_step_defs = ossl_bind_def ossl_guard_def ossl_try_def ossl_not_null_def rc_ok_def rc_value_def
  openssl_error_message_def example_openssl_def Let_def

definition example_credentials :: Credentials where
  "example_credentials = \<lparr> cd_key_id = ''key'', cd_private_key_pem = ''-----BEGIN'' \<rparr>"

lemma example_key:
  "resolve_private_key_pem (\<lambda>_. None) (cd_private_key_pem example_credentials) = Inr ''-----BEGIN''"
  by (simp add: resolve_private_key_pem_def str_find_def example_credentials_def)

lemma example_timestamp: "std_to_string 5 = ''5''"
  by code_simp

lemma example_base64: "base64_encode example_openssl (replicate 3 0) = Inr ''AAAA''"
  by (rule base64_encode_text) (simp_all add: example_openssl_def, simp add: numeral_eq_Suc)

lemma example_signature: "openssl_sign example_openssl s pem payload = Inr ''AAAA''"
proof -
  have "openssl_sign example_openssl s pem payload = base64_encode example_openssl (replicate 3 0)"
    unfolding openssl_sign_def sign_rsa_pss_sha256_base64_def sign_digest_def Let_def
    by (simp add: ossl_step_defs)
  then show ?thesis by (simp add: example_base64)
qed

lemma example_headers:
  "make_auth_headers (\<lambda>_. None) (openssl_sign example_openssl 7) 5 example_credentials ''GET'' ''/ws'' =
     Inr \<lparr> ah_key_id = ''key'', ah_timestamp_ms = ''5'', ah_signature_base64 = ''AAAA'' \<rparr>"
  by (simp add: make_auth_headers_def sign_payload_base64_def example_key example_timestamp example_signature)
    (simp add: example_credentials_def)


text \<open>The same library without memory for the digest context.\<close>

definition example_openssl_failing :: "nat OpenSsl" where
  "example_openssl_failing = example_openssl\<lparr>ssl_md_ctx_new := (\<lambda>s. (None, s)), ssl_get_error := (\<lambda>s. (65, s)),
     ssl_error_string_n := (\<lambda>code n. ''malloc failure'')\<rparr>"

theorem signer_error_names_call_witness:
  "\<exists>e s' tr. sign_rsa_pss_sha256_base64 example_openssl_failing
      \<lparr> si_private_key_pem = ''PEM'', si_payload_message = ''5GET/ws'' \<rparr> (7, []) = (Inl e, s', tr) \<and>
    (((\<forall>(c, ok)\<in>set (ossl_calls tr). ok) \<and> e \<in> base64_errors) \<or>
     (\<exists>cs c rest. ossl_calls tr = cs @ [(c, False)] \<and> (\<forall>(c, ok)\<in>set cs. ok) \<and> e = Std_exception (call_context c @ rest)))"
proof -
  have "\<exists>s' tr. sign_rsa_pss_sha256_base64 example_openssl_failing
      \<lparr> si_private_key_pem = ''PEM'', si_payload_message = ''5GET/ws'' \<rparr> (7, []) =
    (Inl (Std_exception ''Failed to create digest context: malloc failure''), s', tr)"
    by (simp add: example_openssl_failing_def sign_rsa_pss_sha256_base64_def ossl_step_defs)
  then obtain s' tr where "sign_rsa_pss_sha256_base64 example_openssl_failing
      \<lparr> si_private_key_pem = ''PEM'', si_payload_message = ''5GET/ws'' \<rparr> (7, []) =
    (Inl (Std_exception ''Failed to create digest context: malloc failure''), s', tr)" by blast
  then show ?thesis using signer_error_names_call by (intro exI conjI)
qed

end
