(* ===== verification/Ws_Feed.thy ===== *)
theory Ws_Feed
  imports Auth_Signer Frame_Pool "HOL-Library.Char_ord" "HOL-Library.List_Lexorder"
begin

text \<open>
  The websocket side: \<open>adapters/ws/client.cpp\<close> (endpoints and the transport over Boost.Beast),
  \<open>adapters/ws/session.cpp\<close>, \<open>adapters/ws/feed_runner.cpp\<close>, the exchange adapters that build connect
  and subscribe requests, and
  \<open>oms/ws_order_transport.cpp\<close>. The network, the signature, the file system and the clock are
  arguments; a network operation returns the new state of the network and an error message or a
  result. The thread of the feed runner is a sequence of \<open>feed_step\<close>s, one per round of its two
  nested loops; the stop token decides how many there are, and the reconnect back-off has no effect on the state.
\<close>

section \<open>Endpoints\<close>

definition to_lower_char :: "char \<Rightarrow> char" where
  "to_lower_char c = (if 65 \<le> (of_char c :: nat) \<and> (of_char c :: nat) \<le> 90 then char_of ((of_char c :: nat) + 32) else c)"

definition to_lower :: "string \<Rightarrow> string" where
  "to_lower s = map to_lower_char s"

record EndpointParts =
  ep_scheme :: string
  ep_host :: string
  ep_port :: string
  ep_target :: string

definition is_default_port :: "string \<Rightarrow> string \<Rightarrow> bool" where
  "is_default_port scheme port \<longleftrightarrow> (scheme = ''wss'' \<and> port = ''443'') \<or> (scheme = ''ws'' \<and> port = ''80'')"

text \<open>Host and port of an authority; the port is empty when none is given.\<close>

definition split_authority :: "string \<Rightarrow> string + string \<times> string" where
  "split_authority authority =
     (if hd authority = CHR ''['' then
        (case str_find '']'' authority 0 of
           None \<Rightarrow> Inl ''Malformed IPv6 host in endpoint''
         | Some bracket_end \<Rightarrow>
             let host = take (bracket_end - 1) (drop 1 authority) in
             if bracket_end + 1 < length authority then
               (if authority ! (bracket_end + 1) \<noteq> CHR '':'' then Inl ''Malformed port in endpoint authority''
                else Inr (host, drop (bracket_end + 2) authority))
             else Inr (host, ''''))
      else (case str_find '':'' authority 0 of
              None \<Rightarrow> Inr (authority, '''')
            | Some colon \<Rightarrow>
                if CHR '':'' \<in> set (drop (colon + 1) authority) then Inr (authority, '''')
                else Inr (take colon authority, drop (colon + 1) authority)))"

definition parse_ws_endpoint :: "string \<Rightarrow> string + EndpointParts" where
  "parse_ws_endpoint endpoint =
     (if endpoint = '''' then Inl ''Websocket endpoint is empty''
      else case str_find ''://'' endpoint 0 of
          None \<Rightarrow> Inl ''Websocket endpoint must include a scheme (ws:// or wss://)''
        | Some scheme_pos \<Rightarrow>
            let scheme = to_lower (take scheme_pos endpoint) in
            if scheme \<noteq> ''ws'' \<and> scheme \<noteq> ''wss'' then Inl (''Unsupported websocket scheme: '' @ scheme)
            else let authority_start = scheme_pos + 3 in
            if authority_start \<ge> length endpoint then Inl ''Websocket endpoint missing authority''
            else let path_start = str_find ''/'' endpoint authority_start;
                     authority = (case path_start of
                         None \<Rightarrow> drop authority_start endpoint
                       | Some p \<Rightarrow> take (p - authority_start) (drop authority_start endpoint));
                     target = (case path_start of None \<Rightarrow> ''/'' | Some p \<Rightarrow> drop p endpoint)
                 in if authority = '''' then Inl ''Websocket endpoint authority is empty''
                    else case split_authority authority of
                        Inl e \<Rightarrow> Inl e
                      | Inr (host, port) \<Rightarrow>
                          if host = '''' then Inl ''Websocket endpoint host is empty''
                          else Inr \<lparr> ep_scheme = scheme, ep_host = host,
                                 ep_port = (if port = '''' then (if scheme = ''wss'' then ''443'' else ''80'') else port),
                                 ep_target = target \<rparr>)"

section \<open>The transport over Boost.Beast\<close>

record WsTransportConfig =
  wtc_endpoint :: string
  wtc_headers :: "(string \<times> string) list"

text \<open>The interface \<open>IWsTransport\<close>.\<close>

record 'w WsTransport =
  ws_connect :: "'w \<Rightarrow> WsTransportConfig \<Rightarrow> 'w \<times> bool"
  ws_send_text :: "'w \<Rightarrow> string \<Rightarrow> 'w \<times> bool"
  ws_recv_text :: "'w \<Rightarrow> 'w \<times> string option"
  ws_close :: "'w \<Rightarrow> 'w"
  ws_last_error :: "'w \<Rightarrow> string"

text \<open>
  What the implementation uses of Boost.Beast and of OpenSSL below it: an operation returns its error
  message, if any; \<open>SSL_set_tlsext_host_name\<close> returns a code and leaves the reason in the error queue.
\<close>

record 'n WsNetwork =
  wn_set_verify_peer :: "'n \<Rightarrow> 'n"
  wn_set_default_verify_paths :: "'n \<Rightarrow> 'n \<times> string option"
  wn_get_error :: "'n \<Rightarrow> nat \<times> 'n"
  wn_error_string_n :: "nat \<Rightarrow> nat \<Rightarrow> string"
  wn_reset :: "'n \<Rightarrow> 'n"
  wn_resolve :: "'n \<Rightarrow> string \<Rightarrow> string \<Rightarrow> 'n \<times> string option"
  wn_tcp_connect :: "'n \<Rightarrow> 'n \<times> string option"
  wn_set_sni :: "'n \<Rightarrow> string \<Rightarrow> 'n \<times> int"
  wn_tls_handshake :: "'n \<Rightarrow> 'n \<times> string option"
  wn_ws_handshake :: "'n \<Rightarrow> (string \<times> string) list \<Rightarrow> string \<Rightarrow> string \<Rightarrow> 'n \<times> string option"
  wn_write :: "'n \<Rightarrow> string \<Rightarrow> 'n \<times> string option"
  wn_read :: "'n \<Rightarrow> 'n \<times> (string + string)"
  wn_ws_close :: "'n \<Rightarrow> 'n \<times> string option"

record 'n BeastTransport =
  bt_net :: 'n
  bt_connected :: bool
  bt_last_error :: string
  bt_endpoint :: EndpointParts

definition beast_new :: "'n WsNetwork \<Rightarrow> 'n \<Rightarrow> 'n BeastTransport" where
  "beast_new net n =
     (let (n, e) = wn_set_default_verify_paths net (wn_set_verify_peer net n)
      in \<lparr> bt_net = n, bt_connected = False,
           bt_last_error = (case e of None \<Rightarrow> '''' | Some what \<Rightarrow> ''Failed to load default TLS CA paths: '' @ what),
           bt_endpoint = \<lparr> ep_scheme = '''', ep_host = '''', ep_port = '''', ep_target = '''' \<rparr> \<rparr>)"

definition reset_stream :: "'n WsNetwork \<Rightarrow> 'n BeastTransport \<Rightarrow> 'n BeastTransport" where
  "reset_stream net t = t\<lparr>bt_net := wn_reset net (bt_net t), bt_connected := False\<rparr>"

definition ws_openssl_error_message :: "'n WsNetwork \<Rightarrow> string \<Rightarrow> 'n \<Rightarrow> string \<times> 'n" where
  "ws_openssl_error_message net context n =
     (let (code, n') = wn_get_error net n
      in if code = 0 then (context, n')
         else (context @ '': '' @ wn_error_string_n net code kOpenSslErrorBufferSize, n'))"

definition set_sni :: "'n WsNetwork \<Rightarrow> string \<Rightarrow> 'n \<Rightarrow> 'n \<times> string option" where
  "set_sni net host n =
     (let (n, rc) = wn_set_sni net n host
      in if rc \<noteq> 1 then (let (what, n) = ws_openssl_error_message net ''SNI setup failed'' n in (n, Some what))
         else (n, None))"

definition beast_close :: "'n WsNetwork \<Rightarrow> 'n BeastTransport \<Rightarrow> 'n BeastTransport" where
  "beast_close net t =
     (if \<not> bt_connected t then t
      else case wn_ws_close net (bt_net t) of
          (n, None) \<Rightarrow> t\<lparr>bt_net := n, bt_connected := False\<rparr>
        | (n, Some e) \<Rightarrow> t\<lparr>bt_net := n, bt_connected := False, bt_last_error := ''Websocket close error: '' @ e\<rparr>)"

text \<open>One step of \<open>connect\<close>: on an error the message is recorded and \<open>connect\<close> returns false.\<close>

definition beast_try ::
    "string \<Rightarrow> ('n \<Rightarrow> 'n \<times> string option) \<Rightarrow> ('n BeastTransport \<Rightarrow> 'n BeastTransport \<times> bool)
      \<Rightarrow> 'n BeastTransport \<Rightarrow> 'n BeastTransport \<times> bool" where
  "beast_try what operation continue t =
     (case operation (bt_net t) of
        (n, Some e) \<Rightarrow> (t\<lparr>bt_net := n, bt_last_error := what @ e\<rparr>, False)
      | (n, None) \<Rightarrow> continue (t\<lparr>bt_net := n\<rparr>))"

definition handshake_host :: "EndpointParts \<Rightarrow> string" where
  "handshake_host ep = (if is_default_port (ep_scheme ep) (ep_port ep) then ep_host ep
     else ep_host ep @ '':'' @ ep_port ep)"

definition beast_connect :: "'n WsNetwork \<Rightarrow> 'n BeastTransport \<Rightarrow> WsTransportConfig \<Rightarrow> 'n BeastTransport \<times> bool" where
  "beast_connect net t config =
     (let t = beast_close net t;
          t = (reset_stream net t)\<lparr>bt_last_error := ''''\<rparr>
      in case parse_ws_endpoint (wtc_endpoint config) of
           Inl e \<Rightarrow> (t\<lparr>bt_last_error := e\<rparr>, False)
         | Inr ep \<Rightarrow>
             if ep_scheme ep \<noteq> ''wss''
             then (t\<lparr>bt_last_error := ''Only wss:// endpoints are supported by BoostBeastWsTransport right now''\<rparr>, False)
             else beast_try ''DNS resolve failed: '' (\<lambda>n. wn_resolve net n (ep_host ep) (ep_port ep))
                    (beast_try ''TCP connect failed: '' (wn_tcp_connect net)
                      (beast_try '''' (set_sni net (ep_host ep))
                        (beast_try ''TLS handshake failed: '' (wn_tls_handshake net)
                          (beast_try ''Websocket handshake failed: ''
                             (\<lambda>n. wn_ws_handshake net n (wtc_headers config) (handshake_host ep) (ep_target ep))
                             (\<lambda>t. (t\<lparr>bt_connected := True\<rparr>, True))))))
                    (t\<lparr>bt_endpoint := ep\<rparr>))"

definition beast_send_text :: "'n WsNetwork \<Rightarrow> 'n BeastTransport \<Rightarrow> string \<Rightarrow> 'n BeastTransport \<times> bool" where
  "beast_send_text net t payload =
     (if \<not> bt_connected t then (t\<lparr>bt_last_error := ''Cannot send: websocket is not connected''\<rparr>, False)
      else case wn_write net (bt_net t) payload of
          (n, Some e) \<Rightarrow> (t\<lparr>bt_net := n, bt_last_error := ''Websocket write failed: '' @ e\<rparr>, False)
        | (n, None) \<Rightarrow> (t\<lparr>bt_net := n\<rparr>, True))"

definition beast_recv_text :: "'n WsNetwork \<Rightarrow> 'n BeastTransport \<Rightarrow> 'n BeastTransport \<times> string option" where
  "beast_recv_text net t =
     (if \<not> bt_connected t then (t\<lparr>bt_last_error := ''Cannot receive: websocket is not connected''\<rparr>, None)
      else case wn_read net (bt_net t) of
          (n, Inl e) \<Rightarrow> (t\<lparr>bt_net := n, bt_last_error := ''Websocket read failed: '' @ e\<rparr>, None)
        | (n, Inr message) \<Rightarrow> (t\<lparr>bt_net := n\<rparr>, Some message))"

definition beast_transport :: "'n WsNetwork \<Rightarrow> 'n BeastTransport WsTransport" where
  "beast_transport net = \<lparr> ws_connect = beast_connect net, ws_send_text = beast_send_text net,
     ws_recv_text = beast_recv_text net, ws_close = beast_close net, ws_last_error = bt_last_error \<rparr>"

text \<open>The order transport over a websocket delegates.\<close>

definition ws_order_transport :: "'w WsTransport \<Rightarrow> 'w OrderTransport" where
  "ws_order_transport ws = \<lparr>
     ot_connect = (\<lambda>w config. ws_connect ws w \<lparr> wtc_endpoint = otc_endpoint config, wtc_headers = otc_headers config \<rparr>),
     ot_send_text = (\<lambda>w payload. case ws_send_text ws w payload of (w', sent) \<Rightarrow> (w', Inr sent)),
     ot_recv_text = ws_recv_text ws, ot_close = ws_close ws, ot_last_error = ws_last_error ws \<rparr>"

section \<open>Exchange adapters\<close>

record ConnectRequest =
  cr_endpoint :: string
  cr_headers :: "(string \<times> string) list"

text \<open>The interface \<open>IExchangeWsAdapter\<close>; the wall clock, in milliseconds, is an argument.\<close>

record WsAdapter =
  wa_build_connect_request :: "nat \<Rightarrow> Thrown + ConnectRequest"
  wa_build_subscribe_message :: "string \<Rightarrow> Thrown + string"

definition extract_path_from_endpoint :: "string \<Rightarrow> string" where
  "extract_path_from_endpoint endpoint =
     (let host_start = (case str_find ''://'' endpoint 0 of None \<Rightarrow> 0 | Some p \<Rightarrow> p + 3)
      in case str_find ''/'' endpoint host_start of None \<Rightarrow> ''/'' | Some p \<Rightarrow> drop p endpoint)"

text \<open>The headers are a \<open>std::map\<close>, listed here in the order of its keys.\<close>

definition kalshi_access_headers :: "AuthHeaders \<Rightarrow> (string \<times> string) list" where
  "kalshi_access_headers h = [(''KALSHI-ACCESS-KEY'', ah_key_id h),
     (''KALSHI-ACCESS-SIGNATURE'', ah_signature_base64 h), (''KALSHI-ACCESS-TIMESTAMP'', ah_timestamp_ms h)]"

lemma access_headers_sorted: "sorted_wrt (<) (map fst (kalshi_access_headers h))"
  by (simp add: kalshi_access_headers_def less_char_def)

definition kalshi_connect_request ::
    "(string \<Rightarrow> string option) \<Rightarrow> (string \<Rightarrow> string \<Rightarrow> Thrown + string) \<Rightarrow> Credentials \<Rightarrow> string \<Rightarrow> nat \<Rightarrow> Thrown + ConnectRequest" where
  "kalshi_connect_request read_file sign creds endpoint now_ms =
     (case make_ws_headers read_file sign now_ms creds (extract_path_from_endpoint endpoint) of
        Inl e \<Rightarrow> Inl e
      | Inr h \<Rightarrow> Inr \<lparr> cr_endpoint = endpoint, cr_headers = kalshi_access_headers h \<rparr>)"

definition dump_message :: "Nlohmann \<Rightarrow> json \<Rightarrow> Thrown + string" where
  "dump_message nl payload = (case nl_dump nl payload of Inl what \<Rightarrow> Inl (Std_exception what) | Inr s \<Rightarrow> Inr s)"

definition kalshi_subscribe_message :: "Nlohmann \<Rightarrow> string \<Rightarrow> Thrown + string" where
  "kalshi_subscribe_message nl channel = dump_message nl (json_obj [
     (''id'', Json_integer 1), (''cmd'', Json_string ''subscribe''),
     (''params'', json_obj [(''channels'', Json_array [Json_string channel])])])"

definition kalshi_ws_adapter ::
    "Nlohmann \<Rightarrow> (string \<Rightarrow> string option) \<Rightarrow> (string \<Rightarrow> string \<Rightarrow> Thrown + string) \<Rightarrow> Credentials \<Rightarrow> string \<Rightarrow> WsAdapter" where
  "kalshi_ws_adapter nl read_file sign creds endpoint = \<lparr>
     wa_build_connect_request = kalshi_connect_request read_file sign creds endpoint,
     wa_build_subscribe_message = kalshi_subscribe_message nl \<rparr>"

definition polymarket_connect_request :: "string \<Rightarrow> nat \<Rightarrow> Thrown + ConnectRequest" where
  "polymarket_connect_request endpoint now_ms = Inr \<lparr> cr_endpoint = endpoint, cr_headers = [] \<rparr>"

definition polymarket_subscribe_message :: "Nlohmann \<Rightarrow> string \<Rightarrow> Thrown + string" where
  "polymarket_subscribe_message nl channel = dump_message nl (json_obj [
     (''type'', Json_string ''subscribe''), (''channel'', Json_string channel)])"

section \<open>The session\<close>

record 'w WsSession =
  se_transport :: 'w
  se_connect_request :: ConnectRequest
  se_last_subscribe_payload :: string
  se_last_error :: string

text \<open>The transport's own error, or the fallback when it has none.\<close>

definition session_fail :: "'w WsTransport \<Rightarrow> string \<Rightarrow> 'w WsSession \<Rightarrow> 'w WsSession" where
  "session_fail ws fallback s =
     (let transport_error = ws_last_error ws (se_transport s)
      in s\<lparr>se_last_error := (if transport_error \<noteq> '''' then transport_error else fallback)\<rparr>)"

definition thrown_message :: "string \<Rightarrow> Thrown \<Rightarrow> string" where
  "thrown_message unknown e = (case e of Std_exception what \<Rightarrow> what | Other_exception \<Rightarrow> unknown)"

definition session_connect :: "'w WsTransport \<Rightarrow> WsAdapter \<Rightarrow> nat \<Rightarrow> 'w WsSession \<Rightarrow> 'w WsSession \<times> bool" where
  "session_connect ws adapter now_ms s =
     (case wa_build_connect_request adapter now_ms of
        Inl e \<Rightarrow> (s\<lparr>se_last_error := thrown_message ''Unknown exception while building websocket connect request'' e\<rparr>, False)
      | Inr request \<Rightarrow>
          let r = ws_connect ws (se_transport s) \<lparr> wtc_endpoint = cr_endpoint request, wtc_headers = cr_headers request \<rparr>;
              s = s\<lparr>se_connect_request := request, se_transport := fst r\<rparr>
          in if \<not> snd r then (session_fail ws ''Websocket transport connect failed'' s, False)
             else (s\<lparr>se_last_error := ''''\<rparr>, True))"

definition session_subscribe :: "'w WsTransport \<Rightarrow> WsAdapter \<Rightarrow> string \<Rightarrow> 'w WsSession \<Rightarrow> 'w WsSession \<times> bool" where
  "session_subscribe ws adapter channel s =
     (case wa_build_subscribe_message adapter channel of
        Inl e \<Rightarrow> (s\<lparr>se_last_error := thrown_message ''Unknown exception while building websocket subscribe payload'' e\<rparr>, False)
      | Inr payload \<Rightarrow>
          let r = ws_send_text ws (se_transport s) payload;
              s = s\<lparr>se_last_subscribe_payload := payload, se_transport := fst r\<rparr>
          in if \<not> snd r then (session_fail ws ''Websocket transport send failed'' s, False)
             else (s\<lparr>se_last_error := ''''\<rparr>, True))"

definition session_recv_text :: "'w WsTransport \<Rightarrow> 'w WsSession \<Rightarrow> 'w WsSession \<times> string option" where
  "session_recv_text ws s =
     (let r = ws_recv_text ws (se_transport s); s = s\<lparr>se_transport := fst r\<rparr>
      in case snd r of
           None \<Rightarrow> (session_fail ws ''Websocket transport receive failed'' s, None)
         | Some message \<Rightarrow> (s\<lparr>se_last_error := ''''\<rparr>, Some message))"

definition session_close :: "'w WsTransport \<Rightarrow> 'w WsSession \<Rightarrow> 'w WsSession" where
  "session_close ws s = s\<lparr>se_transport := ws_close ws (se_transport s)\<rparr>"

section \<open>The feed runner\<close>

record ('w, 'k) FeedPorts =
  fp_transport :: "'w WsTransport"
  fp_adapter :: WsAdapter
  fp_push_message :: "'k \<Rightarrow> string \<Rightarrow> 'k \<times> bool"

text \<open>Where the worker is: in the outer loop, in the receive loop, or not running.\<close>

datatype FeedLoop = Feed_idle | Feed_connecting | Feed_receiving

record ('w, 'k) FeedRunner =
  fr_session :: "'w WsSession"
  fr_sink :: 'k
  fr_channels :: "string list"
  fr_worker_joinable :: bool
  fr_running :: bool
  fr_received_count :: u64
  fr_dropped_count :: u64
  fr_last_error :: string
  fr_loop :: FeedLoop

definition feed_start :: "('w, 'k) FeedRunner \<Rightarrow> ('w, 'k) FeedRunner \<times> bool" where
  "feed_start r =
     (if fr_worker_joinable r then (r, False)
      else (r\<lparr> fr_received_count := 0, fr_dropped_count := 0, fr_last_error := '''', fr_running := True,
               fr_worker_joinable := True, fr_loop := Feed_connecting \<rparr>, True))"

text \<open>The session is closed by the caller and again by the worker as it leaves its loops.\<close>

definition feed_stop :: "('w, 'k) FeedPorts \<Rightarrow> ('w, 'k) FeedRunner \<Rightarrow> ('w, 'k) FeedRunner" where
  "feed_stop ports r =
     (if \<not> fr_worker_joinable r then r\<lparr>fr_running := False\<rparr>
      else r\<lparr> fr_session := session_close (fp_transport ports) (session_close (fp_transport ports) (fr_session r)),
              fr_worker_joinable := False, fr_running := False, fr_loop := Feed_idle \<rparr>)"

text \<open>The loop over the channels: the session afterwards, and whether every subscription went out.\<close>

fun subscribe_channels :: "'w WsTransport \<Rightarrow> WsAdapter \<Rightarrow> string list \<Rightarrow> 'w WsSession \<Rightarrow> 'w WsSession \<times> bool" where
  "subscribe_channels ws adapter [] s = (s, True)"
| "subscribe_channels ws adapter (channel # channels) s =
     (case session_subscribe ws adapter channel s of
        (s, False) \<Rightarrow> (s, False)
      | (s, True) \<Rightarrow> subscribe_channels ws adapter channels s)"

definition connect_and_subscribe ::
    "('w, 'k) FeedPorts \<Rightarrow> nat \<Rightarrow> ('w, 'k) FeedRunner \<Rightarrow> ('w, 'k) FeedRunner \<times> bool" where
  "connect_and_subscribe ports now_ms r =
     (case session_connect (fp_transport ports) (fp_adapter ports) now_ms (fr_session r) of
        (s, False) \<Rightarrow> (r\<lparr>fr_session := s, fr_last_error := se_last_error s\<rparr>, False)
      | (s, True) \<Rightarrow>
          (case subscribe_channels (fp_transport ports) (fp_adapter ports) (fr_channels r) s of
             (s, False) \<Rightarrow> (r\<lparr>fr_session := session_close (fp_transport ports) s, fr_last_error := se_last_error s\<rparr>, False)
           | (s, True) \<Rightarrow> (r\<lparr>fr_session := s, fr_last_error := ''''\<rparr>, True)))"

definition feed_receive :: "('w, 'k) FeedPorts \<Rightarrow> ('w, 'k) FeedRunner \<Rightarrow> ('w, 'k) FeedRunner" where
  "feed_receive ports r =
     (case session_recv_text (fp_transport ports) (fr_session r) of
        (s, None) \<Rightarrow> r\<lparr> fr_session := session_close (fp_transport ports) s, fr_last_error := se_last_error s,
                        fr_loop := Feed_connecting \<rparr>
      | (s, Some message) \<Rightarrow>
          (case fp_push_message ports (fr_sink r) message of (k, accepted) \<Rightarrow>
             r\<lparr> fr_session := s, fr_sink := k, fr_received_count := fr_received_count r + 1,
                fr_dropped_count := (if accepted then fr_dropped_count r else fr_dropped_count r + 1) \<rparr>))"

text \<open>One round of the loop the worker is in.\<close>

definition feed_step :: "('w, 'k) FeedPorts \<Rightarrow> nat \<Rightarrow> ('w, 'k) FeedRunner \<Rightarrow> ('w, 'k) FeedRunner" where
  "feed_step ports now_ms r =
     (case fr_loop r of
        Feed_idle \<Rightarrow> r
      | Feed_connecting \<Rightarrow>
          (case connect_and_subscribe ports now_ms r of
             (r, False) \<Rightarrow> r
           | (r, True) \<Rightarrow> r\<lparr>fr_loop := Feed_receiving\<rparr>)
      | Feed_receiving \<Rightarrow> feed_receive ports r)"

definition feed_run :: "('w, 'k) FeedPorts \<Rightarrow> nat list \<Rightarrow> ('w, 'k) FeedRunner \<Rightarrow> ('w, 'k) FeedRunner" where
  "feed_run ports clocks r = fold (feed_step ports) clocks r"

section \<open>Searching text\<close>

lemma str_find_at_char: "c \<notin> set xs \<Longrightarrow> str_find_at [c] (xs @ c # ys) pos = Some (pos + length xs)"
  by (induction xs arbitrary: pos) auto

lemma str_find_at_absent: "c \<notin> set s \<Longrightarrow> str_find_at [c] s pos = None"
  by (induction s arbitrary: pos) auto

lemma str_find_char: "c \<notin> set xs \<Longrightarrow> str_find [c] (pre @ xs @ c # ys) (length pre) = Some (length pre + length xs)"
  by (simp add: str_find_def str_find_at_char)

lemma str_find_absent: "c \<notin> set xs \<Longrightarrow> str_find [c] (pre @ xs) (length pre) = None"
  by (simp add: str_find_def str_find_at_absent)

lemma str_find_scheme: "CHR '':'' \<notin> set xs \<Longrightarrow> str_find ''://'' (xs @ ''://'' @ ys) 0 = Some (length xs)"
proof -
  have "CHR '':'' \<notin> set xs \<Longrightarrow> str_find_at ''://'' (xs @ ''://'' @ ys) pos = Some (pos + length xs)" for pos
  proof (induction xs arbitrary: pos)
    case (Cons x xs)
    then show ?case by auto
  qed simp
  then show "CHR '':'' \<notin> set xs \<Longrightarrow> ?thesis" by (simp add: str_find_def)
qed

lemma str_find_at_char_pos:
  "str_find_at [c] s pos = Some p \<Longrightarrow> pos \<le> p \<and> p - pos < length s \<and> s ! (p - pos) = c"
proof (induction s arbitrary: pos)
  case (Cons x s)
  show ?case
  proof (cases "x = c")
    case False
    then have "Suc pos \<le> p \<and> p - Suc pos < length s \<and> s ! (p - Suc pos) = c" using Cons by simp
    moreover from this have "p - pos = Suc (p - Suc pos)" by (simp add: Suc_diff_Suc Suc_le_eq)
    ultimately show ?thesis by simp
  qed (use Cons.prems in simp)
qed simp

lemma str_find_char_pos:
  assumes "str_find [c] s from = Some p"
  shows "from \<le> p" "p < length s" "s ! p = c"
proof -
  have l: "from \<le> length s" "str_find_at [c] (drop from s) from = Some p"
    using assms by (auto simp: str_find_def split: if_splits)
  then show "from \<le> p" "p < length s" "s ! p = c"
    using str_find_at_char_pos [OF l(2)] by (auto simp: add.commute)
qed

section \<open>Endpoints\<close>

lemma to_lower_ws [simp]: "to_lower ''ws'' = ''ws''" "to_lower ''wss'' = ''wss''"
  by (simp_all add: to_lower_def to_lower_char_def)

lemma split_host_port:
  assumes "host \<noteq> []" "hd host \<noteq> CHR ''[''" "CHR '':'' \<notin> set host" "CHR '':'' \<notin> set port"
  shows "split_authority (host @ '':'' @ port) = Inr (host, port)" "split_authority host = Inr (host, '''')"
  using assms str_find_char [of "CHR '':''" host "[]" port] str_find_absent [of "CHR '':''" host "[]"]
  by (simp_all add: split_authority_def)

lemma parse_ws_endpoint_parts:
  assumes scheme: "scheme = ''ws'' \<or> scheme = ''wss''" and a: "authority \<noteq> []" "CHR ''/'' \<notin> set authority"
    and t: "target = [] \<or> hd target = CHR ''/''"
  shows "parse_ws_endpoint (scheme @ ''://'' @ authority @ target) =
    (case split_authority authority of
       Inl e \<Rightarrow> Inl e
     | Inr (host, port) \<Rightarrow>
         if host = '''' then Inl ''Websocket endpoint host is empty''
         else Inr \<lparr> ep_scheme = scheme, ep_host = host,
                ep_port = (if port = '''' then (if scheme = ''wss'' then ''443'' else ''80'') else port),
                ep_target = (if target = [] then ''/'' else target) \<rparr>)"
proof -
  define e where "e = scheme @ ''://'' @ authority @ target"
  let ?n = "length scheme" and ?pre = "scheme @ ''://''"
  have ok: "(scheme \<noteq> ''ws'' \<and> scheme \<noteq> ''wss'') = False" and low: "to_lower scheme = scheme" and colon: "CHR '':'' \<notin> set scheme"
    using scheme by auto
  have e: "e \<noteq> []" "str_find ''://'' e 0 = Some ?n" "take ?n e = scheme" "\<not> ?n + 3 \<ge> length e"
    using a(1) str_find_scheme [OF colon, of "authority @ target"] by (simp_all add: e_def)
  obtain ps where ps: "str_find ''/'' e (?n + 3) = ps"
    "(case ps of None \<Rightarrow> drop (?n + 3) e | Some p \<Rightarrow> take (p - (?n + 3)) (drop (?n + 3) e)) = authority"
    "(case ps of None \<Rightarrow> ''/'' | Some p \<Rightarrow> drop p e) = (if target = [] then ''/'' else target)"
  proof (cases target)
    case Nil
    then have "str_find ''/'' e (?n + 3) = None"
      using str_find_absent [OF a(2), of ?pre] by (simp add: e_def numeral_3_eq_3)
    then show ?thesis using Nil by (intro that [of None]) (simp_all add: e_def)
  next
    case (Cons c rest)
    with t have c: "target = CHR ''/'' # rest" by simp
    then have "str_find ''/'' e (?n + 3) = Some (?n + 3 + length authority)"
      using str_find_char [OF a(2), of ?pre rest] by (simp add: e_def numeral_3_eq_3)
    moreover have "drop (?n + 3 + length authority) e = target"
      using append_eq_conv_conj [of "scheme @ ''://'' @ authority" target e] by (simp add: e_def add.assoc)
    ultimately show ?thesis
      using c by (intro that [of "Some (?n + 3 + length authority)"]) (simp_all add: e_def)
  qed
  have "parse_ws_endpoint e =
    (case split_authority authority of
       Inl e \<Rightarrow> Inl e
     | Inr (host, port) \<Rightarrow>
         if host = '''' then Inl ''Websocket endpoint host is empty''
         else Inr \<lparr> ep_scheme = scheme, ep_host = host,
                ep_port = (if port = '''' then (if scheme = ''wss'' then ''443'' else ''80'') else port),
                ep_target = (if target = [] then ''/'' else target) \<rparr>)"
    unfolding parse_ws_endpoint_def Let_def e(2) option.case e(3) low ok if_False if_not_P [OF e(1)] if_not_P [OF e(4)]
      ps if_not_P [OF a(1)] ..
  then show ?thesis by (simp add: e_def)
qed

lemma parse_ws_endpointE:
  assumes "parse_ws_endpoint e = Inr ep"
  obtains p where "str_find ''://'' e 0 = Some p" "ep_scheme ep = to_lower (take p e)" "ep_scheme ep \<in> {''ws'', ''wss''}"
    "ep_target ep = (case str_find ''/'' e (p + 3) of None \<Rightarrow> ''/'' | Some q \<Rightarrow> drop q e)"
    "ep_host ep \<noteq> ''''" "ep_port ep \<noteq> ''''"
  using assms by (auto simp: parse_ws_endpoint_def Let_def split: if_splits option.splits sum.splits prod.splits)

text \<open>
  C33. Endpoints are read the way they are written: scheme, host, port and target come back from
  the text they make up, and without a port the default of the scheme is filled in. Whatever
  parses has a known scheme, a host, a port, and a target that starts with a slash, and the path
  that the Kalshi adapter signs for an endpoint is the target the handshake asks for.
\<close>

theorem endpoint_round_trip:
  "((scheme = ''ws'' \<or> scheme = ''wss'') \<longrightarrow> host \<noteq> [] \<longrightarrow> hd host \<noteq> CHR ''['' \<longrightarrow> CHR '':'' \<notin> set host \<longrightarrow> CHR ''/'' \<notin> set host \<longrightarrow>
     port \<noteq> [] \<longrightarrow> CHR '':'' \<notin> set port \<longrightarrow> CHR ''/'' \<notin> set port \<longrightarrow>
     parse_ws_endpoint (scheme @ ''://'' @ host @ '':'' @ port @ ''/'' @ path) =
       Inr \<lparr> ep_scheme = scheme, ep_host = host, ep_port = port, ep_target = ''/'' @ path \<rparr> \<and>
     parse_ws_endpoint (scheme @ ''://'' @ host) =
       Inr \<lparr> ep_scheme = scheme, ep_host = host, ep_port = (if scheme = ''wss'' then ''443'' else ''80''), ep_target = ''/'' \<rparr>) \<and>
   (parse_ws_endpoint e = Inr ep \<longrightarrow> ep_scheme ep \<in> {''ws'', ''wss''} \<and> ep_host ep \<noteq> '''' \<and> ep_port ep \<noteq> '''' \<and>
     hd (ep_target ep) = CHR ''/'' \<and> extract_path_from_endpoint e = ep_target ep)"
proof (intro conjI impI)
  assume "scheme = ''ws'' \<or> scheme = ''wss''" "host \<noteq> []" "hd host \<noteq> CHR ''[''" "CHR '':'' \<notin> set host"
    "CHR ''/'' \<notin> set host" "port \<noteq> []" "CHR '':'' \<notin> set port" "CHR ''/'' \<notin> set port"
  note a = this
  show "parse_ws_endpoint (scheme @ ''://'' @ host @ '':'' @ port @ ''/'' @ path) =
       Inr \<lparr> ep_scheme = scheme, ep_host = host, ep_port = port, ep_target = ''/'' @ path \<rparr>"
    using parse_ws_endpoint_parts [of scheme "host @ '':'' @ port" "''/'' @ path"] split_host_port(1) [OF a(2,3,4,7)] a by simp
  show "parse_ws_endpoint (scheme @ ''://'' @ host) =
       Inr \<lparr> ep_scheme = scheme, ep_host = host, ep_port = (if scheme = ''wss'' then ''443'' else ''80''), ep_target = ''/'' \<rparr>"
    using parse_ws_endpoint_parts [of scheme host "[]"] split_host_port(2) [OF a(2,3,4,7)] a by simp
next
  assume ep: "parse_ws_endpoint e = Inr ep"
  then show "ep_scheme ep \<in> {''ws'', ''wss''}" "ep_host ep \<noteq> ''''" "ep_port ep \<noteq> ''''" by (auto elim!: parse_ws_endpointE)
  show "hd (ep_target ep) = CHR ''/''"
    using ep
  proof (rule parse_ws_endpointE)
    fix p
    assume "ep_target ep = (case str_find ''/'' e (p + 3) of None \<Rightarrow> ''/'' | Some q \<Rightarrow> drop q e)"
    then show ?thesis
      using str_find_char_pos(2,3) [of "CHR ''/''" e "p + 3"] by (auto split: option.splits simp: hd_drop_conv_nth)
  qed
  show "extract_path_from_endpoint e = ep_target ep"
    using ep by (auto elim!: parse_ws_endpointE simp: extract_path_from_endpoint_def)
qed

theorem endpoint_round_trip_witness:
  "parse_ws_endpoint ''wss://api:8443/ws'' =
     Inr \<lparr> ep_scheme = ''wss'', ep_host = ''api'', ep_port = ''8443'', ep_target = ''/ws'' \<rparr>"
  using endpoint_round_trip [of "''wss''" "''api''" "''8443''" "''ws''"] by simp

section \<open>Connecting\<close>

lemma beast_tryE:
  assumes "beast_try what operation continue t = (t', b)"
  obtains (failed) n e where "operation (bt_net t) = (n, Some e)" "b = False"
      "t' = t\<lparr>bt_net := n, bt_last_error := what @ e\<rparr>"
    | (continued) n where "operation (bt_net t) = (n, None)" "continue (t\<lparr>bt_net := n\<rparr>) = (t', b)"
  using assms by (auto simp: beast_try_def split: prod.splits option.splits)

text \<open>The contract of a step of \<open>connect\<close>, kept by every further step put in front of it.\<close>

definition connect_contract :: "EndpointParts \<Rightarrow> ('n BeastTransport \<Rightarrow> 'n BeastTransport \<times> bool) \<Rightarrow> bool" where
  "connect_contract ep f \<longleftrightarrow> (\<forall>t t' b. \<not> bt_connected t \<longrightarrow> bt_last_error t = '''' \<longrightarrow> bt_endpoint t = ep \<longrightarrow> f t = (t', b) \<longrightarrow>
     bt_endpoint t' = ep \<and> bt_connected t' = b \<and> (b \<longleftrightarrow> bt_last_error t' = ''''))"

lemma connect_contract_try:
  assumes "connect_contract ep f" "\<And>n n' e. operation n = (n', Some e) \<Longrightarrow> what @ e \<noteq> ''''"
  shows "connect_contract ep (beast_try what operation f)"
  unfolding connect_contract_def
proof (intro allI impI)
  fix t t' b
  assume t: "\<not> bt_connected t" "bt_last_error t = ''''" "bt_endpoint t = ep" "beast_try what operation f t = (t', b)"
  from t(4) show "bt_endpoint t' = ep \<and> bt_connected t' = b \<and> (b \<longleftrightarrow> bt_last_error t' = '''')"
  proof (rule beast_tryE)
    fix n assume f: "f (t\<lparr>bt_net := n\<rparr>) = (t', b)"
    show ?thesis
      using assms(1) [unfolded connect_contract_def, rule_format, of "t\<lparr>bt_net := n\<rparr>" t' b] t(1-3) f by simp
  qed (use t assms(2) in auto)
qed

lemma set_sni_error: "set_sni net host n = (n', Some e) \<Longrightarrow> e \<noteq> ''''"
  by (auto simp: set_sni_def ws_openssl_error_message_def Let_def split: prod.splits if_splits)

lemma reset_stream_disconnects [simp]: "\<not> bt_connected (reset_stream net t)"
  by (simp add: reset_stream_def)

lemma parse_ws_endpoint_error: "parse_ws_endpoint e = Inl msg \<Longrightarrow> msg \<noteq> ''''"
  by (auto simp: parse_ws_endpoint_def split_authority_def Let_def split: if_splits option.splits sum.splits prod.splits)

lemma beast_close_disconnects: "\<not> bt_connected (beast_close net t)"
  by (simp add: beast_close_def split: prod.split option.split)

section \<open>The transport interface\<close>

text \<open>
  What the session relies on in \<open>IWsTransport\<close>. An order transport that delegates to such a
  websocket transport satisfies the contract of \<open>IOrderTransport\<close>.
\<close>

locale ws_transport =
  fixes ws :: "'w WsTransport" and connected :: "'w \<Rightarrow> bool"
  assumes ws_connect_connects: "ws_connect ws w cfg = (w', ok) \<Longrightarrow> connected w' = ok"
    and ws_close_closes: "\<not> connected (ws_close ws w)"
    and ws_send_closed: "\<not> connected w \<Longrightarrow> ws_send_text ws w payload = (w', ok) \<Longrightarrow> \<not> ok \<and> \<not> connected w'"
    and ws_recv_closed: "\<not> connected w \<Longrightarrow> ws_recv_text ws w = (w', message) \<Longrightarrow> message = None \<and> \<not> connected w'"
begin

lemma session_close_disconnects: "\<not> connected (se_transport (session_close ws s))"
  by (simp add: session_close_def ws_close_closes)

lemma session_connect_connects_iff:
  assumes "session_connect ws adapter now_ms s = (s', ok)" "\<not> connected (se_transport s)"
  shows "connected (se_transport s') = ok"
  using assms ws_connect_connects [OF prod.collapse [symmetric]]
  by (auto simp: session_connect_def session_fail_def Let_def split: sum.splits if_splits)

lemma feed_stop_disconnects:
  assumes "fp_transport ports = ws" "fr_worker_joinable r"
  shows "\<not> connected (se_transport (fr_session (feed_stop ports r)))"
  using assms by (simp add: feed_stop_def session_close_disconnects)

text \<open>A session that is not connected delivers nothing: the feed goes back to connecting.\<close>

lemma closed_feed_reconnects:
  assumes "fp_transport ports = ws" "\<not> connected (se_transport (fr_session r))" "fr_loop r = Feed_receiving"
  shows "fr_loop (feed_step ports now_ms r) = Feed_connecting" "fr_sink (feed_step ports now_ms r) = fr_sink r"
    "fr_received_count (feed_step ports now_ms r) = fr_received_count r"
  using assms ws_recv_closed [OF assms(2) prod.collapse [symmetric]]
  by (auto simp: feed_step_def feed_receive_def session_recv_text_def Let_def)

end

sublocale ws_transport \<subseteq> order: order_transport "ws_order_transport ws" connected
proof unfold_locales
  fix t t' :: 'w and cfg ok payload and r :: "Thrown + bool" and message
  show "connected t' = ok" if "ot_connect (ws_order_transport ws) t cfg = (t', ok)"
    using that ws_connect_connects by (simp add: ws_order_transport_def)
  show "\<not> connected (ot_close (ws_order_transport ws) t)" by (simp add: ws_order_transport_def ws_close_closes)
  show "r = Inr False \<and> \<not> connected t'" if "\<not> connected t" "ot_send_text (ws_order_transport ws) t payload = (t', r)"
    using that ws_send_closed [OF that(1) prod.collapse [symmetric], of payload]
    by (auto simp: ws_order_transport_def split: prod.splits)
  show "message = None \<and> \<not> connected t'" if "\<not> connected t" "ot_recv_text (ws_order_transport ws) t = (t', message)"
    using that ws_recv_closed by (simp add: ws_order_transport_def)
qed

lemma beast_connect_connects: "bt_connected (fst (beast_connect net t cfg)) = snd (beast_connect net t cfg)"
  by (auto simp: beast_connect_def beast_try_def Let_def split: sum.split prod.split option.split)

interpretation beast: ws_transport "beast_transport net" bt_connected for net
proof unfold_locales
  fix w w' :: "'a BeastTransport" and cfg ok payload message
  show "bt_connected w' = ok" if "ws_connect (beast_transport net) w cfg = (w', ok)"
    using that beast_connect_connects [of net w cfg] by (simp add: beast_transport_def)
  show "\<not> bt_connected (ws_close (beast_transport net) w)"
    by (simp add: beast_transport_def beast_close_disconnects)
  show "\<not> ok \<and> \<not> bt_connected w'" if "\<not> bt_connected w" "ws_send_text (beast_transport net) w payload = (w', ok)"
    using that by (auto simp: beast_transport_def beast_send_text_def)
  show "message = None \<and> \<not> bt_connected w'" if "\<not> bt_connected w" "ws_recv_text (beast_transport net) w = (w', message)"
    using that by (auto simp: beast_transport_def beast_recv_text_def)
qed

text \<open>
  Connecting reports what happened: \<open>connect\<close> returns true exactly when the transport is
  connected afterwards, and then the endpoint parsed as \<open>wss\<close> and no error is set; when it
  returns false the transport is disconnected and says why. While it is disconnected, sending and
  receiving fail with a message and do not touch the network.
\<close>

theorem connect_outcome:
  assumes "beast_connect net t config = (t', b)"
  shows "bt_connected t' = b \<and> (b \<longleftrightarrow> bt_last_error t' = '''') \<and>
    (b \<longrightarrow> parse_ws_endpoint (wtc_endpoint config) = Inr (bt_endpoint t') \<and> ep_scheme (bt_endpoint t') = ''wss'') \<and>
    (\<not> b \<longrightarrow> snd (beast_send_text net t' payload) = False \<and> bt_net (fst (beast_send_text net t' payload)) = bt_net t' \<and>
       snd (beast_recv_text net t') = None \<and> bt_net (fst (beast_recv_text net t')) = bt_net t')"
proof -
  have idle: "\<not> bt_connected t' \<Longrightarrow> snd (beast_send_text net t' payload) = False \<and>
      bt_net (fst (beast_send_text net t' payload)) = bt_net t' \<and> snd (beast_recv_text net t') = None \<and>
      bt_net (fst (beast_recv_text net t')) = bt_net t'"
    by (simp add: beast_send_text_def beast_recv_text_def)
  show ?thesis
  proof (cases "\<exists>ep. parse_ws_endpoint (wtc_endpoint config) = Inr ep \<and> ep_scheme ep = ''wss''")
    case False
    then show ?thesis
      using assms idle parse_ws_endpoint_error
      by (cases "parse_ws_endpoint (wtc_endpoint config)") (auto simp: beast_connect_def Let_def)
  next
    case True
    then obtain ep where ep: "parse_ws_endpoint (wtc_endpoint config) = Inr ep" "ep_scheme ep = ''wss''" by blast
    let ?last = "\<lambda>t. (t\<lparr>bt_connected := True\<rparr>, True)"
    define f where "f = beast_try ''DNS resolve failed: '' (\<lambda>n. wn_resolve net n (ep_host ep) (ep_port ep))
        (beast_try ''TCP connect failed: '' (wn_tcp_connect net)
          (beast_try '''' (set_sni net (ep_host ep))
            (beast_try ''TLS handshake failed: '' (wn_tls_handshake net)
              (beast_try ''Websocket handshake failed: ''
                (\<lambda>n. wn_ws_handshake net n (wtc_headers config) (handshake_host ep) (ep_target ep)) ?last))))"
    have "connect_contract ep f"
      unfolding f_def by (intro connect_contract_try) (auto simp: connect_contract_def dest: set_sni_error)
    moreover obtain t0 where "\<not> bt_connected t0" "bt_last_error t0 = ''''" "bt_endpoint t0 = ep" "f t0 = (t', b)"
      using assms ep
      by (intro that [of "(reset_stream net (beast_close net t))\<lparr>bt_last_error := '''', bt_endpoint := ep\<rparr>"])
        (simp_all add: beast_connect_def reset_stream_def f_def Let_def)
    ultimately have "bt_endpoint t' = ep \<and> bt_connected t' = b \<and> (b \<longleftrightarrow> bt_last_error t' = '''')"
      unfolding connect_contract_def by blast
    then show ?thesis using ep idle by auto
  qed
qed

definition example_net :: "nat WsNetwork" where
  "example_net = \<lparr> wn_set_verify_peer = (\<lambda>n. n), wn_set_default_verify_paths = (\<lambda>n. (n, None)),
     wn_get_error = (\<lambda>n. (0, n)), wn_error_string_n = (\<lambda>code n. ''''), wn_reset = (\<lambda>n. 0), wn_resolve = (\<lambda>n h p. (n + 1, None)), wn_tcp_connect = (\<lambda>n. (n + 1, None)),
     wn_set_sni = (\<lambda>n h. (n + 1, 1)), wn_tls_handshake = (\<lambda>n. (n + 1, Some ''bad certificate'')),
     wn_ws_handshake = (\<lambda>n hs h t. (n + 1, None)), wn_write = (\<lambda>n p. (n, None)), wn_read = (\<lambda>n. (n, Inl ''eof'')),
     wn_ws_close = (\<lambda>n. (n, None)) \<rparr>"

definition example_beast :: "nat BeastTransport" where
  "example_beast = beast_new example_net 0"

definition example_ws_config :: WsTransportConfig where
  "example_ws_config = \<lparr> wtc_endpoint = ''wss://api/ws'', wtc_headers = [] \<rparr>"

theorem connect_outcome_witness:
  "\<not> bt_connected (fst (beast_connect example_net example_beast example_ws_config)) \<and>
   bt_last_error (fst (beast_connect example_net example_beast example_ws_config)) \<noteq> ''''"
proof -
  have "snd (beast_connect example_net example_beast example_ws_config) = False"
    by (simp add: beast_connect_def beast_close_def example_beast_def example_ws_config_def example_net_def beast_try_def
        beast_new_def reset_stream_def set_sni_def parse_ws_endpoint_def str_find_def to_lower_def to_lower_char_def split_authority_def Let_def)
  then show ?thesis
    using connect_outcome [of example_net example_beast example_ws_config
        "fst (beast_connect example_net example_beast example_ws_config)" False "''x''"]
    by (simp add: prod_eq_iff)
qed

section \<open>Feeding the sink\<close>

text \<open>The messages a run receives, in order, and what a sink makes of a list of messages.\<close>

definition step_messages :: "('w, 'k) FeedPorts \<Rightarrow> ('w, 'k) FeedRunner \<Rightarrow> string list" where
  "step_messages ports r = (if fr_loop r = Feed_receiving
     then (case snd (ws_recv_text (fp_transport ports) (se_transport (fr_session r))) of Some m \<Rightarrow> [m] | None \<Rightarrow> [])
     else [])"

fun feed_messages :: "('w, 'k) FeedPorts \<Rightarrow> nat list \<Rightarrow> ('w, 'k) FeedRunner \<Rightarrow> string list" where
  "feed_messages ports [] r = []"
| "feed_messages ports (now # clocks) r = step_messages ports r @ feed_messages ports clocks (feed_step ports now r)"

fun push_all :: "('k \<Rightarrow> string \<Rightarrow> 'k \<times> bool) \<Rightarrow> string list \<Rightarrow> 'k \<Rightarrow> 'k \<times> nat" where
  "push_all push [] k = (k, 0)"
| "push_all push (m # ms) k =
     (let (k, accepted) = push k m; (k, refused) = push_all push ms k
      in (k, if accepted then refused else refused + 1))"

lemma push_all_append:
  "push_all push (xs @ ys) k =
     (fst (push_all push ys (fst (push_all push xs k))),
      snd (push_all push xs k) + snd (push_all push ys (fst (push_all push xs k))))"
  by (induction xs arbitrary: k) (auto simp: Let_def split: prod.split)

text \<open>Every subscription of the list sent, in order, without an error.\<close>

fun sends_all :: "'w WsTransport \<Rightarrow> WsAdapter \<Rightarrow> string list \<Rightarrow> 'w \<Rightarrow> 'w option" where
  "sends_all ws adapter [] w = Some w"
| "sends_all ws adapter (c # cs) w =
     (case wa_build_subscribe_message adapter c of
        Inl e \<Rightarrow> None
      | Inr payload \<Rightarrow> (case ws_send_text ws w payload of (w, True) \<Rightarrow> sends_all ws adapter cs w | _ \<Rightarrow> None))"

text \<open>A transport that was connected, subscribed to all channels, and has received since.\<close>

inductive subscribed :: "'w WsTransport \<Rightarrow> WsAdapter \<Rightarrow> string list \<Rightarrow> 'w \<Rightarrow> bool" for ws adapter channels where
  connected: "wa_build_connect_request adapter now = Inr req \<Longrightarrow>
    ws_connect ws w \<lparr> wtc_endpoint = cr_endpoint req, wtc_headers = cr_headers req \<rparr> = (w1, True) \<Longrightarrow>
    sends_all ws adapter channels w1 = Some w2 \<Longrightarrow> subscribed ws adapter channels w2"
| received: "subscribed ws adapter channels w \<Longrightarrow> ws_recv_text ws w = (w1, Some m) \<Longrightarrow> subscribed ws adapter channels w1"

lemma session_subscribe_sends:
  "session_subscribe ws adapter channel s = (s', True) \<longleftrightarrow>
     (\<exists>payload w. wa_build_subscribe_message adapter channel = Inr payload \<and>
        ws_send_text ws (se_transport s) payload = (w, True) \<and>
        s' = s\<lparr>se_last_subscribe_payload := payload, se_transport := w, se_last_error := ''''\<rparr>)"
  by (cases "wa_build_subscribe_message adapter channel")
    (auto simp: session_subscribe_def Let_def prod_eq_iff)

lemma subscribe_channels_sends:
  "subscribe_channels ws adapter channels s = (s', True) \<Longrightarrow>
     sends_all ws adapter channels (se_transport s) = Some (se_transport s')"
proof (induction channels arbitrary: s)
  case (Cons c cs)
  obtain s1 where s1: "session_subscribe ws adapter c s = (s1, True)" "subscribe_channels ws adapter cs s1 = (s', True)"
    using Cons.prems by (auto split: prod.splits bool.splits)
  with Cons.IH [OF s1(2)] show ?case by (auto simp: session_subscribe_sends)
qed simp

lemma session_connect_connects:
  assumes "session_connect ws adapter now s = (s', True)"
  shows "\<exists>req. wa_build_connect_request adapter now = Inr req \<and>
    ws_connect ws (se_transport s) \<lparr> wtc_endpoint = cr_endpoint req, wtc_headers = cr_headers req \<rparr> = (se_transport s', True)"
  using assms by (cases "wa_build_connect_request adapter now") (auto simp: session_connect_def Let_def prod_eq_iff split: if_splits)

lemma connect_and_subscribeD:
  assumes "connect_and_subscribe ports now r = (r', True)"
  shows "subscribed (fp_transport ports) (fp_adapter ports) (fr_channels r) (se_transport (fr_session r'))"
proof -
  obtain s1 s2 where "session_connect (fp_transport ports) (fp_adapter ports) now (fr_session r) = (s1, True)"
      "subscribe_channels (fp_transport ports) (fp_adapter ports) (fr_channels r) s1 = (s2, True)" "fr_session r' = s2"
    using assms by (auto simp: connect_and_subscribe_def split: prod.splits bool.splits)
  then show ?thesis
    using session_connect_connects subscribe_channels_sends by (metis subscribed.connected)
qed

lemma connect_and_subscribe_frame:
  assumes "connect_and_subscribe ports now r = (r', b)"
  shows "fr_sink r' = fr_sink r \<and> fr_channels r' = fr_channels r \<and> fr_loop r' = fr_loop r \<and>
    fr_received_count r' = fr_received_count r \<and> fr_dropped_count r' = fr_dropped_count r"
  using assms by (auto simp: connect_and_subscribe_def split: prod.splits bool.splits)

definition feed_ok :: "('w, 'k) FeedPorts \<Rightarrow> string list \<Rightarrow> ('w, 'k) FeedRunner \<Rightarrow> bool" where
  "feed_ok ports channels r \<longleftrightarrow> fr_channels r = channels \<and> (fr_loop r = Feed_receiving \<longrightarrow>
     subscribed (fp_transport ports) (fp_adapter ports) channels (se_transport (fr_session r)))"

text \<open>The ways a round can go.\<close>

lemma feed_stepE:
  fixes ports :: "('w, 'k) FeedPorts"
  obtains (idle) "fr_loop r = Feed_idle" "feed_step ports now r = r"
    | (refused) r1 where "fr_loop r = Feed_connecting" "connect_and_subscribe ports now r = (r1, False)" "feed_step ports now r = r1"
    | (opened) r1 where "fr_loop r = Feed_connecting" "connect_and_subscribe ports now r = (r1, True)"
        "feed_step ports now r = r1\<lparr>fr_loop := Feed_receiving\<rparr>"
    | (lost) w s where "fr_loop r = Feed_receiving"
        "ws_recv_text (fp_transport ports) (se_transport (fr_session r)) = (w, None)"
        "feed_step ports now r = r\<lparr>fr_session := session_close (fp_transport ports) s, fr_last_error := se_last_error s, fr_loop := Feed_connecting\<rparr>"
    | (got) w m k accepted s where "fr_loop r = Feed_receiving"
        "ws_recv_text (fp_transport ports) (se_transport (fr_session r)) = (w, Some m)"
        "fp_push_message ports (fr_sink r) m = (k, accepted)" "se_transport s = w"
        "feed_step ports now r = r\<lparr> fr_session := s, fr_sink := k, fr_received_count := fr_received_count r + 1,
           fr_dropped_count := (if accepted then fr_dropped_count r else fr_dropped_count r + 1) \<rparr>"
proof (cases "fr_loop r")
  case Feed_idle
  then show ?thesis by (intro idle) (simp_all add: feed_step_def)
next
  case Feed_connecting
  obtain r1 b where r1: "connect_and_subscribe ports now r = (r1, b)" by fastforce
  show ?thesis
  proof (cases b)
    case True
    with r1 Feed_connecting show ?thesis by (intro opened) (simp_all add: feed_step_def)
  next
    case False
    with r1 Feed_connecting show ?thesis by (intro refused) (simp_all add: feed_step_def)
  qed
next
  case Feed_receiving
  obtain w m where w: "ws_recv_text (fp_transport ports) (se_transport (fr_session r)) = (w, m)" by fastforce
  show ?thesis
  proof (cases m)
    case None
    with w Feed_receiving show ?thesis
      by (intro lost) (simp_all add: feed_step_def feed_receive_def session_recv_text_def Let_def)
  next
    case (Some msg)
    obtain k b where k: "fp_push_message ports (fr_sink r) msg = (k, b)" by fastforce
    show ?thesis
      by (rule got [of w msg k b "(fr_session r)\<lparr>se_transport := w, se_last_error := ''''\<rparr>"])
        (use w Some k Feed_receiving in \<open>simp_all add: feed_step_def feed_receive_def session_recv_text_def Let_def\<close>)
  qed
qed

lemma feed_step_ok: 
  assumes "feed_ok ports channels r"
  shows "feed_ok ports channels (feed_step ports now r)"
proof (rule feed_stepE [of r ports now])
  fix r1 assume "fr_loop r = Feed_connecting" "connect_and_subscribe ports now r = (r1, False)" "feed_step ports now r = r1"
  then show ?thesis using assms connect_and_subscribe_frame [of ports now r r1 False] by (simp add: feed_ok_def)
next
  fix r1 assume "connect_and_subscribe ports now r = (r1, True)" "feed_step ports now r = r1\<lparr>fr_loop := Feed_receiving\<rparr>"
  then show ?thesis
    using assms connect_and_subscribe_frame [of ports now r r1 True] connect_and_subscribeD [of ports now r r1]
    by (simp add: feed_ok_def)
next
  fix w m k accepted s
  assume "fr_loop r = Feed_receiving" "ws_recv_text (fp_transport ports) (se_transport (fr_session r)) = (w, Some m)"
    "se_transport s = w" "feed_step ports now r = r\<lparr> fr_session := s, fr_sink := k, fr_received_count := fr_received_count r + 1,
       fr_dropped_count := (if accepted then fr_dropped_count r else fr_dropped_count r + 1) \<rparr>"
  then show ?thesis
    using assms subscribed.received [of "fp_transport ports" "fp_adapter ports" channels "se_transport (fr_session r)" w m]
    by (simp add: feed_ok_def)
qed (use assms in \<open>simp_all add: feed_ok_def\<close>)

lemma feed_step_delivers:
  "fr_sink (feed_step ports now r) = fst (push_all (fp_push_message ports) (step_messages ports r) (fr_sink r)) \<and>
   fr_received_count (feed_step ports now r) = fr_received_count r + of_nat (length (step_messages ports r)) \<and>
   fr_dropped_count (feed_step ports now r) =
     fr_dropped_count r + of_nat (snd (push_all (fp_push_message ports) (step_messages ports r) (fr_sink r)))"
  by (rule feed_stepE [of r ports now])
    (use connect_and_subscribe_frame [of ports now r] in \<open>auto simp: step_messages_def Let_def\<close>)

lemma feed_run_ok: "feed_ok ports channels r \<Longrightarrow> feed_ok ports channels (feed_run ports clocks r)"
  unfolding feed_run_def by (induction clocks arbitrary: r) (simp_all add: feed_step_ok)

text \<open>
  C31. The feed runner hands on what it receives, once and in order, and only from a connection
  with all subscriptions in place: after any rounds of a started runner, with reconnects
  wherever the transport fails, the sink has been given exactly the received messages in order,
  the counters are the numbers received and refused (modulo \<open>2 ^ 64\<close>), and whenever the runner is
  in its receive loop, its transport was connected and sent every channel's subscription first.
\<close>

theorem feed_delivers_in_order:
  assumes "feed_start r0 = (r, True)"
  shows "fr_sink (feed_run ports clocks r) = fst (push_all (fp_push_message ports) (feed_messages ports clocks r) (fr_sink r0)) \<and>
    fr_received_count (feed_run ports clocks r) = of_nat (length (feed_messages ports clocks r)) \<and>
    fr_dropped_count (feed_run ports clocks r) =
      of_nat (snd (push_all (fp_push_message ports) (feed_messages ports clocks r) (fr_sink r0))) \<and>
    (fr_loop (feed_run ports clocks r) = Feed_receiving \<longrightarrow>
      subscribed (fp_transport ports) (fp_adapter ports) (fr_channels r0) (se_transport (fr_session (feed_run ports clocks r))))"
proof -
  have run: "fr_sink (feed_run ports clocks r) = fst (push_all (fp_push_message ports) (feed_messages ports clocks r) (fr_sink r)) \<and>
    fr_received_count (feed_run ports clocks r) = fr_received_count r + of_nat (length (feed_messages ports clocks r)) \<and>
    fr_dropped_count (feed_run ports clocks r) =
      fr_dropped_count r + of_nat (snd (push_all (fp_push_message ports) (feed_messages ports clocks r) (fr_sink r)))" for r
    unfolding feed_run_def
    by (induction clocks arbitrary: r) (simp_all add: feed_step_delivers push_all_append)
  have r: "fr_sink r = fr_sink r0" "fr_channels r = fr_channels r0" "fr_received_count r = 0" "fr_dropped_count r = 0"
    "fr_loop r = Feed_connecting"
    using assms by (auto simp: feed_start_def split: if_splits)
  then have "feed_ok ports (fr_channels r0) r" by (simp add: feed_ok_def)
  from feed_run_ok [OF this, of clocks] run [of r] r show ?thesis by (simp add: feed_ok_def)
qed

text \<open>
  A network for the examples: it logs what is sent, delivers the queued messages, and then
  reports an error; connecting always succeeds.
\<close>

definition example_ws :: "(string list \<times> string list) WsTransport" where
  "example_ws = \<lparr> ws_connect = (\<lambda>w c. (w, True)), ws_send_text = (\<lambda>(log, q) p. ((log @ [p], q), True)),
     ws_recv_text = (\<lambda>(log, q). case q of [] \<Rightarrow> ((log, q), None) | m # ms \<Rightarrow> ((log, ms), Some m)),
     ws_close = (\<lambda>w. w), ws_last_error = (\<lambda>w. '''') \<rparr>"

definition example_feed_ports :: "(string list \<times> string list, string list) FeedPorts" where
  "example_feed_ports = \<lparr> fp_transport = example_ws,
     fp_adapter = \<lparr> wa_build_connect_request = polymarket_connect_request ''wss://p'', wa_build_subscribe_message = Inr \<rparr>,
     fp_push_message = (\<lambda>k m. (k @ [m], m \<noteq> ''b'')) \<rparr>"

definition example_feed :: "(string list \<times> string list, string list) FeedRunner" where
  "example_feed = \<lparr> fr_session = \<lparr> se_transport = ([], [''a'', ''b'']), se_connect_request = \<lparr> cr_endpoint = '''', cr_headers = [] \<rparr>,
       se_last_subscribe_payload = '''', se_last_error = '''' \<rparr>,
     fr_sink = [], fr_channels = [''trades'', ''book''], fr_worker_joinable = False, fr_running = False,
     fr_received_count = 0, fr_dropped_count = 0, fr_last_error = '''', fr_loop = Feed_idle \<rparr>"

lemmas feed_eval_defs = feed_step_def connect_and_subscribe_def session_connect_def session_subscribe_def feed_receive_def
  session_recv_text_def step_messages_def polymarket_connect_request_def example_feed_ports_def example_ws_def
  example_feed_def feed_start_def Let_def

theorem feed_delivers_in_order_witness:
  "fr_sink (feed_run example_feed_ports [1, 2, 3] (fst (feed_start example_feed))) = [''a'', ''b''] \<and>
   fr_dropped_count (feed_run example_feed_ports [1, 2, 3] (fst (feed_start example_feed))) = 1"
proof -
  have "feed_start example_feed = (fst (feed_start example_feed), True)" by (simp add: example_feed_def feed_start_def)
  note run = feed_delivers_in_order [OF this, of example_feed_ports "[1, 2, 3]"]
  have "feed_messages example_feed_ports [1, 2, 3] (fst (feed_start example_feed)) = [''a'', ''b'']"
    by (simp add: feed_eval_defs)
  then show ?thesis using run by (simp add: example_feed_ports_def example_feed_def)
qed



end
