(* ===== verification/Trader_Config.thy ===== *)
theory Trader_Config
  imports Live_Pipeline Risk_Gates Json_Text
begin

text \<open>
  \<open>config/trader_config.cpp\<close>: reading the trader's configuration from JSON. A section of the file is
  a list of steps over the configuration read so far, one per field in the order of the
  code; a step that meets a bad value stops with an error message, and the configuration
  keeps what was read before it, as \<open>ConfigLoadResult\<close> does.
\<close>

section \<open>Data\<close>

datatype TraderExecutionMode = Mode_kLive | Mode_kPaper | Mode_kMarketDataOnly

record CredentialConfig =
  cc_key_id :: string
  cc_private_key_pem :: string
  cc_key_id_env :: string
  cc_private_key_pem_env :: string

record KalshiWsConfig =
  kc_endpoint :: string
  kc_channels :: "string list"
  kc_credentials :: CredentialConfig

record RiskConfig =
  rc_shard :: ShardRiskConfig
  rc_oms_global :: GlobalRiskConfig
  rc_oms_portfolio :: PortfolioRiskConfig

record TraderRuntimeConfig =
  tc_mode :: string
  tc_execution_mode :: TraderExecutionMode
  tc_kalshi :: KalshiWsConfig
  tc_market_universe_tickers :: "string list"
  tc_risk :: RiskConfig
  tc_pipeline :: LivePipelineConfig
  tc_pump_batch_size :: usize
  tc_pump_idle_sleep_ms :: i64

definition LivePipelineConfig_default :: LivePipelineConfig where
  "LivePipelineConfig_default = \<lparr> lpc_source = ''kalshi'', lpc_decode_exchange = De_kKalshi,
     lpc_router_exchange = Ex_kKalshi, lpc_frame_pool_capacity = 8192, lpc_frame_queue_capacity = 8192,
     lpc_shard_count = 4, lpc_per_shard_queue_capacity = 1024, lpc_shard_idle_sleep_ms = 1 \<rparr>"

definition RiskConfig_default :: RiskConfig where
  "RiskConfig_default = \<lparr>
     rc_shard = \<lparr> src_max_open_orders_per_market = 0, src_max_working_qty_per_market = 0,
       src_max_abs_net_position_per_market = 0 \<rparr>,
     rc_oms_global = \<lparr> grc_max_active_orders_global = 0, grc_max_active_orders_per_market = 0,
       grc_max_outstanding_qty_global = 0, grc_max_outstanding_qty_per_market = 0 \<rparr>,
     rc_oms_portfolio = \<lparr> prc_max_abs_net_position_per_market = 0, prc_max_abs_position_gross_global = 0,
       prc_min_realized_pnl_ticks = 0, prc_enforce_realized_pnl_floor = False \<rparr> \<rparr>"

definition TraderRuntimeConfig_default :: TraderRuntimeConfig where
  "TraderRuntimeConfig_default = \<lparr> tc_mode = ''dev'', tc_execution_mode = Mode_kLive,
     tc_kalshi = \<lparr> kc_endpoint = ''wss://api.elections.kalshi.com/trade-api/ws/v2'', kc_channels = [''trades''],
       kc_credentials = \<lparr> cc_key_id = '''', cc_private_key_pem = '''', cc_key_id_env = ''KALSHI_KEY_ID'',
         cc_private_key_pem_env = ''KALSHI_PRIVATE_KEY_PEM'' \<rparr> \<rparr>,
     tc_market_universe_tickers = [], tc_risk = RiskConfig_default, tc_pipeline = LivePipelineConfig_default,
     tc_pump_batch_size = 1024, tc_pump_idle_sleep_ms = 1 \<rparr>"

record ConfigLoadResult =
  clr_ok :: bool
  clr_config :: TraderRuntimeConfig
  clr_error :: string

section \<open>Values\<close>

definition parse_exchange_id :: "string \<Rightarrow> (DecodeExchangeId \<times> ExchangeId) option" where
  "parse_exchange_id name =
     (if name = ''kalshi'' then Some (De_kKalshi, Ex_kKalshi)
      else if name = ''polymarket'' then Some (De_kPolymarket, Ex_kPolymarket)
      else None)"

definition parse_execution_mode :: "string \<Rightarrow> TraderExecutionMode option" where
  "parse_execution_mode mode_name =
     (if mode_name = ''live'' then Some Mode_kLive
      else if mode_name = ''paper'' then Some Mode_kPaper
      else if mode_name = ''md-only'' \<or> mode_name = ''md_only'' \<or> mode_name = ''market-data-only'' \<or>
              mode_name = ''market_data_only'' then Some Mode_kMarketDataOnly
      else None)"

fun execution_mode_name :: "TraderExecutionMode \<Rightarrow> string" where
  "execution_mode_name Mode_kLive = ''live''"
| "execution_mode_name Mode_kPaper = ''paper''"
| "execution_mode_name Mode_kMarketDataOnly = ''md-only''"

definition parse_non_negative_size_t :: "json \<Rightarrow> string \<Rightarrow> string + usize" where
  "parse_non_negative_size_t v field_name =
     (case v of
        Json_integer n \<Rightarrow> if json_is_unsigned v then Inr (nat n) else Inl (field_name @ '' must be an unsigned integer'')
      | _ \<Rightarrow> Inl (field_name @ '' must be an unsigned integer''))"

definition parse_positive_size_t :: "json \<Rightarrow> string \<Rightarrow> string + usize" where
  "parse_positive_size_t v field_name =
     (case v of
        Json_integer n \<Rightarrow>
          if \<not> json_is_unsigned v then Inl (field_name @ '' must be an unsigned integer'')
          else if n = 0 then Inl (field_name @ '' must be > 0'')
          else Inr (nat n)
      | _ \<Rightarrow> Inl (field_name @ '' must be an unsigned integer''))"

definition parse_int64 :: "json \<Rightarrow> string \<Rightarrow> string + i64" where
  "parse_int64 v field_name =
     (case v of Json_integer n \<Rightarrow> Inr (wrap_i64 n) | _ \<Rightarrow> Inl (field_name @ '' must be an integer''))"

definition parse_non_negative_ms :: "json \<Rightarrow> string \<Rightarrow> string + i64" where
  "parse_non_negative_ms v field_name =
     (case v of
        Json_integer n \<Rightarrow> if wrap_i64 n < 0 then Inl (field_name @ '' must be >= 0'') else Inr (wrap_i64 n)
      | _ \<Rightarrow> Inl (field_name @ '' must be an integer''))"

definition parse_non_negative_qty :: "json \<Rightarrow> string \<Rightarrow> string + QtyLots" where
  "parse_non_negative_qty v field_name =
     (case parse_int64 v field_name of
        Inl e \<Rightarrow> Inl e
      | Inr parsed \<Rightarrow> if parsed < 0 then Inl (field_name @ '' must be >= 0'') else Inr parsed)"

definition parse_bool :: "json \<Rightarrow> string \<Rightarrow> string + bool" where
  "parse_bool v field_name = (case v of Json_boolean b \<Rightarrow> Inr b | _ \<Rightarrow> Inl (field_name @ '' must be a boolean''))"

definition parse_text :: "json \<Rightarrow> string \<Rightarrow> string + string" where
  "parse_text v field_name = (case v of Json_string s \<Rightarrow> Inr s | _ \<Rightarrow> Inl (field_name @ '' must be a string''))"

fun string_entries :: "string \<Rightarrow> json list \<Rightarrow> string + string list" where
  "string_entries field_name [] = Inr []"
| "string_entries field_name (item # items) =
     (case item of
        Json_string s \<Rightarrow> (case string_entries field_name items of Inl e \<Rightarrow> Inl e | Inr ss \<Rightarrow> Inr (s # ss))
      | _ \<Rightarrow> Inl (field_name @ '' entries must be strings''))"

definition parse_string_array :: "json \<Rightarrow> string \<Rightarrow> string + string list" where
  "parse_string_array v field_name =
     (case v of Json_array items \<Rightarrow> string_entries field_name items | _ \<Rightarrow> Inl (field_name @ '' must be an array''))"

section \<open>Steps\<close>

type_synonym config_step = "TraderRuntimeConfig \<Rightarrow> TraderRuntimeConfig \<times> string option"

fun run_steps :: "config_step list \<Rightarrow> config_step" where
  "run_steps [] c = (c, None)"
| "run_steps (step # steps) c = (case step c of (c, Some e) \<Rightarrow> (c, Some e) | (c, None) \<Rightarrow> run_steps steps c)"

text \<open>An optional field: absent, it leaves the configuration alone.\<close>

definition opt_field ::
    "json \<Rightarrow> string \<Rightarrow> string \<Rightarrow> (json \<Rightarrow> string \<Rightarrow> string + 'a) \<Rightarrow> ('a \<Rightarrow> TraderRuntimeConfig \<Rightarrow> TraderRuntimeConfig) \<Rightarrow> config_step" where
  "opt_field object key field_name parse store c =
     (case json_find object key of
        None \<Rightarrow> (c, None)
      | Some v \<Rightarrow> (case parse v field_name of Inl e \<Rightarrow> (c, Some e) | Inr x \<Rightarrow> (store x c, None)))"

text \<open>An optional section: a nested object with steps of its own.\<close>

definition opt_section :: "json \<Rightarrow> string \<Rightarrow> string \<Rightarrow> (json \<Rightarrow> config_step list) \<Rightarrow> config_step" where
  "opt_section object key field_name steps c =
     (case json_find object key of
        None \<Rightarrow> (c, None)
      | Some v \<Rightarrow> if \<not> json_is_object v then (c, Some (field_name @ '' must be an object'')) else run_steps (steps v) c)"

definition map_kalshi :: "(KalshiWsConfig \<Rightarrow> KalshiWsConfig) \<Rightarrow> TraderRuntimeConfig \<Rightarrow> TraderRuntimeConfig" where
  "map_kalshi f c = c\<lparr>tc_kalshi := f (tc_kalshi c)\<rparr>"

definition map_credentials :: "(CredentialConfig \<Rightarrow> CredentialConfig) \<Rightarrow> TraderRuntimeConfig \<Rightarrow> TraderRuntimeConfig" where
  "map_credentials f = map_kalshi (\<lambda>k. k\<lparr>kc_credentials := f (kc_credentials k)\<rparr>)"

definition map_shard_risk :: "(ShardRiskConfig \<Rightarrow> ShardRiskConfig) \<Rightarrow> TraderRuntimeConfig \<Rightarrow> TraderRuntimeConfig" where
  "map_shard_risk f c = c\<lparr>tc_risk := (tc_risk c)\<lparr>rc_shard := f (rc_shard (tc_risk c))\<rparr>\<rparr>"

definition map_global_risk :: "(GlobalRiskConfig \<Rightarrow> GlobalRiskConfig) \<Rightarrow> TraderRuntimeConfig \<Rightarrow> TraderRuntimeConfig" where
  "map_global_risk f c = c\<lparr>tc_risk := (tc_risk c)\<lparr>rc_oms_global := f (rc_oms_global (tc_risk c))\<rparr>\<rparr>"

definition map_portfolio_risk :: "(PortfolioRiskConfig \<Rightarrow> PortfolioRiskConfig) \<Rightarrow> TraderRuntimeConfig \<Rightarrow> TraderRuntimeConfig" where
  "map_portfolio_risk f c = c\<lparr>tc_risk := (tc_risk c)\<lparr>rc_oms_portfolio := f (rc_oms_portfolio (tc_risk c))\<rparr>\<rparr>"

definition map_pipeline :: "(LivePipelineConfig \<Rightarrow> LivePipelineConfig) \<Rightarrow> TraderRuntimeConfig \<Rightarrow> TraderRuntimeConfig" where
  "map_pipeline f c = c\<lparr>tc_pipeline := f (tc_pipeline c)\<rparr>"

lemmas config_maps = map_kalshi_def map_credentials_def map_shard_risk_def map_global_risk_def map_portfolio_risk_def
  map_pipeline_def

section \<open>The sections of the file\<close>

definition credentials_steps :: "json \<Rightarrow> config_step list" where
  "credentials_steps creds = [
     opt_field creds ''key_id'' ''kalshi.credentials.key_id'' parse_text (\<lambda>x. map_credentials (\<lambda>k. k\<lparr>cc_key_id := x\<rparr>)),
     opt_field creds ''private_key_pem'' ''kalshi.credentials.private_key_pem'' parse_text
       (\<lambda>x. map_credentials (\<lambda>k. k\<lparr>cc_private_key_pem := x\<rparr>)),
     opt_field creds ''key_id_env'' ''kalshi.credentials.key_id_env'' parse_text
       (\<lambda>x. map_credentials (\<lambda>k. k\<lparr>cc_key_id_env := x\<rparr>)),
     opt_field creds ''private_key_pem_env'' ''kalshi.credentials.private_key_pem_env'' parse_text
       (\<lambda>x. map_credentials (\<lambda>k. k\<lparr>cc_private_key_pem_env := x\<rparr>))]"

definition kalshi_steps :: "json \<Rightarrow> config_step list" where
  "kalshi_steps kalshi = [
     opt_field kalshi ''endpoint'' ''kalshi.endpoint'' parse_text (\<lambda>x. map_kalshi (\<lambda>k. k\<lparr>kc_endpoint := x\<rparr>)),
     opt_field kalshi ''channels'' ''kalshi.channels'' parse_string_array (\<lambda>x. map_kalshi (\<lambda>k. k\<lparr>kc_channels := x\<rparr>)),
     opt_section kalshi ''credentials'' ''kalshi.credentials'' credentials_steps]"

definition universe_steps :: "json \<Rightarrow> config_step list" where
  "universe_steps market_universe = [
     opt_field market_universe ''tickers'' ''market_universe.tickers'' parse_string_array
       (\<lambda>x c. c\<lparr>tc_market_universe_tickers := x\<rparr>)]"

definition shard_risk_steps :: "json \<Rightarrow> config_step list" where
  "shard_risk_steps shard = [
     opt_field shard ''max_open_orders_per_market'' ''risk.shard.max_open_orders_per_market'' parse_non_negative_size_t
       (\<lambda>x. map_shard_risk (\<lambda>r. r\<lparr>src_max_open_orders_per_market := x\<rparr>)),
     opt_field shard ''max_working_qty_per_market'' ''risk.shard.max_working_qty_per_market'' parse_non_negative_qty
       (\<lambda>x. map_shard_risk (\<lambda>r. r\<lparr>src_max_working_qty_per_market := x\<rparr>)),
     opt_field shard ''max_abs_net_position_per_market'' ''risk.shard.max_abs_net_position_per_market'' parse_non_negative_qty
       (\<lambda>x. map_shard_risk (\<lambda>r. r\<lparr>src_max_abs_net_position_per_market := x\<rparr>))]"

definition oms_global_steps :: "json \<Rightarrow> config_step list" where
  "oms_global_steps oms_global = [
     opt_field oms_global ''max_active_orders_global'' ''risk.oms_global.max_active_orders_global'' parse_non_negative_size_t
       (\<lambda>x. map_global_risk (\<lambda>r. r\<lparr>grc_max_active_orders_global := x\<rparr>)),
     opt_field oms_global ''max_active_orders_per_market'' ''risk.oms_global.max_active_orders_per_market''
       parse_non_negative_size_t (\<lambda>x. map_global_risk (\<lambda>r. r\<lparr>grc_max_active_orders_per_market := x\<rparr>)),
     opt_field oms_global ''max_outstanding_qty_global'' ''risk.oms_global.max_outstanding_qty_global'' parse_non_negative_qty
       (\<lambda>x. map_global_risk (\<lambda>r. r\<lparr>grc_max_outstanding_qty_global := x\<rparr>)),
     opt_field oms_global ''max_outstanding_qty_per_market'' ''risk.oms_global.max_outstanding_qty_per_market''
       parse_non_negative_qty (\<lambda>x. map_global_risk (\<lambda>r. r\<lparr>grc_max_outstanding_qty_per_market := x\<rparr>))]"

definition oms_portfolio_steps :: "json \<Rightarrow> config_step list" where
  "oms_portfolio_steps oms_portfolio = [
     opt_field oms_portfolio ''max_abs_net_position_per_market'' ''risk.oms_portfolio.max_abs_net_position_per_market''
       parse_non_negative_qty (\<lambda>x. map_portfolio_risk (\<lambda>r. r\<lparr>prc_max_abs_net_position_per_market := x\<rparr>)),
     opt_field oms_portfolio ''max_abs_position_gross_global'' ''risk.oms_portfolio.max_abs_position_gross_global''
       parse_non_negative_qty (\<lambda>x. map_portfolio_risk (\<lambda>r. r\<lparr>prc_max_abs_position_gross_global := x\<rparr>)),
     opt_field oms_portfolio ''min_realized_pnl_ticks'' ''risk.oms_portfolio.min_realized_pnl_ticks'' parse_int64
       (\<lambda>x. map_portfolio_risk (\<lambda>r. r\<lparr>prc_min_realized_pnl_ticks := x\<rparr>)),
     opt_field oms_portfolio ''enforce_realized_pnl_floor'' ''risk.oms_portfolio.enforce_realized_pnl_floor'' parse_bool
       (\<lambda>x. map_portfolio_risk (\<lambda>r. r\<lparr>prc_enforce_realized_pnl_floor := x\<rparr>))]"

definition risk_steps :: "json \<Rightarrow> config_step list" where
  "risk_steps risk = [
     opt_section risk ''shard'' ''risk.shard'' shard_risk_steps,
     opt_section risk ''oms_global'' ''risk.oms_global'' oms_global_steps,
     opt_section risk ''oms_portfolio'' ''risk.oms_portfolio'' oms_portfolio_steps]"

definition parse_exchange :: "json \<Rightarrow> string \<Rightarrow> string + DecodeExchangeId \<times> ExchangeId" where
  "parse_exchange v field_name =
     (case parse_text v field_name of
        Inl e \<Rightarrow> Inl e
      | Inr name \<Rightarrow> (case parse_exchange_id name of
            None \<Rightarrow> Inl ''pipeline.exchange must be one of: kalshi, polymarket''
          | Some ids \<Rightarrow> Inr ids))"

definition pipeline_steps :: "json \<Rightarrow> config_step list" where
  "pipeline_steps pipeline = [
     opt_field pipeline ''source'' ''pipeline.source'' parse_text (\<lambda>x. map_pipeline (\<lambda>p. p\<lparr>lpc_source := x\<rparr>)),
     opt_field pipeline ''exchange'' ''pipeline.exchange'' parse_exchange
       (\<lambda>(d, e). map_pipeline (\<lambda>p. p\<lparr>lpc_decode_exchange := d, lpc_router_exchange := e\<rparr>)),
     opt_field pipeline ''frame_pool_capacity'' ''pipeline.frame_pool_capacity'' parse_positive_size_t
       (\<lambda>x. map_pipeline (\<lambda>p. p\<lparr>lpc_frame_pool_capacity := x\<rparr>)),
     opt_field pipeline ''frame_queue_capacity'' ''pipeline.frame_queue_capacity'' parse_positive_size_t
       (\<lambda>x. map_pipeline (\<lambda>p. p\<lparr>lpc_frame_queue_capacity := x\<rparr>)),
     opt_field pipeline ''shard_count'' ''pipeline.shard_count'' parse_positive_size_t
       (\<lambda>x. map_pipeline (\<lambda>p. p\<lparr>lpc_shard_count := x\<rparr>)),
     opt_field pipeline ''per_shard_queue_capacity'' ''pipeline.per_shard_queue_capacity'' parse_positive_size_t
       (\<lambda>x. map_pipeline (\<lambda>p. p\<lparr>lpc_per_shard_queue_capacity := x\<rparr>)),
     opt_field pipeline ''shard_idle_sleep_ms'' ''pipeline.shard_idle_sleep_ms'' parse_non_negative_ms
       (\<lambda>x. map_pipeline (\<lambda>p. p\<lparr>lpc_shard_idle_sleep_ms := x\<rparr>))]"

definition parse_mode :: "json \<Rightarrow> string \<Rightarrow> string + TraderExecutionMode" where
  "parse_mode v field_name =
     (case parse_text v field_name of
        Inl e \<Rightarrow> Inl e
      | Inr name \<Rightarrow> (case parse_execution_mode name of
            None \<Rightarrow> Inl ''runtime.execution_mode must be one of: live, paper, md-only''
          | Some m \<Rightarrow> Inr m))"

definition runtime_steps :: "json \<Rightarrow> config_step list" where
  "runtime_steps runtime = [
     opt_field runtime ''pump_batch_size'' ''runtime.pump_batch_size'' parse_positive_size_t
       (\<lambda>x c. c\<lparr>tc_pump_batch_size := x\<rparr>),
     opt_field runtime ''pump_idle_sleep_ms'' ''runtime.pump_idle_sleep_ms'' parse_non_negative_ms
       (\<lambda>x c. c\<lparr>tc_pump_idle_sleep_ms := x\<rparr>),
     opt_field runtime ''execution_mode'' ''runtime.execution_mode'' parse_mode (\<lambda>x c. c\<lparr>tc_execution_mode := x\<rparr>)]"

definition config_steps :: "json \<Rightarrow> config_step list" where
  "config_steps root_obj = [
     opt_field root_obj ''mode'' ''mode'' parse_text (\<lambda>x c. c\<lparr>tc_mode := x\<rparr>),
     opt_section root_obj ''kalshi'' ''kalshi'' kalshi_steps,
     opt_section root_obj ''market_universe'' ''market_universe'' universe_steps,
     opt_section root_obj ''risk'' ''risk'' risk_steps,
     opt_section root_obj ''pipeline'' ''pipeline'' pipeline_steps,
     opt_section root_obj ''runtime'' ''runtime'' runtime_steps]"

definition parse_from_json :: "json \<Rightarrow> ConfigLoadResult" where
  "parse_from_json root_obj =
     (if \<not> json_is_object root_obj
      then \<lparr> clr_ok = False, clr_config = TraderRuntimeConfig_default, clr_error = ''config root must be a JSON object'' \<rparr>
      else case run_steps (config_steps root_obj) TraderRuntimeConfig_default of
          (c, Some e) \<Rightarrow> \<lparr> clr_ok = False, clr_config = c, clr_error = e \<rparr>
        | (c, None) \<Rightarrow> \<lparr> clr_ok = True, clr_config = c, clr_error = '''' \<rparr>)"

definition load_trader_config_from_json :: "Nlohmann \<Rightarrow> string \<Rightarrow> ConfigLoadResult" where
  "load_trader_config_from_json nl json_text =
     (case nl_parse nl json_text of
        Some root_obj \<Rightarrow> parse_from_json root_obj
      | None \<Rightarrow> \<lparr> clr_ok = False, clr_config = TraderRuntimeConfig_default,
          clr_error = ''failed to parse config JSON: '' @ nl_parse_what nl json_text \<rparr>)"

text \<open>Whether the error mentions the path already; \<open>find\<close> looks for it anywhere in the message.\<close>

fun mentions :: "string \<Rightarrow> string \<Rightarrow> bool" where
  "mentions pat [] = (pat = [])"
| "mentions pat (c # cs) = (take (length pat) (c # cs) = pat \<or> mentions pat cs)"

definition load_trader_config_from_file :: "Nlohmann \<Rightarrow> (string \<Rightarrow> string option) \<Rightarrow> string \<Rightarrow> ConfigLoadResult" where
  "load_trader_config_from_file nl read_file path =
     (case read_file path of
        None \<Rightarrow> \<lparr> clr_ok = False, clr_config = TraderRuntimeConfig_default, clr_error = ''failed to open config file: '' @ path \<rparr>
      | Some contents \<Rightarrow>
          let r = load_trader_config_from_json nl contents in
          if \<not> clr_ok r \<and> \<not> mentions path (clr_error r) then r\<lparr>clr_error := path @ '': '' @ clr_error r\<rparr> else r)"

section \<open>What a step keeps\<close>

definition keeps :: "(TraderRuntimeConfig \<Rightarrow> bool) \<Rightarrow> config_step \<Rightarrow> bool" where
  "keeps P step \<longleftrightarrow> (\<forall>c. P c \<longrightarrow> P (fst (step c)))"

definition explains :: "config_step \<Rightarrow> bool" where
  "explains step \<longleftrightarrow> (\<forall>c e. snd (step c) = Some e \<longrightarrow> e \<noteq> '''')"

lemma run_steps_keeps: "list_all (keeps P) steps \<Longrightarrow> P c \<Longrightarrow> P (fst (run_steps steps c))"
proof (induction steps arbitrary: c)
  case (Cons step steps)
  then have "P (fst (step c))" by (simp add: keeps_def)
  with Cons show ?case by (cases "step c"; cases "snd (step c)") auto
qed simp

lemma run_steps_explains: "list_all explains steps \<Longrightarrow> snd (run_steps steps c) = Some e \<Longrightarrow> e \<noteq> ''''"
proof (induction steps arbitrary: c)
  case (Cons step steps)
  then have "snd (step c) = Some e \<Longrightarrow> e \<noteq> ''''" by (simp add: explains_def)
  with Cons show ?case by (cases "step c"; cases "snd (step c)") auto
qed simp

lemma opt_field_keeps:
  assumes "\<And>v x c. parse v name = Inr x \<Longrightarrow> P c \<Longrightarrow> P (store x c)"
  shows "keeps P (opt_field object key name parse store)"
  using assms by (auto simp: keeps_def opt_field_def split: option.split sum.split)

lemma opt_section_keeps: "(\<And>v. list_all (keeps P) (steps v)) \<Longrightarrow> keeps P (opt_section object key name steps)"
  by (auto simp: keeps_def opt_section_def run_steps_keeps split: option.split)

lemma opt_field_explains: "(\<And>v e. parse v name = Inl e \<Longrightarrow> e \<noteq> '''') \<Longrightarrow> explains (opt_field object key name parse store)"
  by (auto simp: explains_def opt_field_def split: option.splits sum.splits)

lemma opt_section_explains: "(\<And>v. list_all explains (steps v)) \<Longrightarrow> explains (opt_section object key name steps)"
  by (force simp: explains_def opt_section_def dest: run_steps_explains split: option.splits if_splits)

section \<open>Loaded configurations\<close>

lemma parsed_values:
  "parse_positive_size_t v n = Inr x \<Longrightarrow> 0 < x"
  "parse_non_negative_ms v n = Inr y \<Longrightarrow> 0 \<le> y \<and> in_i64 y"
  "parse_non_negative_qty v n = Inr z \<Longrightarrow> 0 \<le> z \<and> in_i64 z"
  "parse_int64 v n = Inr w \<Longrightarrow> in_i64 w"
  by (auto simp: parse_positive_size_t_def parse_non_negative_ms_def parse_non_negative_qty_def parse_int64_def
      split: json.splits if_splits sum.splits)

lemma string_entries_error: "string_entries n items = Inl e \<Longrightarrow> e \<noteq> ''''"
  by (induction n items rule: string_entries.induct) (auto split: json.splits sum.splits)

lemma parse_errors:
  "parse_positive_size_t v n = Inl e \<Longrightarrow> e \<noteq> ''''" "parse_non_negative_size_t v n = Inl e \<Longrightarrow> e \<noteq> ''''"
  "parse_non_negative_ms v n = Inl e \<Longrightarrow> e \<noteq> ''''" "parse_non_negative_qty v n = Inl e \<Longrightarrow> e \<noteq> ''''"
  "parse_int64 v n = Inl e \<Longrightarrow> e \<noteq> ''''" "parse_bool v n = Inl e \<Longrightarrow> e \<noteq> ''''" "parse_text v n = Inl e \<Longrightarrow> e \<noteq> ''''"
  "parse_string_array v n = Inl e \<Longrightarrow> e \<noteq> ''''" "parse_exchange v n = Inl e \<Longrightarrow> e \<noteq> ''''" "parse_mode v n = Inl e \<Longrightarrow> e \<noteq> ''''"
  by (auto simp: parse_positive_size_t_def parse_non_negative_size_t_def parse_non_negative_ms_def parse_non_negative_qty_def
      parse_int64_def parse_bool_def parse_text_def parse_string_array_def parse_exchange_def parse_mode_def
      string_entries_error split: json.splits if_splits sum.splits option.splits)

definition pipeline_safe :: "LivePipelineConfig \<Rightarrow> bool" where
  "pipeline_safe p \<longleftrightarrow> 0 < lpc_frame_pool_capacity p \<and> 0 < lpc_frame_queue_capacity p \<and> 0 < lpc_shard_count p \<and>
     0 < lpc_per_shard_queue_capacity p \<and> 0 \<le> lpc_shard_idle_sleep_ms p \<and>
     (lpc_decode_exchange p, lpc_router_exchange p) \<in> {(De_kKalshi, Ex_kKalshi), (De_kPolymarket, Ex_kPolymarket)}"

definition limit_ok :: "i64 \<Rightarrow> bool" where
  "limit_ok x \<longleftrightarrow> 0 \<le> x \<and> in_i64 x"

definition risk_safe :: "RiskConfig \<Rightarrow> bool" where
  "risk_safe r \<longleftrightarrow> limit_ok (src_max_working_qty_per_market (rc_shard r)) \<and>
     limit_ok (src_max_abs_net_position_per_market (rc_shard r)) \<and>
     limit_ok (grc_max_outstanding_qty_global (rc_oms_global r)) \<and>
     limit_ok (grc_max_outstanding_qty_per_market (rc_oms_global r)) \<and>
     limit_ok (prc_max_abs_net_position_per_market (rc_oms_portfolio r)) \<and>
     limit_ok (prc_max_abs_position_gross_global (rc_oms_portfolio r)) \<and>
     in_i64 (prc_min_realized_pnl_ticks (rc_oms_portfolio r))"

definition config_safe :: "TraderRuntimeConfig \<Rightarrow> bool" where
  "config_safe c \<longleftrightarrow> pipeline_safe (tc_pipeline c) \<and> risk_safe (tc_risk c) \<and> 0 < tc_pump_batch_size c \<and> 0 \<le> tc_pump_idle_sleep_ms c"

lemma config_safe_default: "config_safe TraderRuntimeConfig_default"
  by (simp add: config_safe_def TraderRuntimeConfig_default_def pipeline_safe_def LivePipelineConfig_default_def
      risk_safe_def RiskConfig_default_def limit_ok_def in_i64_def)

lemmas section_defs = credentials_steps_def kalshi_steps_def universe_steps_def shard_risk_steps_def oms_global_steps_def
  oms_portfolio_steps_def risk_steps_def pipeline_steps_def runtime_steps_def config_steps_def

lemma risk_sections_safe:
  "list_all (keeps config_safe) (shard_risk_steps v)" "list_all (keeps config_safe) (oms_global_steps v)"
  "list_all (keeps config_safe) (oms_portfolio_steps v)"
  unfolding section_defs list.pred_inject
  by (intro conjI TrueI opt_field_keeps;
      auto simp: config_safe_def risk_safe_def config_maps limit_ok_def dest: parsed_values)+

lemma pipeline_section_safe: "list_all (keeps config_safe) (pipeline_steps v)"
  unfolding section_defs list.pred_inject
  by (intro conjI TrueI opt_field_keeps;
      auto simp: config_safe_def pipeline_safe_def config_maps parse_exchange_def parse_exchange_id_def
        split: sum.splits option.splits if_splits dest: parsed_values)

lemma other_sections_safe:
  "list_all (keeps config_safe) (kalshi_steps v)" "list_all (keeps config_safe) (universe_steps v)"
  "list_all (keeps config_safe) (runtime_steps v)"
  unfolding section_defs list.pred_inject
  by (intro conjI TrueI opt_field_keeps opt_section_keeps; (unfold section_defs list.pred_inject)?;
      (intro conjI TrueI opt_field_keeps)?;
      auto simp: config_safe_def config_maps dest: parsed_values)+

lemma config_steps_safe: "list_all (keeps config_safe) (config_steps v)"
  unfolding config_steps_def list.pred_inject
  by (intro conjI TrueI opt_section_keeps opt_field_keeps other_sections_safe pipeline_section_safe)
    (simp_all add: risk_steps_def risk_sections_safe opt_section_keeps config_safe_def)

lemma sections_explain:
  "list_all explains (credentials_steps v)" "list_all explains (shard_risk_steps v)" "list_all explains (oms_global_steps v)"
  "list_all explains (oms_portfolio_steps v)" "list_all explains (pipeline_steps v)" "list_all explains (universe_steps v)"
  "list_all explains (runtime_steps v)"
  by (auto simp: section_defs intro!: opt_field_explains dest: parse_errors)

lemma config_steps_explain: "list_all explains (config_steps v)"
  by (auto simp: config_steps_def kalshi_steps_def risk_steps_def sections_explain intro!: opt_section_explains
      opt_field_explains dest: parse_errors)

section \<open>Claims about the configuration\<close>

lemma parse_from_json_ok: "clr_ok (parse_from_json j) \<Longrightarrow> config_safe (clr_config (parse_from_json j))"
  using run_steps_keeps [OF config_steps_safe config_safe_default, of j]
  by (auto simp: parse_from_json_def split: prod.splits option.splits if_splits)

lemma parse_from_json_error: "\<not> clr_ok (parse_from_json j) \<Longrightarrow> clr_error (parse_from_json j) \<noteq> ''''"
  using run_steps_explains [OF config_steps_explain, of j TraderRuntimeConfig_default]
  by (auto simp: parse_from_json_def split: prod.splits option.splits if_splits)

lemma load_file_ok:
  assumes "clr_ok (load_trader_config_from_file nl read_file path)"
  obtains contents j where "read_file path = Some contents" "nl_parse nl contents = Some j"
    "load_trader_config_from_file nl read_file path = parse_from_json j"
  using assms by (auto simp: load_trader_config_from_file_def load_trader_config_from_json_def Let_def
      split: option.splits if_splits)

lemma load_file_error:
  "\<not> clr_ok (load_trader_config_from_file nl read_file path) \<Longrightarrow>
   clr_error (load_trader_config_from_file nl read_file path) \<noteq> ''''"
  by (auto simp: load_trader_config_from_file_def load_trader_config_from_json_def Let_def parse_from_json_error
      split: option.splits if_splits)

lemma mode_only_config:
  "parse_from_json (json_obj [(''runtime'', json_obj [(''execution_mode'', Json_string (execution_mode_name m))])]) =
     \<lparr> clr_ok = True, clr_config = TraderRuntimeConfig_default\<lparr>tc_execution_mode := m\<rparr>, clr_error = '''' \<rparr>"
  by (cases m) (simp_all add: parse_from_json_def config_steps_def opt_section_def opt_field_def runtime_steps_def
      parse_mode_def parse_text_def parse_execution_mode_def)

lemma loaded_config_parts:
  assumes "r = load_trader_config_from_file nl read_file path" "cfg = tc_pipeline (clr_config r)"
  shows "clr_ok r \<Longrightarrow> config_safe (clr_config r)"
    and "clr_ok r \<Longrightarrow> length (lp_shards (LivePipeline_new decode cfg)) = lpc_shard_count cfg"
    and "\<not> clr_ok r \<Longrightarrow> clr_error r \<noteq> ''''"
    and "parse_from_json (json_obj [(''runtime'', json_obj [(''execution_mode'', Json_string (execution_mode_name m))])]) =
      \<lparr> clr_ok = True, clr_config = TraderRuntimeConfig_default\<lparr>tc_execution_mode := m\<rparr>, clr_error = '''' \<rparr>"
proof -
  show safe: "config_safe (clr_config r)" if "clr_ok r"
    using load_file_ok [OF that [unfolded assms(1)]] parse_from_json_ok that unfolding assms(1) by metis
  show "length (lp_shards (LivePipeline_new decode cfg)) = lpc_shard_count cfg" if "clr_ok r"
    using safe [OF that] by (simp add: assms(2) config_safe_def pipeline_safe_def LivePipeline_new_def Let_def
        sharded_shard_count_def sharded_new)
qed (simp_all add: assms(1) load_file_error mode_only_config)

text \<open>
  C34. A configuration file that loads is one the pipeline can be built from: every
  capacity and the shard count are positive, so that the pipeline has exactly the configured number of
  shards; every quantity limit is a non-negative
  64-bit number (a negative one would disable the check it configures), and the decoder and the router are of the
  same exchange. A file that does not load comes with a message, and an execution mode written by its
  name is read back, every other field keeping its default.
\<close>

theorem loaded_config_is_safe:
  assumes "r = load_trader_config_from_file nl read_file path" "cfg = tc_pipeline (clr_config r)"
  shows "(if clr_ok r
      then config_safe (clr_config r) \<and> length (lp_shards (LivePipeline_new decode cfg)) = lpc_shard_count cfg
      else clr_error r \<noteq> '''') \<and>
    parse_from_json (json_obj [(''runtime'', json_obj [(''execution_mode'', Json_string (execution_mode_name m))])]) =
      \<lparr> clr_ok = True, clr_config = TraderRuntimeConfig_default\<lparr>tc_execution_mode := m\<rparr>, clr_error = '''' \<rparr>"
  using loaded_config_parts [OF assms] by simp

definition example_config_json :: json where
  "example_config_json = json_obj [
     (''pipeline'', json_obj [(''shard_count'', Json_integer 3), (''exchange'', Json_string ''polymarket'')]),
     (''risk'', json_obj [(''oms_global'', json_obj [(''max_outstanding_qty_global'', Json_integer 500)])])]"

definition config_nl :: "json \<Rightarrow> Nlohmann" where
  "config_nl j = \<lparr> nl_parse = (\<lambda>s. if s = ''{}'' then Some j else None), nl_parse_what = (\<lambda>s. ''syntax error''),
     nl_dump = (\<lambda>j. Inl ''not dumped''), nl_get_unsigned = (\<lambda>j. None) \<rparr>"

lemma example_config_loads:
  "load_trader_config_from_file (config_nl example_config_json) (\<lambda>p. Some ''{}'') ''trader.json'' =
   \<lparr> clr_ok = True, clr_config = TraderRuntimeConfig_default
       \<lparr>tc_pipeline := LivePipelineConfig_default\<lparr>lpc_shard_count := 3, lpc_decode_exchange := De_kPolymarket,
          lpc_router_exchange := Ex_kPolymarket\<rparr>,
        tc_risk := RiskConfig_default\<lparr>rc_oms_global := (rc_oms_global RiskConfig_default)
          \<lparr>grc_max_outstanding_qty_global := 500\<rparr>\<rparr>\<rparr>,
     clr_error = '''' \<rparr>"
  by (simp add: load_trader_config_from_file_def load_trader_config_from_json_def config_nl_def example_config_json_def
      parse_from_json_def section_defs opt_section_def opt_field_def config_maps parse_positive_size_t_def
      parse_exchange_def parse_text_def parse_exchange_id_def parse_non_negative_qty_def parse_int64_def Let_def
      wrap_i64_def TraderRuntimeConfig_default_def)

theorem loaded_config_is_safe_witness:
  "\<exists>r. r = load_trader_config_from_file (config_nl example_config_json) (\<lambda>p. Some ''{}'') ''trader.json'' \<and>
     config_safe (clr_config r) \<and> length (lp_shards (LivePipeline_new (rt_decode_fn example_router) (tc_pipeline (clr_config r)))) = 3"
  using loaded_config_is_safe [OF refl refl, of "config_nl example_config_json" "\<lambda>p. Some ''{}''" "''trader.json''"
      "rt_decode_fn example_router"]
  by (simp add: example_config_loads)

end
