(* ===== verification/Trader_App.thy ===== *)
theory Trader_App
  imports Live_Pipeline Strategy_Runner Kalshi_Market_Data Kalshi_Orders Ws_Feed Trader_Config
begin

text \<open>
  \<open>apps/trader/main.cpp\<close>: how the trader is put together from its configuration, started, run
  and shut down, and \<open>core/app.cpp\<close>, the payload it logs. The process environment, the file
  system, the JSON libraries, the network and the signature are the fields of \<open>Platform\<close>. A start
  ends in an exit code, in an exception nobody catches, or in a running trader.
\<close>

section \<open>The process around the trader\<close>

record ('n, 'v) Platform =
  pf_getenv :: "string \<Rightarrow> string option"
  pf_read_file :: "string \<Rightarrow> string option"
  pf_sign :: "string \<Rightarrow> string \<Rightarrow> Thrown + string"
  pf_json :: Nlohmann
  pf_simdjson :: "'v Simdjson"
  pf_net :: "'n WsNetwork"
  pf_new_network :: 'n

definition kExitMissingCredentials :: int where "kExitMissingCredentials = 3"
definition kExitPipelineStartFailure :: int where "kExitPipelineStartFailure = 4"
definition kExitFeedRunnerStartFailure :: int where "kExitFeedRunnerStartFailure = 5"
definition kExitConfigLoadFailure :: int where "kExitConfigLoadFailure = 6"
definition kExitOmsStartFailure :: int where "kExitOmsStartFailure = 7"

definition get_env :: "('n, 'v) Platform \<Rightarrow> string \<Rightarrow> string option" where
  "get_env pf name = (case pf_getenv pf name of None \<Rightarrow> None | Some value \<Rightarrow> if value = '''' then None else Some value)"

text \<open>\<open>argv\<close> without its terminating null pointer.\<close>

definition resolve_config_path :: "('n, 'v) Platform \<Rightarrow> string list \<Rightarrow> string option" where
  "resolve_config_path pf argv =
     (let from_env = get_env pf ''TRADING_CONFIG_PATH'' in
      if length argv \<ge> 3 \<and> argv ! 1 = ''--config''
      then (if argv ! 2 \<noteq> '''' then Some (argv ! 2) else from_env)
      else if length argv \<ge> 2
      then (if argv ! 1 \<noteq> '''' then Some (argv ! 1) else from_env)
      else from_env)"

definition heartbeat_json :: "string \<Rightarrow> json" where
  "heartbeat_json mode = json_obj [(''service'', Json_string ''trading_engine''), (''status'', Json_string ''ok''),
     (''mode'', Json_string mode)]"

definition build_heartbeat_json :: "Nlohmann \<Rightarrow> string \<Rightarrow> Thrown + string" where
  "build_heartbeat_json nl mode = dump_message nl (heartbeat_json mode)"

definition build_trader_startup_payload :: "Nlohmann \<Rightarrow> string \<Rightarrow> Thrown + string" where
  "build_trader_startup_payload nl mode = build_heartbeat_json nl mode"

definition build_logger_startup_payload :: "Nlohmann \<Rightarrow> string \<Rightarrow> Thrown + string" where
  "build_logger_startup_payload nl mode = build_heartbeat_json nl mode"

section \<open>The order manager of the trader\<close>

text \<open>The order transport is chosen at run time: the object behind \<open>unique_ptr<IOrderTransport>\<close>.\<close>

datatype 'n OmsTransport = Ot_websocket "'n BeastTransport" | Ot_paper PaperOrderTransport

definition on_left :: "('a \<Rightarrow> 'c) \<Rightarrow> 'a \<times> 'b \<Rightarrow> 'c \<times> 'b" where
  "on_left f r = (f (fst r), snd r)"

definition oms_transport :: "('n, 'v) Platform \<Rightarrow> 'n OmsTransport OrderTransport" where
  "oms_transport pf = (let live = ws_order_transport (beast_transport (pf_net pf)); paper = paper_transport (pf_json pf) in \<lparr>
     ot_connect = (\<lambda>t config. case t of Ot_websocket w \<Rightarrow> on_left Ot_websocket (ot_connect live w config)
       | Ot_paper p \<Rightarrow> on_left Ot_paper (ot_connect paper p config)),
     ot_send_text = (\<lambda>t payload. case t of Ot_websocket w \<Rightarrow> on_left Ot_websocket (ot_send_text live w payload)
       | Ot_paper p \<Rightarrow> on_left Ot_paper (ot_send_text paper p payload)),
     ot_recv_text = (\<lambda>t. case t of Ot_websocket w \<Rightarrow> on_left Ot_websocket (ot_recv_text live w)
       | Ot_paper p \<Rightarrow> on_left Ot_paper (ot_recv_text paper p)),
     ot_close = (\<lambda>t. case t of Ot_websocket w \<Rightarrow> Ot_websocket (ot_close live w) | Ot_paper p \<Rightarrow> Ot_paper (ot_close paper p)),
     ot_last_error = (\<lambda>t. case t of Ot_websocket w \<Rightarrow> ot_last_error live w | Ot_paper p \<Rightarrow> ot_last_error paper p) \<rparr>)"

definition trader_oms_ports :: "('n, 'v) Platform \<Rightarrow> ('n OmsTransport, PositionLedger) OmsPorts" where
  "trader_oms_ports pf = \<lparr> po_adapter = kalshi_adapter (pf_json pf), po_transport = oms_transport pf,
     po_on_order_update = PositionLedger_on_order_update, po_snapshot_for = Some PositionLedger_snapshot_for \<rparr>"

type_synonym 'n TraderOms = "('n OmsTransport, PositionLedger) OrderManager"

definition trader_order_manager :: "TraderRuntimeConfig \<Rightarrow> 'n OmsTransport \<Rightarrow> string \<Rightarrow> (string \<times> string) list \<Rightarrow> 'n TraderOms" where
  "trader_order_manager cfg transport oms_endpoint oms_headers = OrderManager_new transport PositionLedger_new
     \<lparr> omc_transport = \<lparr> otc_endpoint = oms_endpoint, otc_headers = oms_headers \<rparr>,
       omc_global_risk = rc_oms_global (tc_risk cfg), omc_portfolio_risk = rc_oms_portfolio (tc_risk cfg) \<rparr>"

text \<open>The path the order manager signs is the default argument of \<open>make_ws_headers\<close>.\<close>

definition kDefaultWsPath :: string where "kDefaultWsPath = ''/trade-api/ws/v2''"

definition build_order_manager ::
    "('n, 'v) Platform \<Rightarrow> nat \<Rightarrow> TraderRuntimeConfig \<Rightarrow> Credentials \<Rightarrow> Thrown + 'n TraderOms option" where
  "build_order_manager pf now_ms cfg credentials =
     (case tc_execution_mode cfg of
        Mode_kLive \<Rightarrow>
          (case make_ws_headers (pf_read_file pf) (pf_sign pf) now_ms credentials kDefaultWsPath of
             Inl e \<Rightarrow> Inl e
           | Inr h \<Rightarrow> Inr (Some (trader_order_manager cfg (Ot_websocket (beast_new (pf_net pf) (pf_new_network pf))) (kc_endpoint (tc_kalshi cfg))
               (kalshi_access_headers h))))
      | Mode_kPaper \<Rightarrow> Inr (Some (trader_order_manager cfg (Ot_paper (PaperOrderTransport_new True)) ''paper://oms'' []))
      | Mode_kMarketDataOnly \<Rightarrow> Inr None)"

section \<open>Strategies and their intent sink\<close>

text \<open>
  The intent sink of the strategies, with the position ledger: in the order manager when there is
  one, on its own in market-data mode.
\<close>

datatype 'n IntentSink = Is_order_manager "('n OmsTransport, PositionLedger) OrderManagerIntentSink" | Is_dropping u64 PositionLedger

fun intent_sink_ledger :: "'n IntentSink \<Rightarrow> PositionLedger" where
  "intent_sink_ledger (Is_order_manager k) = om_sink (ois_order_manager k)"
| "intent_sink_ledger (Is_dropping dropped_count l) = l"

definition trader_submit_intent ::
    "('n, 'v) Platform \<Rightarrow> TimestampNs \<Rightarrow> 'n IntentSink \<Rightarrow> OrderIntent \<Rightarrow> 'n IntentSink \<times> bool" where
  "trader_submit_intent pf now k intent =
     (case k of
        Is_order_manager s \<Rightarrow> on_left Is_order_manager (om_sink_submit_intent (trader_oms_ports pf) now s intent)
      | Is_dropping dropped_count l \<Rightarrow> on_left (\<lambda>n. Is_dropping n l) (dropping_submit_intent dropped_count intent))"

definition trader_strategy_ports ::
    "('n, 'v) Platform \<Rightarrow> TimestampNs \<Rightarrow> ('st \<Rightarrow> NormalizedEvent \<Rightarrow> 'st \<times> (Thrown + OrderIntent list))
      \<Rightarrow> ('st, 'n IntentSink) StrategyPorts" where
  "trader_strategy_ports pf now strategy = \<lparr> sp_on_event = strategy, sp_submit_intent = trader_submit_intent pf now,
     sp_sink_last_error = (\<lambda>k. case k of Is_order_manager s \<Rightarrow> ois_last_error s | Is_dropping _ _ \<Rightarrow> ''''),
     sp_snapshot_for = Some (ledger_snapshot_for (\<lambda>k. PositionLedger_snapshot_for (intent_sink_ledger k))) \<rparr>"

text \<open>The handler of a shard: \<open>None\<close> where the factory returns no handler.\<close>

definition strategy_shard_count :: "TraderRuntimeConfig \<Rightarrow> usize" where
  "strategy_shard_count cfg = max (lpc_shard_count (tc_pipeline cfg)) 1"

definition shard_event_handler_factory ::
    "TraderRuntimeConfig \<Rightarrow> ('st, 'k) StrategyPorts \<Rightarrow> usize
      \<Rightarrow> (('st, 'k) StrategyRunner \<Rightarrow> NormalizedEvent \<Rightarrow> ('st, 'k) StrategyRunner \<times> bool) option" where
  "shard_event_handler_factory cfg ports shard_id =
     (let allowed_strategy_markets = set (tc_market_universe_tickers cfg) in
      if shard_id \<ge> strategy_shard_count cfg then None
      else if allowed_strategy_markets = {} then Some (strategy_handler_on_event ports)
      else Some (market_filter_on_event allowed_strategy_markets (Some (strategy_handler_on_event ports))))"

section \<open>Starting\<close>

text \<open>
  The intent sink owns the order manager, if there is one, and \<open>tr_oms_local\<close> is the local deque of its
  worker. The feed and the strategies refer to the sink of the pipeline and to the intent sink:
  the copies in their records are refreshed in every round.
\<close>

record ('n, 'st) Trader =
  tr_config :: TraderRuntimeConfig
  tr_credentials :: Credentials
  tr_intent_sink :: "'n IntentSink"
  tr_oms_local :: "PendingIntent list"
  tr_runners :: "('st, 'n IntentSink) StrategyRunner list"
  tr_pipeline :: LivePipeline
  tr_feed :: "('n BeastTransport, MessageSink) FeedRunner"

text \<open>An exit carries its code and the order manager as it was left.\<close>

datatype ('n, 'st) StartResult = Exited int "'n TraderOms option" | Uncaught Thrown | Started "('n, 'st) Trader"

definition intent_sink_of :: "'n TraderOms option \<Rightarrow> 'n IntentSink" where
  "intent_sink_of order_manager = (case order_manager of
       Some m \<Rightarrow> Is_order_manager \<lparr> ois_order_manager = m, ois_last_error = '''' \<rparr>
     | None \<Rightarrow> Is_dropping 0 PositionLedger_new)"

definition load_runtime_config :: "('n, 'v) Platform \<Rightarrow> string list \<Rightarrow> string + TraderRuntimeConfig" where
  "load_runtime_config pf argv =
     (case resolve_config_path pf argv of
        None \<Rightarrow> Inr TraderRuntimeConfig_default
      | Some path \<Rightarrow>
          let loaded = load_trader_config_from_file (pf_json pf) (pf_read_file pf) path
          in if \<not> clr_ok loaded then Inl (clr_error loaded) else Inr (clr_config loaded))"

definition resolve_credentials :: "('n, 'v) Platform \<Rightarrow> TraderRuntimeConfig \<Rightarrow> Credentials option" where
  "resolve_credentials pf cfg =
     (let c = kc_credentials (tc_kalshi cfg);
          key_id = (if cc_key_id c = '''' then get_env pf (cc_key_id_env c) else Some (cc_key_id c));
          private_key_pem = (if cc_private_key_pem c = '''' then get_env pf (cc_private_key_pem_env c)
            else Some (cc_private_key_pem c))
      in case (key_id, private_key_pem) of
           (Some k, Some p) \<Rightarrow> Some \<lparr> cd_key_id = k, cd_private_key_pem = p \<rparr>
         | _ \<Rightarrow> None)"

definition FeedRunner_new :: "'w \<Rightarrow> 'k \<Rightarrow> string list \<Rightarrow> ('w, 'k) FeedRunner" where
  "FeedRunner_new transport sink channels = \<lparr>
     fr_session = \<lparr> se_transport = transport, se_connect_request = \<lparr> cr_endpoint = '''', cr_headers = [] \<rparr>,
       se_last_subscribe_payload = '''', se_last_error = '''' \<rparr>,
     fr_sink = sink, fr_channels = channels, fr_worker_joinable = False, fr_running = False, fr_received_count = 0,
     fr_dropped_count = 0, fr_last_error = '''', fr_loop = Feed_idle \<rparr>"

definition stop_order_manager :: "('n, 'v) Platform \<Rightarrow> 'n TraderOms option \<Rightarrow> 'n TraderOms option" where
  "stop_order_manager pf order_manager = map_option (om_stop (trader_oms_ports pf)) order_manager"

definition start_feed ::
    "('n, 'v) Platform \<Rightarrow> TraderRuntimeConfig \<Rightarrow> Credentials \<Rightarrow> 'n TraderOms option \<Rightarrow> 'st \<Rightarrow> LivePipeline
      \<Rightarrow> ('n, 'st) StartResult" where
  "start_feed pf cfg credentials order_manager strategy_init pipeline =
     (case feed_start (FeedRunner_new (beast_new (pf_net pf) (pf_new_network pf)) (lp_sink pipeline) (kc_channels (tc_kalshi cfg))) of
        (feed, False) \<Rightarrow> Exited kExitFeedRunnerStartFailure (stop_order_manager pf order_manager)
      | (feed, True) \<Rightarrow> Started \<lparr> tr_config = cfg, tr_credentials = credentials,
          tr_intent_sink = intent_sink_of order_manager, tr_oms_local = [],
          tr_runners = replicate (strategy_shard_count cfg)
            (StrategyRunner_new strategy_init (intent_sink_of order_manager) (rc_shard (tc_risk cfg))),
          tr_pipeline = pipeline, tr_feed = feed \<rparr>)"

definition start_pipeline ::
    "('n, 'v) Platform \<Rightarrow> TraderRuntimeConfig \<Rightarrow> Credentials \<Rightarrow> 'n TraderOms option \<Rightarrow> 'st \<Rightarrow> ('n, 'st) StartResult" where
  "start_pipeline pf cfg credentials order_manager strategy_init =
     (case pipeline_start (LivePipeline_new (kalshi_extract (pf_simdjson pf)) (tc_pipeline cfg)) of
        (pipeline, False) \<Rightarrow> Exited kExitPipelineStartFailure (stop_order_manager pf order_manager)
      | (pipeline, True) \<Rightarrow> start_feed pf cfg credentials order_manager strategy_init pipeline)"

definition trader_start :: "('n, 'v) Platform \<Rightarrow> nat \<Rightarrow> 'st \<Rightarrow> string list \<Rightarrow> ('n, 'st) StartResult" where
  "trader_start pf now_ms strategy_init argv =
     (case load_runtime_config pf argv of
        Inl e \<Rightarrow> Exited kExitConfigLoadFailure None
      | Inr cfg \<Rightarrow>
          (case build_trader_startup_payload (pf_json pf) (tc_mode cfg) of
             Inl e \<Rightarrow> Uncaught e
           | Inr startup \<Rightarrow>
               (case resolve_credentials pf cfg of
                  None \<Rightarrow> Exited kExitMissingCredentials None
                | Some credentials \<Rightarrow>
                    (case build_order_manager pf now_ms cfg credentials of
                       Inl e \<Rightarrow> Uncaught e
                     | Inr None \<Rightarrow> start_pipeline pf cfg credentials None strategy_init
                     | Inr (Some m) \<Rightarrow>
                         (case om_start (trader_oms_ports pf) m of
                            (m, False) \<Rightarrow> Exited kExitOmsStartFailure (Some m)
                          | (m, True) \<Rightarrow> start_pipeline pf cfg credentials (Some m) strategy_init)))))"

section \<open>Running\<close>

text \<open>One round of each thread: the feed, the main loop, a shard and the worker of the order manager.\<close>

definition trader_feed_ports ::
    "('n, 'v) Platform \<Rightarrow> ('n, 'st) Trader \<Rightarrow> u64 \<Rightarrow> i64 \<Rightarrow> ('n BeastTransport, MessageSink) FeedPorts" where
  "trader_feed_ports pf t now_ns now = \<lparr> fp_transport = beast_transport (pf_net pf),
     fp_adapter = kalshi_ws_adapter (pf_json pf) (pf_read_file pf) (pf_sign pf) (tr_credentials t)
       (kc_endpoint (tc_kalshi (tr_config t))),
     fp_push_message = (\<lambda>s message. sink_push_message s now_ns now message) \<rparr>"

definition trader_feed_round ::
    "('n, 'v) Platform \<Rightarrow> nat \<Rightarrow> u64 \<Rightarrow> i64 \<Rightarrow> ('n, 'st) Trader \<Rightarrow> ('n, 'st) Trader" where
  "trader_feed_round pf now_ms now_ns now t =
     (let feed = feed_step (trader_feed_ports pf t now_ns now) now_ms ((tr_feed t)\<lparr>fr_sink := lp_sink (tr_pipeline t)\<rparr>)
      in t\<lparr>tr_feed := feed, tr_pipeline := (tr_pipeline t)\<lparr>lp_sink := fr_sink feed\<rparr>\<rparr>)"

definition trader_pump_round :: "(string \<Rightarrow> usize) \<Rightarrow> ('n, 'st) Trader \<Rightarrow> ('n, 'st) Trader" where
  "trader_pump_round hash t = t\<lparr>tr_pipeline := fst (pump_ingest hash (tr_pipeline t) (tc_pump_batch_size (tr_config t)))\<rparr>"

definition trader_shard_round ::
    "('n, 'v) Platform \<Rightarrow> TimestampNs \<Rightarrow> (RoutedEvent \<Rightarrow> RoutedEvent) \<Rightarrow>
     ('st \<Rightarrow> NormalizedEvent \<Rightarrow> 'st \<times> (Thrown + OrderIntent list)) \<Rightarrow> usize \<Rightarrow> ('n, 'st) Trader \<Rightarrow> ('n, 'st) Trader" where
  "trader_shard_round pf now moved_from strategy i t =
     (let p = tr_pipeline t;
          c = shard_iteration moved_from (RoutedEventParser_parse (kalshi_parse (pf_simdjson pf)))
            (shard_event_handler_factory (tr_config t) (trader_strategy_ports pf now strategy) i)
            \<lparr> sc_shard = lp_shards p ! i, sc_dispatch = lp_dispatch p, sc_books = lp_books p ! i,
              sc_handler = (tr_runners t ! i)\<lparr>sr_sink := tr_intent_sink t\<rparr> \<rparr>
      in t\<lparr> tr_pipeline := p\<lparr> lp_shards := (lp_shards p)[i := sc_shard c], lp_dispatch := sc_dispatch c,
              lp_books := (lp_books p)[i := sc_books c] \<rparr>,
            tr_runners := (tr_runners t)[i := sc_handler c], tr_intent_sink := sr_sink (sc_handler c) \<rparr>)"

inductive trader_step ::
    "('n, 'v) Platform \<Rightarrow> (string \<Rightarrow> usize) \<Rightarrow> (RoutedEvent \<Rightarrow> RoutedEvent) \<Rightarrow>
     ('st \<Rightarrow> NormalizedEvent \<Rightarrow> 'st \<times> (Thrown + OrderIntent list)) \<Rightarrow> ('n, 'st) Trader \<Rightarrow> ('n, 'st) Trader \<Rightarrow> bool"
  for pf hash moved_from strategy where
  feed: "trader_step pf hash moved_from strategy t (trader_feed_round pf now_ms now_ns now t)"
| pump: "trader_step pf hash moved_from strategy t (trader_pump_round hash t)"
| shard: "i < length (lp_shards (tr_pipeline t)) \<Longrightarrow>
    trader_step pf hash moved_from strategy t (trader_shard_round pf now moved_from strategy i t)"
| oms: "tr_intent_sink t = Is_order_manager k \<Longrightarrow>
    om_step (trader_oms_ports pf) \<lparr> sy_manager = ois_order_manager k, sy_local = tr_oms_local t \<rparr> s \<Longrightarrow>
    trader_step pf hash moved_from strategy t (t\<lparr> tr_intent_sink := Is_order_manager (k\<lparr>ois_order_manager := sy_manager s\<rparr>),
      tr_oms_local := sy_local s \<rparr>)"

inductive_cases trader_stepE: "trader_step pf hash moved_from strategy t t'"

section \<open>Shutting down\<close>

definition handle_shutdown_signal :: "int \<Rightarrow> bool \<Rightarrow> bool" where
  "handle_shutdown_signal signal requested = (if signal = 2 \<or> signal = 15 then True else requested)"

definition intent_sink_stop :: "('n, 'v) Platform \<Rightarrow> 'n IntentSink \<Rightarrow> 'n IntentSink" where
  "intent_sink_stop pf k = (case k of
       Is_order_manager s \<Rightarrow> Is_order_manager (s\<lparr>ois_order_manager := om_stop (trader_oms_ports pf) (ois_order_manager s)\<rparr>)
     | Is_dropping n l \<Rightarrow> Is_dropping n l)"

definition trader_stop :: "('n, 'v) Platform \<Rightarrow> ('n, 'st) Trader \<Rightarrow> ('n, 'st) Trader" where
  "trader_stop pf t = t\<lparr>
     tr_feed := feed_stop (trader_feed_ports pf t 0 0) (tr_feed t),
     tr_pipeline := pipeline_stop (tr_pipeline t),
     tr_intent_sink := intent_sink_stop pf (tr_intent_sink t) \<rparr>"

definition trader_summary :: "('n, 'st) Trader \<Rightarrow> string" where
  "trader_summary t =
     (let ps = pipeline_stats (tr_pipeline t);
          number = (\<lambda>w :: u64. std_to_string (unat w));
          oms = (case tr_intent_sink t of Is_order_manager k \<Rightarrow> Some (om_stats (ois_order_manager k)) | Is_dropping _ _ \<Rightarrow> None);
          oms_count = (\<lambda>f. case oms of Some st \<Rightarrow> f st | None \<Rightarrow> 0)
      in ''frames_pumped='' @ number (lps_ingest_frames_pumped ps) @ '', routed='' @ number (lps_route_success ps) @
         '', route_drop='' @ number (lps_route_drop ps) @ '', sink_drop='' @ number (lps_ingest_sink_dropped ps) @
         '', shard_drop='' @ number (lps_shard_dispatch_dropped ps) @
         '', oms_submitted='' @ number (oms_count oms_submitted_count) @ '', oms_sent='' @ number (oms_count oms_sent_count) @
         '', oms_rejects='' @ number (oms_count (\<lambda>st. oms_risk_reject_count st + oms_portfolio_risk_reject_count st)) @
         '', ws_received='' @ number (fr_received_count (tr_feed t)) @ '', ws_dropped='' @ number (fr_dropped_count (tr_feed t)))"

section \<open>Facts about starting\<close>

primrec transport_connected :: "'n OmsTransport \<Rightarrow> bool" where
  "transport_connected (Ot_websocket w) = bt_connected w"
| "transport_connected (Ot_paper p) = pt_connected p"

text \<open>The transport the trader chooses inherits the contract from the two it chooses from.\<close>

interpretation oms: order_transport "oms_transport pf" transport_connected for pf
proof unfold_locales
  fix t t' :: "'a OmsTransport" and cfg ok payload and r :: "Thrown + bool" and message
  show "transport_connected t' = ok" if "ot_connect (oms_transport pf) t cfg = (t', ok)"
    using that beast.order.connect_connects [where net = "pf_net pf", OF prod.collapse [symmetric]] paper.connect_connects [OF prod.collapse [symmetric]]
    by (cases t) (auto simp: oms_transport_def on_left_def Let_def)
  show "\<not> transport_connected (ot_close (oms_transport pf) t)"
    by (cases t) (simp_all add: oms_transport_def Let_def beast.order.close_closes paper.close_closes)
  show "r = Inr False \<and> \<not> transport_connected t'" if "\<not> transport_connected t" "ot_send_text (oms_transport pf) t payload = (t', r)"
    using that beast.order.send_closed [where net = "pf_net pf", OF _ prod.collapse [symmetric]] paper.send_closed [OF _ prod.collapse [symmetric]]
    by (cases t) (auto simp: oms_transport_def on_left_def Let_def)
  show "message = None \<and> \<not> transport_connected t'" if "\<not> transport_connected t" "ot_recv_text (oms_transport pf) t = (t', message)"
    using that beast.order.recv_closed [where net = "pf_net pf", OF _ prod.collapse [symmetric]] paper.recv_closed [OF _ prod.collapse [symmetric]]
    by (cases t) (auto simp: oms_transport_def on_left_def Let_def)
qed

lemma new_pipeline_starts:
  fixes decode cfg
  defines "p \<equiv> LivePipeline_new decode cfg"
  obtains p' where "pipeline_start p = (p', True)" "lp_running p'" "lp_shards p' = map (fst \<circ> shard_start) (lp_shards p)"
    "lp_sink p' = lp_sink p" "lp_dispatch p' = lp_dispatch p" "lp_books p' = lp_books p" "lp_router p' = lp_router p"
    "pipeline_inv p \<Longrightarrow> pipeline_inv p'"
proof -
  have "\<not> lp_running p" "\<forall>s \<in> set (lp_shards p). \<not> sh_worker_joinable s"
    by (auto simp: p_def LivePipeline_new_def Shard_new_def Let_def)
  then show ?thesis by (intro that [of "fst (pipeline_start p)"])
    (auto simp: pipeline_start_def start_shards_spec pipeline_inv_def)
qed

definition started_trader ::
    "('n, 'v) Platform \<Rightarrow> TraderRuntimeConfig \<Rightarrow> Credentials \<Rightarrow> 'n TraderOms option \<Rightarrow> 'st \<Rightarrow> LivePipeline \<Rightarrow> ('n, 'st) Trader" where
  "started_trader pf cfg credentials order_manager strategy_init p = \<lparr> tr_config = cfg, tr_credentials = credentials,
     tr_intent_sink = intent_sink_of order_manager, tr_oms_local = [],
     tr_runners = replicate (strategy_shard_count cfg)
       (StrategyRunner_new strategy_init (intent_sink_of order_manager) (rc_shard (tc_risk cfg))),
     tr_pipeline = p,
     tr_feed = fst (feed_start (FeedRunner_new (beast_new (pf_net pf) (pf_new_network pf)) (lp_sink p) (kc_channels (tc_kalshi cfg)))) \<rparr>"

text \<open>The pipeline and the feed of a new trader always start.\<close>

lemma start_pipeline_started:
  "start_pipeline pf cfg credentials m st =
   Started (started_trader pf cfg credentials m st
     (fst (pipeline_start (LivePipeline_new (kalshi_extract (pf_simdjson pf)) (tc_pipeline cfg)))))"
  by (rule new_pipeline_starts [of "kalshi_extract (pf_simdjson pf)" "tc_pipeline cfg"])
    (simp add: start_pipeline_def start_feed_def started_trader_def feed_start_def FeedRunner_new_def)

lemma loaded_config_safe: "load_runtime_config pf argv = Inr cfg \<Longrightarrow> config_safe cfg"
  by (auto simp: load_runtime_config_def config_safe_default Let_def split: option.splits if_splits)
    (metis load_file_ok parse_from_json_ok)

lemma om_start_new:
  assumes "om_start ports (trader_order_manager cfg tr endpoint headers) = (m, started)"
  shows "om_config m = om_config (trader_order_manager cfg tr endpoint headers)" "om_sink m = PositionLedger_new"
    "om_running m = started" "om_worker_joinable m = started" "om_outbound_queue m = []"
    "om_transport m = fst (ot_connect (po_transport ports) tr \<lparr> otc_endpoint = endpoint, otc_headers = headers \<rparr>)"
    "started = snd (ot_connect (po_transport ports) tr \<lparr> otc_endpoint = endpoint, otc_headers = headers \<rparr>)"
    "oc_global_risk_config (om_core m) = rc_oms_global (tc_risk cfg)"
    "oc_portfolio_risk_config (om_core m) = rc_oms_portfolio (tc_risk cfg)"
  using assms
  by (auto simp: om_start_def trader_order_manager_def OrderManager_new_def OrderManagerCore_new_def core_reset_def Let_def
      split: if_splits)

lemma paper_always_connects: "snd (ot_connect (oms_transport pf) (Ot_paper p) config)"
  by (simp add: oms_transport_def on_left_def paper_transport_def paper_connect_def Let_def)


definition oms_as_configured :: "TraderRuntimeConfig \<Rightarrow> 'n IntentSink \<Rightarrow> bool" where
  "oms_as_configured cfg k = (case k of
       Is_dropping n l \<Rightarrow> tc_execution_mode cfg = Mode_kMarketDataOnly
     | Is_order_manager s \<Rightarrow> tc_execution_mode cfg \<noteq> Mode_kMarketDataOnly \<and> om_running (ois_order_manager s) \<and>
         om_worker_joinable (ois_order_manager s) \<and>
         oc_global_risk_config (om_core (ois_order_manager s)) = rc_oms_global (tc_risk cfg) \<and>
         oc_portfolio_risk_config (om_core (ois_order_manager s)) = rc_oms_portfolio (tc_risk cfg))"

definition intent_sink_connected :: "'n IntentSink \<Rightarrow> bool" where
  "intent_sink_connected k = (case k of
       Is_dropping n l \<Rightarrow> True
     | Is_order_manager s \<Rightarrow> transport_connected (om_transport (ois_order_manager s)))"

definition trader_ready :: "('n, 'v) Platform \<Rightarrow> string list \<Rightarrow> ('n, 'st) Trader \<Rightarrow> bool" where
  "trader_ready pf argv t \<longleftrightarrow> load_runtime_config pf argv = Inr (tr_config t) \<and> config_safe (tr_config t) \<and>
     resolve_credentials pf (tr_config t) = Some (tr_credentials t) \<and>
     lp_running (tr_pipeline t) \<and> list_all sh_running (lp_shards (tr_pipeline t)) \<and>
     length (lp_shards (tr_pipeline t)) = lpc_shard_count (tc_pipeline (tr_config t)) \<and>
     length (tr_runners t) = length (lp_shards (tr_pipeline t)) \<and>
     fr_running (tr_feed t) \<and> oms_as_configured (tr_config t) (tr_intent_sink t) \<and> intent_sink_connected (tr_intent_sink t)"

lemma started_trader_ready:
  assumes "load_runtime_config pf argv = Inr cfg" "resolve_credentials pf cfg = Some c"
    and "oms_as_configured cfg (intent_sink_of m)" "intent_sink_connected (intent_sink_of m)"
  shows "trader_ready pf argv (started_trader pf cfg c m st
     (fst (pipeline_start (LivePipeline_new (kalshi_extract (pf_simdjson pf)) (tc_pipeline cfg)))))"
proof (rule new_pipeline_starts [of "kalshi_extract (pf_simdjson pf)" "tc_pipeline cfg"])
  fix p assume p: "pipeline_start (LivePipeline_new (kalshi_extract (pf_simdjson pf)) (tc_pipeline cfg)) = (p, True)"
    "lp_running p" "lp_shards p = map (fst \<circ> shard_start) (lp_shards (LivePipeline_new (kalshi_extract (pf_simdjson pf)) (tc_pipeline cfg)))"
  have safe: "config_safe cfg" by (rule loaded_config_safe [OF assms(1)])
  then have n: "lpc_shard_count (tc_pipeline cfg) > 0" by (simp add: config_safe_def pipeline_safe_def)
  have len: "length (lp_shards p) = lpc_shard_count (tc_pipeline cfg)"
    using n by (simp add: p(3) LivePipeline_new_def Let_def sharded_shard_count_def sharded_new)
  have run: "list_all sh_running (lp_shards p)"
    by (auto simp: p(3) list_all_iff LivePipeline_new_def Shard_new_def shard_start_def Let_def)
  have feed: "fr_running (fst (feed_start (FeedRunner_new w k ch)))" for w k ch
    by (simp add: feed_start_def FeedRunner_new_def)
  show ?thesis
    using assms safe p(1,2) len run n feed
    by (simp add: trader_ready_def started_trader_def strategy_shard_count_def max_def)
qed

text \<open>The order manager of the configured mode: what building and starting it leads to.\<close>

lemma order_manager_startsE:
  assumes build: "build_order_manager pf now_ms cfg c = Inr (Some m)" and start: "om_start (trader_oms_ports pf) m = (m', started)"
  shows "tc_execution_mode cfg \<noteq> Mode_kMarketDataOnly" "om_running m' = started"
    "started \<Longrightarrow> oms_as_configured cfg (intent_sink_of (Some m'))"
    "\<not> started \<Longrightarrow> tc_execution_mode cfg = Mode_kLive"
    "started \<Longrightarrow> intent_sink_connected (intent_sink_of (Some m'))"
proof -
  obtain tr endpoint headers where m: "m = trader_order_manager cfg tr endpoint headers"
    and paper: "tc_execution_mode cfg \<noteq> Mode_kLive \<Longrightarrow> tr = Ot_paper (PaperOrderTransport_new True)"
    and mode: "tc_execution_mode cfg \<noteq> Mode_kMarketDataOnly"
    using build by (auto simp: build_order_manager_def split: TraderExecutionMode.splits sum.splits)
  note eff = om_start_new [OF start [unfolded m]]
  show "tc_execution_mode cfg \<noteq> Mode_kMarketDataOnly" "om_running m' = started"
    "started \<Longrightarrow> oms_as_configured cfg (intent_sink_of (Some m'))"
    using eff mode by (simp_all add: oms_as_configured_def intent_sink_of_def)
  show "tc_execution_mode cfg = Mode_kLive" if "\<not> started"
    using that eff(7) paper paper_always_connects [of pf] by (auto simp: trader_oms_ports_def)
  have "\<not> om_worker_joinable m" "po_transport (trader_oms_ports pf) = oms_transport pf"
    by (simp_all add: m trader_order_manager_def OrderManager_new_def trader_oms_ports_def)
  then show "started \<Longrightarrow> intent_sink_connected (intent_sink_of (Some m'))"
    using oms.start_connects [of "trader_oms_ports pf" pf, OF _ _ start] by (simp add: intent_sink_connected_def intent_sink_of_def)
qed

lemma trader_start_outcome:
  "case trader_start pf now_ms st argv of
     Exited code m \<Rightarrow>
       (code = kExitConfigLoadFailure \<and> m = None \<and> (\<exists>e. load_runtime_config pf argv = Inl e)) \<or>
       (\<exists>cfg. load_runtime_config pf argv = Inr cfg \<and>
         (code = kExitMissingCredentials \<and> m = None \<and> resolve_credentials pf cfg = None \<or>
          code = kExitOmsStartFailure \<and> tc_execution_mode cfg = Mode_kLive \<and> (\<exists>m'. m = Some m' \<and> \<not> om_running m')))
   | Uncaught e \<Rightarrow> (\<exists>cfg. load_runtime_config pf argv = Inr cfg \<and>
       (build_trader_startup_payload (pf_json pf) (tc_mode cfg) = Inl e \<or> tc_execution_mode cfg = Mode_kLive \<and>
          (\<exists>c. resolve_credentials pf cfg = Some c \<and>
            make_ws_headers (pf_read_file pf) (pf_sign pf) now_ms c kDefaultWsPath = Inl e)))
   | Started t \<Rightarrow> trader_ready pf argv t"
proof (cases "load_runtime_config pf argv")
  case (Inr cfg)
  note load = this
  show ?thesis
  proof (cases "build_trader_startup_payload (pf_json pf) (tc_mode cfg)"; cases "resolve_credentials pf cfg")
    fix startup c
    assume pre: "build_trader_startup_payload (pf_json pf) (tc_mode cfg) = Inr startup" "resolve_credentials pf cfg = Some c"
    consider e where "build_order_manager pf now_ms cfg c = Inl e" | "build_order_manager pf now_ms cfg c = Inr None"
      | m where "build_order_manager pf now_ms cfg c = Inr (Some m)" by (cases "build_order_manager pf now_ms cfg c") auto
    then show ?thesis
    proof cases
      case 1
      then show ?thesis
        using load pre by (auto simp: trader_start_def build_order_manager_def split: TraderExecutionMode.splits sum.splits)
    next
      case 2
      then have "oms_as_configured cfg (intent_sink_of None)"
        by (auto simp: oms_as_configured_def intent_sink_of_def build_order_manager_def split: TraderExecutionMode.splits sum.splits)
      moreover have "intent_sink_connected (intent_sink_of None)" by (simp add: intent_sink_connected_def intent_sink_of_def)
      ultimately show ?thesis
        using 2 load pre started_trader_ready [OF load pre(2)] by (simp add: trader_start_def start_pipeline_started)
    next
      case (3 m)
      obtain m' started where start: "om_start (trader_oms_ports pf) m = (m', started)" by fastforce
      note eff = order_manager_startsE [OF 3 start]
      show ?thesis
        using load pre 3 start eff started_trader_ready [OF load pre(2) eff(3,5)]
        by (cases started) (simp_all add: trader_start_def start_pipeline_started)
    qed
  qed (use load in \<open>auto simp: trader_start_def\<close>)
qed (simp add: trader_start_def)

text \<open>
  C22. The outcomes of a start. The trader exits with code 6 exactly when its configuration does not load, with
  code 3 when it loads but names no credentials, and with code 7 when the order transport does not
  connect, which happens in live mode only; the order manager is not running then. The
  exits 4 and 5 for a pipeline or a feed that does not start are unreachable. An exception ends the
  process only if the mode cannot be dumped as JSON or the signature fails in live mode. In every other case the trader runs
  with a safe configuration, every shard has a running worker and a strategy of its own, and the
  order manager is connected and runs with the configured limits, or is absent in market-data mode.
\<close>

theorem startup_outcomes:
  "case trader_start pf now_ms st argv of
     Exited code m \<Rightarrow>
       (code = kExitConfigLoadFailure \<and> m = None \<and> (\<exists>e. load_runtime_config pf argv = Inl e)) \<or>
       (\<exists>cfg. load_runtime_config pf argv = Inr cfg \<and>
         (code = kExitMissingCredentials \<and> m = None \<and> resolve_credentials pf cfg = None \<or>
          code = kExitOmsStartFailure \<and> tc_execution_mode cfg = Mode_kLive \<and> (\<exists>m'. m = Some m' \<and> \<not> om_running m')))
   | Uncaught e \<Rightarrow> (\<exists>cfg. load_runtime_config pf argv = Inr cfg \<and>
       (build_trader_startup_payload (pf_json pf) (tc_mode cfg) = Inl e \<or> tc_execution_mode cfg = Mode_kLive \<and>
          (\<exists>c. resolve_credentials pf cfg = Some c \<and>
            make_ws_headers (pf_read_file pf) (pf_sign pf) now_ms c kDefaultWsPath = Inl e)))
   | Started t \<Rightarrow> trader_ready pf argv t"
  by (rule trader_start_outcome)

section \<open>What every round keeps\<close>

lemma kalshi_updates_in_range:
  assumes "opr_value (kalshi_parse_update nl payload) = Some u"
  shows "update_in_range u"
proof -
  have int: "in_i64 n" if "try_get_int64 j k = Some n" for j k n
    using that by (auto simp: try_get_int64_def split: option.splits json.splits)
  have "update_in_range u" if "parse_fill nl r m raw = Some res" "opr_value res = Some u" for r m raw res
    using that int
    by (auto simp: parse_fill_def try_get_qty_def try_get_price_def update_in_range_def fill_in_range_def
        oms_parse_success_def oms_parse_failure_def split: option.splits)
  moreover have "update_in_range u" if "parse_ack nl r m raw = Some res" "opr_value res = Some u" for r m raw res
    using that by (auto simp: parse_ack_def update_in_range_def oms_parse_success_def oms_parse_failure_def split: option.splits)
  moreover have "update_in_range u" if "parse_reject nl r m raw = Some res" "opr_value res = Some u" for r m raw res
    using that by (auto simp: parse_reject_def update_in_range_def oms_parse_success_def oms_parse_failure_def Let_def split: option.splits)
  ultimately show ?thesis
    using assms by (auto simp: kalshi_parse_update_def oms_parse_failure_def Let_def split: option.splits if_splits)
qed

text \<open>What the steps of the order manager leave alone.\<close>

definition oms_frame :: "('t, 's) OrderManager \<Rightarrow> bool \<times> bool \<times> GlobalRiskConfig \<times> PortfolioRiskConfig" where
  "oms_frame m = (om_running m, om_worker_joinable m, oc_global_risk_config (om_core m), oc_portfolio_risk_config (om_core m))"

lemma om_step_running: "om_step ports s s' \<Longrightarrow> om_running (sy_manager s') = om_running (sy_manager s) \<and>
    om_worker_joinable (sy_manager s') = om_worker_joinable (sy_manager s)"
  by (induction rule: om_step.induct)
    (auto simp: om_submit_def process_intent_def reject_intent_def send_intent_def forward_update_def
      pump_incoming_update_def Let_def split: prod.splits option.splits sum.splits if_splits bool.splits)

lemma om_step_frame: "om_step ports s s' \<Longrightarrow> oms_frame (sy_manager s') = oms_frame (sy_manager s)"
  using om_step_running core_steps_configs [OF om_step_core] by (fastforce simp: oms_frame_def)

definition intent_sink_inv :: "TraderRuntimeConfig \<Rightarrow> PendingIntent list \<Rightarrow> 'n IntentSink \<Rightarrow> bool" where
  "intent_sink_inv cfg local_intents k \<longleftrightarrow> oms_as_configured cfg k \<and> ledger_inv (led_core (intent_sink_ledger k)) \<and>
     (case k of
        Is_order_manager s \<Rightarrow> intents_accounted \<lparr> sy_manager = ois_order_manager s, sy_local = local_intents \<rparr>
      | Is_dropping n l \<Rightarrow> l = PositionLedger_new)"

lemma om_step_sink_inv:
  assumes step: "om_step (trader_oms_ports pf) \<lparr> sy_manager = ois_order_manager k, sy_local = xs \<rparr> s"
    and inv: "intent_sink_inv cfg xs (Is_order_manager k)"
  shows "intent_sink_inv cfg (sy_local s) (Is_order_manager (k\<lparr>ois_order_manager := sy_manager s, ois_last_error := e\<rparr>))"
proof -
  have "ledger_inv (led_core (om_sink (sy_manager s)))"
    by (rule ledger_sink.om_step_sink [OF step])
      (use inv kalshi_updates_in_range in \<open>auto simp: trader_oms_ports_def intent_sink_inv_def kalshi_adapter_def\<close>)
  moreover have "intents_accounted \<lparr> sy_manager = sy_manager s, sy_local = sy_local s \<rparr>"
    using om_step_accounts [OF step] inv by (simp add: intents_accounted_def intent_sink_inv_def)
  ultimately show ?thesis
    using inv om_step_frame [OF step]
    by (simp add: intent_sink_inv_def oms_as_configured_def oms_frame_def)
qed

lemma submit_intent_inv:
  assumes "intent_sink_inv cfg xs k"
  shows "intent_sink_inv cfg xs (fst (trader_submit_intent pf now k i))"
proof (cases k)
  case (Is_order_manager s)
  let ?s = "\<lparr> sy_manager = ois_order_manager s, sy_local = xs \<rparr>"
  obtain m r where sub: "om_submit (trader_oms_ports pf) now (ois_order_manager s) i = (m, r)" by fastforce
  then have "om_step (trader_oms_ports pf) ?s (?s\<lparr>sy_manager := m\<rparr>)" by (intro om_step.submit [of _ now _ i]) simp
  from om_step_sink_inv [OF this] assms sub Is_order_manager show ?thesis
    by (cases r) (simp_all add: trader_submit_intent_def om_sink_submit_intent_def on_left_def)
next
  case (Is_dropping n l)
  with assms show ?thesis
    by (auto simp: trader_submit_intent_def on_left_def dropping_submit_intent_def intent_sink_inv_def oms_as_configured_def)
qed

text \<open>A handler only touches the intent sink by submitting to it.\<close>

context intent_sink
begin

lemma handler_ok:
  assumes "shard_event_handler_factory cfg ports i = Some handler" "sink_ok (sr_sink r)"
  shows "sink_ok (sr_sink (fst (handler r event)))"
  using assms runner_on_event_ok
  by (auto simp: shard_event_handler_factory_def strategy_handler_on_event_def market_filter_on_event_def Let_def
      split: if_splits)

end

interpretation trader_intents: intent_sink "trader_strategy_ports pf now strategy" "intent_sink_inv cfg local_intents"
  for pf now strategy cfg local_intents
  by unfold_locales (simp add: trader_strategy_ports_def submit_intent_inv)

lemma consume_event_handler:
  assumes "\<And>handler event. on_event = Some handler \<Longrightarrow> Q h \<Longrightarrow> Q (fst (handler h event))" "Q h"
    and "consume_event parse on_event e (st, books, h) = (st', books', h')"
  shows "Q h'"
  using assms by (auto simp: consume_event_def apply_parsed_def Let_def split: option.splits if_splits)

lemma shard_iteration_handler:
  assumes "\<And>handler event. on_event = Some handler \<Longrightarrow> Q (sc_handler c) \<Longrightarrow> Q (fst (handler (sc_handler c) event))" "Q (sc_handler c)"
  shows "Q (sc_handler (shard_iteration moved_from parse on_event c))"
  using consume_event_handler [of on_event Q "sc_handler c" parse _ "sh_stats (sc_shard c)" "sc_books c"] assms
  by (auto simp: shard_iteration_def split: prod.splits option.splits)

lemma feed_step_sink:
  "fr_sink (feed_step ports now r) = fr_sink r \<or> (\<exists>m. fr_sink (feed_step ports now r) = fst (fp_push_message ports (fr_sink r) m))"
  by (auto simp: feed_step_def connect_and_subscribe_def feed_receive_def
      split: FeedLoop.split prod.splits bool.splits option.splits) (metis fst_conv)+

definition trader_inv :: "('n, 'st) Trader \<Rightarrow> bool" where
  "trader_inv t \<longleftrightarrow> pipeline_inv (tr_pipeline t) \<and> intent_sink_inv (tr_config t) (tr_oms_local t) (tr_intent_sink t) \<and>
     lp_running (tr_pipeline t) \<and> fr_worker_joinable (tr_feed t) \<and> list_all sh_worker_joinable (lp_shards (tr_pipeline t))"

lemma pump_running:
  assumes "pump_ingest hash p n = (p', popped)"
  shows "lp_running p' = lp_running p" "lp_shards p' = lp_shards p"
  using assms by (auto simp: pump_ingest_def Let_def split: if_splits)

lemma shard_round_inv:
  assumes "trader_inv t" "i < length (lp_shards (tr_pipeline t))"
  shows "trader_inv (trader_shard_round pf now moved_from strategy i t)"
proof -
  let ?ports = "trader_strategy_ports pf now strategy"
  let ?P = "intent_sink_inv (tr_config t) (tr_oms_local t)"
  let ?p = "tr_pipeline t" and ?f = "shard_event_handler_factory (tr_config t) ?ports i"
  let ?parse = "RoutedEventParser_parse (kalshi_parse (pf_simdjson pf))"
  let ?c = "\<lparr> sc_shard = lp_shards ?p ! i, sc_dispatch = lp_dispatch ?p, sc_books = lp_books ?p ! i,
      sc_handler = (tr_runners t ! i)\<lparr>sr_sink := tr_intent_sink t\<rparr> \<rparr>"
  let ?c' = "shard_iteration moved_from ?parse ?f ?c"
  have P: "?P (tr_intent_sink t)" using assms(1) by (simp add: trader_inv_def)
  have sink: "?P (sr_sink (sc_handler ?c'))"
    by (rule shard_iteration_handler [where Q = "\<lambda>h. ?P (sr_sink h)"]) (simp_all add: P trader_intents.handler_ok)
  have "sh_worker_joinable (sc_shard ?c') = sh_worker_joinable (lp_shards ?p ! i)"
    by (auto simp: shard_iteration_def split: prod.split option.split)
  then show ?thesis
    using assms sink
    by (simp add: trader_inv_def trader_shard_round_def pipeline_inv_def Let_def list_all_length nth_list_update)
qed

lemma feed_round_inv:
  assumes "trader_inv t"
  shows "trader_inv (trader_feed_round pf now_ms now_ns now t)"
proof -
  let ?r = "(tr_feed t)\<lparr>fr_sink := lp_sink (tr_pipeline t)\<rparr>" and ?ports = "trader_feed_ports pf t now_ns now"
  let ?f = "feed_step ?ports now_ms ?r"
  have inv: "pipeline_inv (tr_pipeline t)" using assms by (simp add: trader_inv_def)
  have push: "pipeline_inv ((tr_pipeline t)\<lparr>lp_sink := fst (sink_push_message (lp_sink (tr_pipeline t)) now_ns now m)\<rparr>)" for m
    by (rule pipeline_step_inv [OF pipeline_step.deliver [OF prod.collapse [symmetric]] inv])
  have "pipeline_inv ((tr_pipeline t)\<lparr>lp_sink := fr_sink ?f\<rparr>)"
    using feed_step_sink [of ?ports now_ms ?r] push inv by (auto simp: trader_feed_ports_def)
  moreover have "fr_worker_joinable ?f = fr_worker_joinable (tr_feed t)"
    by (auto simp: feed_step_def connect_and_subscribe_def feed_receive_def
        split: FeedLoop.split prod.splits bool.splits option.splits)
  ultimately show ?thesis using assms by (simp add: trader_inv_def trader_feed_round_def Let_def)
qed

lemma trader_step_inv: "trader_step pf hash moved_from strategy t t' \<Longrightarrow> trader_inv t \<Longrightarrow> trader_inv t'"
proof (induction rule: trader_step.induct)
  case (pump t)
  obtain p' popped where pump: "pump_ingest hash (tr_pipeline t) (tc_pump_batch_size (tr_config t)) = (p', popped)"
    by fastforce
  from pump.prems pipeline_step_inv [OF pipeline_step.pump [OF pump]] pump_running [OF pump] show ?case
    by (simp add: trader_inv_def trader_pump_round_def pump)
next
  case (oms t k s)
  from om_step_sink_inv [OF oms(2), of "tr_config t" "ois_last_error k"] oms(1,3) show ?case
    by (simp add: trader_inv_def)
qed (simp_all add: shard_round_inv feed_round_inv)

lemma trader_step_config: "trader_step pf hash moved_from strategy t t' \<Longrightarrow> tr_config t' = tr_config t"
  by (erule trader_stepE)
    (simp_all add: trader_feed_round_def trader_pump_round_def trader_shard_round_def Let_def)

lemma trader_steps_inv:
  "(trader_step pf hash moved_from strategy)\<^sup>*\<^sup>* t t' \<Longrightarrow> trader_inv t \<Longrightarrow> trader_inv t' \<and> tr_config t' = tr_config t"
  by (induction rule: rtranclp_induct) (auto simp: trader_step_config intro: trader_step_inv)

text \<open>An order manager as it leaves its start: no orders, no intents, an empty ledger.\<close>

definition fresh_oms :: "'n TraderOms \<Rightarrow> bool" where
  "fresh_oms m \<longleftrightarrow> om_sink m = PositionLedger_new \<and> om_outbound_queue m = [] \<and> oc_in_flight_orders (om_core m) = [] \<and>
     oc_exchange_to_client (om_core m) = [] \<and> intents_accounted \<lparr> sy_manager = m, sy_local = [] \<rparr>"

lemma trader_startE:
  assumes "trader_start pf now_ms st argv = Started t"
  obtains cfg c m where "t = started_trader pf cfg c m st
      (fst (pipeline_start (LivePipeline_new (kalshi_extract (pf_simdjson pf)) (tc_pipeline cfg))))"
    "load_runtime_config pf argv = Inr cfg" "oms_as_configured cfg (intent_sink_of m)"
    "\<And>m'. m = Some m' \<Longrightarrow> fresh_oms m'"
proof -
  obtain cfg c om where pre: "load_runtime_config pf argv = Inr cfg" "build_order_manager pf now_ms cfg c = Inr om"
    and t: "case om of None \<Rightarrow> start_pipeline pf cfg c None st = Started t
      | Some m \<Rightarrow> (case om_start (trader_oms_ports pf) m of (m, False) \<Rightarrow> False
          | (m, True) \<Rightarrow> start_pipeline pf cfg c (Some m) st = Started t)"
    using assms by (auto simp: trader_start_def split: sum.splits option.splits prod.splits bool.splits)
  show ?thesis
  proof (cases om)
    case None
    then have "oms_as_configured cfg (intent_sink_of None)"
      using pre(2) by (auto simp: build_order_manager_def oms_as_configured_def intent_sink_of_def
          split: TraderExecutionMode.splits sum.splits)
    with None t pre show ?thesis by (intro that [of cfg c None]) (simp_all add: start_pipeline_started)
  next
    case (Some m)
    then obtain m' where start: "om_start (trader_oms_ports pf) m = (m', True)"
      and t': "start_pipeline pf cfg c (Some m') st = Started t"
      using t by (auto split: prod.splits bool.splits)
    have "om_sink m = PositionLedger_new" "om_outbound_queue m = []"
      using pre(2) Some by (auto simp: build_order_manager_def trader_order_manager_def OrderManager_new_def
          split: TraderExecutionMode.splits sum.splits)
    then have "fresh_oms m'"
      using start by (auto simp: fresh_oms_def om_start_def Let_def intents_accounted_def finished_intents_def core_reset_def split: if_splits)
    with t' pre order_manager_startsE(3) [OF pre(2) [unfolded Some] start] show ?thesis
      by (intro that [of cfg c "Some m'"]) (simp_all add: start_pipeline_started)
  qed
qed

lemma started_trader_inv:
  assumes "trader_start pf now_ms st argv = Started t" "lpc_frame_pool_capacity (tc_pipeline (tr_config t)) < 2 ^ 32"
  shows "trader_inv t"
proof (rule trader_startE [OF assms(1)])
  fix cfg :: TraderRuntimeConfig and c m
  let ?p = "LivePipeline_new (kalshi_extract (pf_simdjson pf)) (tc_pipeline cfg)"
  assume t: "t = started_trader pf cfg c m st (fst (pipeline_start ?p))" and conf: "oms_as_configured cfg (intent_sink_of m)"
    and om: "\<And>m'. m = Some m' \<Longrightarrow> fresh_oms m'"
  have "pipeline_inv ?p" by (rule pipeline_new_inv) (use assms(2) t in \<open>simp add: started_trader_def\<close>)
  then have "pipeline_inv (fst (pipeline_start ?p)) \<and> lp_running (fst (pipeline_start ?p)) \<and>
      list_all sh_worker_joinable (lp_shards (fst (pipeline_start ?p)))"
    by (rule_tac new_pipeline_starts [of "kalshi_extract (pf_simdjson pf)" "tc_pipeline cfg"])
      (auto simp: list_all_iff shard_start_def)
  moreover have "intent_sink_inv cfg [] (intent_sink_of m)"
    using conf om by (cases m) (auto simp: fresh_oms_def intent_sink_inv_def intent_sink_of_def PositionLedger_new_def)
  ultimately show ?thesis
    by (simp add: trader_inv_def t started_trader_def feed_start_def FeedRunner_new_def)
qed


lemma shutdown_parts:
  assumes "trader_start pf now_ms st argv = Started t0"
    and "lpc_frame_pool_capacity (tc_pipeline (tr_config t0)) < 2 ^ 32"
    and "(trader_step pf hash moved_from strategy)\<^sup>*\<^sup>* t0 t" and "t' = trader_stop pf t"
  shows "\<not> fr_running (tr_feed t')" and "\<not> bt_connected (se_transport (fr_session (tr_feed t')))"
    and "\<not> lp_running (tr_pipeline t')"
    and "list_all (\<lambda>s. \<not> sh_running s \<and> \<not> sh_worker_joinable s) (lp_shards (tr_pipeline t'))"
    and "case tr_intent_sink t' of
        Is_dropping n l \<Rightarrow> True
      | Is_order_manager k \<Rightarrow> \<not> om_running (ois_order_manager k) \<and> \<not> transport_connected (om_transport (ois_order_manager k)) \<and>
          (\<forall>i. om_sent_count (send_intent (trader_oms_ports pf) i (ois_order_manager k)) = om_sent_count (ois_order_manager k))"
    and "lp_books (tr_pipeline t') = lp_books (tr_pipeline t)"
    and "intent_sink_ledger (tr_intent_sink t') = intent_sink_ledger (tr_intent_sink t)"
proof -
  have inv: "trader_inv t" using trader_steps_inv [OF assms(3) started_trader_inv [OF assms(1,2)]] by simp
  show "\<not> fr_running (tr_feed t')" "\<not> lp_running (tr_pipeline t')" "lp_books (tr_pipeline t') = lp_books (tr_pipeline t)"
    by (simp_all add: assms(4) trader_stop_def feed_stop_def pipeline_stop_def)
  show "\<not> bt_connected (se_transport (fr_session (tr_feed t')))"
    using inv beast.feed_stop_disconnects [of "trader_feed_ports pf t 0 0" "pf_net pf" "tr_feed t"]
    by (simp add: assms(4) trader_inv_def trader_stop_def trader_feed_ports_def)
  show "list_all (\<lambda>s. \<not> sh_running s \<and> \<not> sh_worker_joinable s) (lp_shards (tr_pipeline t'))"
    using inv by (simp add: assms(4) trader_inv_def trader_stop_def pipeline_stop_def shard_stop_def list_all_iff)
  show "case tr_intent_sink t' of Is_dropping n l \<Rightarrow> True
      | Is_order_manager k \<Rightarrow> \<not> om_running (ois_order_manager k) \<and> \<not> transport_connected (om_transport (ois_order_manager k)) \<and>
          (\<forall>i. om_sent_count (send_intent (trader_oms_ports pf) i (ois_order_manager k)) = om_sent_count (ois_order_manager k))"
  proof (cases "tr_intent_sink t")
    case (Is_order_manager k)
    let ?m = "om_stop (trader_oms_ports pf) (ois_order_manager k)"
    have ports: "po_transport (trader_oms_ports pf) = oms_transport pf" by (simp add: trader_oms_ports_def)
    have "om_worker_joinable (ois_order_manager k)"
      using inv Is_order_manager by (simp add: trader_inv_def intent_sink_inv_def oms_as_configured_def)
    then have "\<not> transport_connected (om_transport ?m)" by (rule oms.stop_disconnects [OF ports])
    with oms.closed_sends_nothing(1) [OF ports this] show ?thesis
      by (simp add: assms(4) trader_stop_def intent_sink_stop_def Is_order_manager) (simp add: om_stop_def)
  qed (simp add: assms(4) trader_stop_def intent_sink_stop_def)
  show "intent_sink_ledger (tr_intent_sink t') = intent_sink_ledger (tr_intent_sink t)"
    by (cases "tr_intent_sink t") (simp_all add: assms(4) trader_stop_def intent_sink_stop_def om_stop_def)
qed


section \<open>A trader in paper mode\<close>

text \<open>In paper mode the trader starts whenever its configuration loads and names credentials.\<close>

definition paper_oms :: "('n, 'v) Platform \<Rightarrow> TraderRuntimeConfig \<Rightarrow> 'n TraderOms" where
  "paper_oms pf cfg = fst (om_start (trader_oms_ports pf)
     (trader_order_manager cfg (Ot_paper (PaperOrderTransport_new True)) ''paper://oms'' []))"

lemma paper_oms_started:
  "om_start (trader_oms_ports pf) (trader_order_manager cfg (Ot_paper (PaperOrderTransport_new True)) ''paper://oms'' [])
   = (paper_oms pf cfg, True)"
  by (simp add: paper_oms_def om_start_def trader_order_manager_def OrderManager_new_def trader_oms_ports_def
      oms_transport_def on_left_def paper_transport_def paper_connect_def Let_def)

lemma paper_trader_starts:
  assumes "load_runtime_config pf argv = Inr cfg" "tc_execution_mode cfg = Mode_kPaper" "resolve_credentials pf cfg = Some c"
    and "build_trader_startup_payload (pf_json pf) (tc_mode cfg) = Inr payload"
  shows "trader_start pf now_ms st argv = Started (started_trader pf cfg c (Some (paper_oms pf cfg)) st
    (fst (pipeline_start (LivePipeline_new (kalshi_extract (pf_simdjson pf)) (tc_pipeline cfg)))))"
  using assms by (simp add: trader_start_def build_order_manager_def paper_oms_started start_pipeline_started)

definition example_mode_json :: json where
  "example_mode_json = json_obj [(''runtime'', json_obj [(''execution_mode'', Json_string (execution_mode_name Mode_kPaper))])]"

definition example_platform :: "(nat, json) Platform" where
  "example_platform = \<lparr> pf_getenv = (\<lambda>name. Some ''trader.json''), pf_read_file = (\<lambda>path. Some ''{}''),
     pf_sign = (\<lambda>key payload. Inr ''signature''), pf_json = (config_nl example_mode_json)\<lparr>nl_dump := (\<lambda>j. Inr ''{}'')\<rparr>,
     pf_simdjson = example_reader, pf_net = example_net, pf_new_network = 0 \<rparr>"

definition example_trader :: "(nat, unit) Trader" where
  "example_trader = (let cfg = TraderRuntimeConfig_default\<lparr>tc_execution_mode := Mode_kPaper\<rparr> in
     started_trader example_platform cfg \<lparr> cd_key_id = ''trader.json'', cd_private_key_pem = ''trader.json'' \<rparr> (Some (paper_oms example_platform cfg)) ()
       (fst (pipeline_start (LivePipeline_new (kalshi_extract example_reader) (tc_pipeline cfg)))))"

lemma example_trader_config: "tr_config example_trader = TraderRuntimeConfig_default\<lparr>tc_execution_mode := Mode_kPaper\<rparr>"
  by (simp add: example_trader_def started_trader_def Let_def)

lemma example_pool_size: "lpc_frame_pool_capacity (tc_pipeline (tr_config example_trader)) < 2 ^ 32"
  by (simp add: example_trader_config TraderRuntimeConfig_default_def LivePipelineConfig_default_def)

lemma example_load:
  "load_runtime_config example_platform [] = Inr (TraderRuntimeConfig_default\<lparr>tc_execution_mode := Mode_kPaper\<rparr>)"
  using mode_only_config [of Mode_kPaper, folded example_mode_json_def]
  by (simp add: load_runtime_config_def resolve_config_path_def get_env_def example_platform_def config_nl_def
      load_trader_config_from_file_def load_trader_config_from_json_def Let_def)

lemma example_trader_started: "trader_start example_platform 0 () [] = Started example_trader"
proof -
  let ?cfg = "TraderRuntimeConfig_default\<lparr>tc_execution_mode := Mode_kPaper\<rparr>"
  have c: "resolve_credentials example_platform ?cfg = Some \<lparr> cd_key_id = ''trader.json'', cd_private_key_pem = ''trader.json'' \<rparr>"
    by (simp add: resolve_credentials_def get_env_def example_platform_def TraderRuntimeConfig_default_def)
  have p: "build_trader_startup_payload (pf_json example_platform) (tc_mode ?cfg) = Inr ''{}''"
    by (simp add: build_trader_startup_payload_def build_heartbeat_json_def dump_message_def example_platform_def)
  have sj: "pf_simdjson example_platform = example_reader" by (simp add: example_platform_def)
  show ?thesis by (simp add: paper_trader_starts [OF example_load _ c p] example_trader_def sj Let_def)
qed

lemma example_trader_runs:
  "(trader_step example_platform length (\<lambda>e. e) noop_strategy)\<^sup>*\<^sup>* example_trader (trader_pump_round length example_trader)"
  by (rule r_into_rtranclp) (rule trader_step.pump)



end
