(* ===== verification/Trader_Process.thy ===== *)
theory Trader_Process
  imports Trader_App
begin

text \<open>
  The two executables as processes: \<open>main\<close> of \<open>apps/trader/main.cpp\<close> from its arguments to its exit code, with
  everything it logs, and \<open>apps/logger/main.cpp\<close>. A log is the list of the messages handed to spdlog by
  \<open>adapters/logging/logger.cpp\<close>; what spdlog puts in front of them is not modelled. An
  exception that leaves \<open>main\<close> aborts the process.
\<close>

section \<open>The log\<close>

definition log_startup :: "string \<Rightarrow> string \<Rightarrow> string" where
  "log_startup component payload = component @ '' startup payload: '' @ payload"

datatype ProcessEnd = Exit_code int | Aborted Thrown

definition logger_main :: "Nlohmann \<Rightarrow> string list \<times> ProcessEnd" where
  "logger_main nl = (case build_logger_startup_payload nl ''dev'' of
       Inl e \<Rightarrow> ([], Aborted e)
     | Inr startup \<Rightarrow> ([log_startup ''logger'' startup], Exit_code 0))"

text \<open>What is logged about the configuration, before an exit, and once everything runs.\<close>

definition config_log :: "('n, 'v) Platform \<Rightarrow> string list \<Rightarrow> string list" where
  "config_log pf argv = (case resolve_config_path pf argv of
       None \<Rightarrow> []
     | Some path \<Rightarrow> (case load_runtime_config pf argv of
           Inl e \<Rightarrow> [log_startup ''trader.config.error'' e]
         | Inr cfg \<Rightarrow> [log_startup ''trader.config'' (''loaded config file: '' @ path)]))"

definition exit_log :: "int \<Rightarrow> 'n TraderOms option \<Rightarrow> string list" where
  "exit_log code m =
     (if code = kExitMissingCredentials then [log_startup ''trader'' ''missing Kalshi credentials (inline or env)'']
      else if code = kExitOmsStartFailure then [log_startup ''trader.error'' (''failed to start order manager: '' @
        (case m of Some m \<Rightarrow> om_last_error m | None \<Rightarrow> ''''))]
      else if code = kExitPipelineStartFailure then [log_startup ''trader.error'' ''failed to start pipeline'']
      else if code = kExitFeedRunnerStartFailure then [log_startup ''trader.error'' ''failed to start ws feed runner'']
      else [])"

definition running_log :: "('n, 'v) Platform \<Rightarrow> TraderRuntimeConfig \<Rightarrow> string list" where
  "running_log pf cfg = (case build_trader_startup_payload (pf_json pf) (tc_mode cfg) of
       Inl e \<Rightarrow> []
     | Inr startup \<Rightarrow> [log_startup ''trader'' startup,
         log_startup ''trader.execution_mode'' (execution_mode_name (tc_execution_mode cfg))])"

section \<open>The trader from start to exit\<close>

text \<open>
  A run of the process: it exits or aborts while starting, or it runs any number of rounds of its threads until
  a signal sets the shutdown flag, stops everything and logs its summary.
\<close>

inductive trader_main ::
    "('n, 'v) Platform \<Rightarrow> (string \<Rightarrow> usize) \<Rightarrow> (RoutedEvent \<Rightarrow> RoutedEvent) \<Rightarrow>
     ('st \<Rightarrow> NormalizedEvent \<Rightarrow> 'st \<times> (Thrown + OrderIntent list)) \<Rightarrow> 'st \<Rightarrow> string list \<Rightarrow> string list \<Rightarrow> ProcessEnd \<Rightarrow> bool"
  for pf hash moved_from strategy st argv where
  exits: "trader_start pf now_ms st argv = Exited code m \<Longrightarrow>
    trader_main pf hash moved_from strategy st argv (config_log pf argv @ exit_log code m) (Exit_code code)"
| aborts: "trader_start pf now_ms st argv = Uncaught e \<Longrightarrow>
    trader_main pf hash moved_from strategy st argv (config_log pf argv) (Aborted e)"
| finishes: "trader_start pf now_ms st argv = Started t0 \<Longrightarrow> (trader_step pf hash moved_from strategy)\<^sup>*\<^sup>* t0 t \<Longrightarrow>
    handle_shutdown_signal signal False \<Longrightarrow>
    trader_main pf hash moved_from strategy st argv
      (config_log pf argv @ running_log pf (tr_config t0) @ [log_startup ''trader.pipeline'' (trader_summary (trader_stop pf t))])
      (Exit_code 0)"

lemmas exit_codes = kExitMissingCredentials_def kExitPipelineStartFailure_def kExitFeedRunnerStartFailure_def
  kExitConfigLoadFailure_def kExitOmsStartFailure_def

lemma load_fails_with_path:
  "load_runtime_config pf argv = Inl e \<Longrightarrow> config_log pf argv = [log_startup ''trader.config.error'' e]"
  by (auto simp: config_log_def load_runtime_config_def split: option.splits)

lemma started_payload:
  assumes "trader_start pf now_ms st argv = Started t"
  obtains startup where "build_trader_startup_payload (pf_json pf) (tc_mode (tr_config t)) = Inr startup"
proof -
  have load: "load_runtime_config pf argv = Inr (tr_config t)"
    using trader_start_outcome [where pf = pf and now_ms = now_ms and st = st and argv = argv] assms by (simp add: trader_ready_def)
  then have "\<exists>startup. build_trader_startup_payload (pf_json pf) (tc_mode (tr_config t)) = Inr startup"
    using assms by (cases "build_trader_startup_payload (pf_json pf) (tc_mode (tr_config t))") (auto simp: trader_start_def)
  then show ?thesis using that by blast
qed



text \<open>The logger logs its heartbeat, or aborts when it cannot be dumped.\<close>

lemma logger_outcome:
  "logger_main nl = (msgs, Exit_code code) \<Longrightarrow> code = 0 \<and> (\<exists>startup. dump_message nl (heartbeat_json ''dev'') = Inr startup \<and>
     msgs = [log_startup ''logger'' startup])"
  by (auto simp: logger_main_def build_logger_startup_payload_def build_heartbeat_json_def split: sum.splits)

end
