(* ===== verification/Order_Exposure.thy ===== *)
theory Order_Exposure
  imports Order_Manager
begin

text \<open>
  What the order manager of \<open>oms/order_manager.cpp\<close> and its global gate promise over whole runs: an
  order counts against the limits from the moment its request leaves the worker until it is
  final, and however submissions, gates, sends and exchange updates interleave, the orders
  that are live in this sense stay within the configured number and quantity.
\<close>

section \<open>Live orders\<close>

text \<open>
  An intent waits in the outbound queue or in the worker's local deque. The order it creates is
  tracked from its submission, but the exchange cannot know it while the intent waits: the
  live orders are the tracked ones that are neither waiting nor final.
\<close>

definition waiting_intents :: "('t, 's) OmsSystem \<Rightarrow> OrderIntent list" where
  "waiting_intents s = map pi_intent (sy_local s @ om_outbound_queue (sy_manager s))"

definition waiting_ids :: "('t, 's) OmsSystem \<Rightarrow> ClientOrderId list" where
  "waiting_ids s = map oi_client_order_id (filter order_creating (waiting_intents s))"

definition live_orders :: "('t, 's) OmsSystem \<Rightarrow> (ClientOrderId \<times> InFlightOrder) list" where
  "live_orders s = filter (\<lambda>e. fst e \<notin> set (waiting_ids s)) (active_orders (om_core (sy_manager s)))"

definition total_requested :: "OrderManagerCore \<Rightarrow> int" where
  "total_requested c = sum_list (map (\<lambda>e. max 0 (ord_requested_qty_lots (snd e))) (oc_in_flight_orders c))"

section \<open>Sums over association lists\<close>

text \<open>With distinct keys, a sum over the entries is a sum over the keys.\<close>

lemma sum_entries:
  fixes g :: "'k \<times> 'v \<Rightarrow> 'b :: comm_monoid_add"
  assumes "distinct (map fst xs)"
  shows "sum_list (map g (filter P xs)) = (\<Sum>k | \<exists>v. map_of xs k = Some v \<and> P (k, v). g (k, the (map_of xs k)))"
proof -
  have d: "distinct (filter P xs)" using assms by (simp add: distinct_map)
  have "sum_list (map g (filter P xs)) = sum g (set (filter P xs))"
    by (rule sum_list_distinct_conv_sum_set [OF d])
  also have "\<dots> = (\<Sum>k | \<exists>v. map_of xs k = Some v \<and> P (k, v). g (k, the (map_of xs k)))"
    by (rule sum.reindex_bij_witness [where i = "\<lambda>k. (k, the (map_of xs k))" and j = fst])
      (use assms in \<open>auto dest: map_of_SomeD\<close>)
  finally show ?thesis .
qed

lemma finite_entries: "finite {k. \<exists>v. map_of xs k = Some v \<and> P (k, v)}"
  by (rule finite_subset [OF _ finite_dom_map_of]) (auto simp: dom_def)

lemma length_entries:
  assumes "distinct (map fst xs)"
  shows "length (filter P xs) = card {k. \<exists>v. map_of xs k = Some v \<and> P (k, v)}"
  using sum_entries [OF assms, of "\<lambda>_. 1 :: nat" P] by (simp add: sum_list_triv)

definition live_keys :: "('t, 's) OmsSystem \<Rightarrow> ClientOrderId set" where
  "live_keys s = {k. k \<notin> set (waiting_ids s) \<and>
     (\<exists>ord. tracked (om_core (sy_manager s)) k = Some ord \<and> \<not> is_terminal_state (ord_status ord))}"

abbreviation order_of :: "('t, 's) OmsSystem \<Rightarrow> ClientOrderId \<Rightarrow> InFlightOrder" where
  "order_of s k \<equiv> the (tracked (om_core (sy_manager s)) k)"

lemma live_orders_keys:
  assumes "core_inv (om_core (sy_manager s))"
  shows "finite (live_keys s)" and "length (live_orders s) = card (live_keys s)"
    and "total_outstanding (live_orders s) = (\<Sum>k \<in> live_keys s. outstanding_qty (order_of s k))"
proof -
  let ?xs = "oc_in_flight_orders (om_core (sy_manager s))"
  let ?P = "\<lambda>e. \<not> is_terminal_state (ord_status (snd e)) \<and> fst e \<notin> set (waiting_ids s)"
  have keys: "live_keys s = {k. \<exists>v. map_of ?xs k = Some v \<and> ?P (k, v)}"
    by (auto simp: live_keys_def)
  have live: "live_orders s = filter ?P ?xs" by (simp add: live_orders_def active_orders_def conj_commute)
  note d = core_invD(1) [OF assms]
  show "finite (live_keys s)" unfolding keys by (rule finite_entries)
  show "length (live_orders s) = card (live_keys s)" unfolding keys live by (rule length_entries [OF d])
  show "total_outstanding (live_orders s) = (\<Sum>k \<in> live_keys s. outstanding_qty (order_of s k))"
    unfolding keys live total_outstanding_def using sum_entries [OF d, of "outstanding_qty \<circ> snd" ?P] by simp
qed

lemma total_requested_keys:
  assumes "core_inv c"
  shows "total_requested c = (\<Sum>k \<in> dom (tracked c). max 0 (ord_requested_qty_lots (the (tracked c k))))"
  using sum_entries [OF core_invD(1) [OF assms], of "\<lambda>e. max 0 (ord_requested_qty_lots (snd e))" "\<lambda>_. True"]
  by (simp add: total_requested_def dom_def)

section \<open>What a step does to the live orders\<close>

lemma reject_final:
  assumes "apply_update_transition now c u = (c', u', r)"
    and "ou_status u = St_kRejected" "ou_exchange_order_id u = None"
    and "tracked c' (ou_client_order_id u) = Some ord"
  shows "is_terminal_state (ord_status ord)"
proof (cases "tracked c (ou_client_order_id u)")
  case None
  then have "find_order c u = None" using assms(3) by (simp add: find_order_def)
  with assms None show ?thesis by (auto simp: apply_update_transition_def)
next
  case (Some ord0)
  then have f: "find_order c u = Some (ou_client_order_id u, ord0)" by (simp add: find_order_def)
  show ?thesis
  proof (cases "is_terminal_state (ord_status ord0)")
    case True
    with update_evolves [OF assms(1) Some] assms(4) show ?thesis
      by (auto simp: order_evolves_def terminal_final)
  next
    case False
    then have "can_transition (ord_status ord0) If_kRejected"
      by (cases "ord_status ord0") (simp_all add: can_transition_def)
    with f assms show ?thesis
      by (cases "transition_order now If_kRejected ord0 u")
        (auto simp: apply_update_transition_def Let_def dest: arg_cong [where f = "ord_status \<circ> fst"])
  qed
qed

lemma update_keeps_keys:
  assumes "apply_update_transition now c u = (c', u', r)" "tracked c' k = Some ord'" "\<not> is_terminal_state (ord_status ord')"
  shows "\<exists>ord. tracked c k = Some ord \<and> \<not> is_terminal_state (ord_status ord)"
  using assms(1)
proof (cases rule: apply_updateE)
  case rejected
  with assms(2,3) show ?thesis by simp
next
  case (applied k' ord nxt)
  then show ?thesis
    using assms(2,3) find_order_tracked [OF applied(2)]
    by (cases "k = k'") (auto simp: terminal_final)
qed

text \<open>
  A rejected intent leaves its order final; an intent the gates let through leaves the core as it
  was. Only intents that create orders can be rejected.
\<close>

lemma process_intent_verdict:
  fixes m :: "('t, 's) OrderManager" and ports :: "('t, 's) OmsPorts" and now :: TimestampNs and pending :: PendingIntent
  assumes k: "k = oi_client_order_id (pi_intent pending)"
  defines "m' \<equiv> process_intent ports now pending m"
  obtains (rejected) c u where "order_creating (pi_intent pending)" "oc_in_flight_orders c = oc_in_flight_orders (om_core m)"
      "apply_update_transition now c u = (om_core m', snd (apply_update_transition now c u))"
      "ou_status u = St_kRejected" "ou_exchange_order_id u = None" "ou_client_order_id u = k"
    | (passed) "snd (evaluate_global_risk (om_core m) (pi_intent pending)) = None"
      "portfolio_check ports m (pi_intent pending) = None" "om_core m' = om_core m"
proof (rule process_intentE [of m pending ports now])
  fix decision core
  let ?i = "pi_intent pending" and ?u = "make_global_risk_reject_update now (pi_intent pending) decision"
  assume eval: "evaluate_global_risk (om_core m) ?i = (core, Some decision)"
    and proc: "process_intent ports now pending m = reject_intent ports now ?u (grd_reason_message decision) (m\<lparr>om_core := core\<rparr>)"
  obtain c' u' r where upd: "apply_update_transition now core ?u = (c', u', r)" by (metis prod_cases3)
  have "om_core m' = c'" using reject_intent_effect(1) [of now "m\<lparr>om_core := core\<rparr>" ?u c'] upd by (simp add: m'_def proc)
  moreover have "order_creating ?i"
    using eval global_allow_iff by (fastforce simp: evaluate_global_risk_def Let_def split: if_splits)
  ultimately show thesis
    using eval upd by (intro rejected [of core ?u]) (simp_all add: evaluate_global_maps make_global_risk_reject_update_def k)
next
  fix f decision core
  let ?i = "pi_intent pending" and ?u = "make_portfolio_risk_reject_update now (pi_intent pending) decision"
  assume eval: "evaluate_portfolio_risk (om_core m) ?i (f (om_sink m) (oi_exchange ?i) (oi_market_ticker ?i)) = (core, Some decision)"
    and proc: "process_intent ports now pending m = reject_intent ports now ?u (prd_reason_message decision) (m\<lparr>om_core := core\<rparr>)"
  obtain c' u' r where upd: "apply_update_transition now core ?u = (c', u', r)" by (metis prod_cases3)
  have "om_core m' = c'" using reject_intent_effect(1) [of now "m\<lparr>om_core := core\<rparr>" ?u c'] upd by (simp add: m'_def proc)
  moreover have "order_creating ?i"
    using eval by (auto simp: evaluate_portfolio_risk_def portfolio_evaluate_def portfolio_decision_defs order_creating_def Let_def split: if_splits)
  ultimately show thesis
    using eval upd by (intro rejected [of core ?u]) (simp_all add: evaluate_portfolio_maps make_portfolio_risk_reject_update_def k)
qed (simp add: passed m'_def)

text \<open>A submission changes the live orders of nobody: a new order waits, a refused one is not tracked.\<close>

lemma submitE:
  assumes "om_submit ports now m i = (m', r)"
  obtains (refused) "om_outbound_queue m' = om_outbound_queue m" "oc_in_flight_orders (om_core m') = oc_in_flight_orders (om_core m)"
    | (queued) rid i' where "om_outbound_queue m' = om_outbound_queue m @ [\<lparr> pi_request_id = rid, pi_intent = i' \<rparr>]"
      "validate_and_track_submission (om_core m) rid i' = (om_core m', Inr ())"
proof -
  let ?i = "if oi_intent_ts_ns i = 0 then i\<lparr>oi_intent_ts_ns := now\<rparr> else i"
  obtain c v where v: "validate_and_track_submission (om_core m) (om_next_request_id m) ?i = (c, v)" by fastforce
  show thesis
  proof (cases v)
    case (Inl e)
    with v have "oc_in_flight_orders c = oc_in_flight_orders (om_core m)" by (cases rule: validate_trackE) simp_all
    with assms v Inl show thesis
      by (intro refused) (auto simp: om_submit_def Let_def split: if_splits)
  next
    case (Inr x)
    show thesis
    proof (cases "om_running m \<and> ad_supports (po_adapter ports) i")
      case True
      with assms v Inr show thesis by (intro queued [of "om_next_request_id m" ?i]) (auto simp: om_submit_def Let_def split: if_splits)
    next
      case False
      with assms show thesis by (intro refused) (auto simp: om_submit_def split: if_splits)
    qed
  qed
qed

lemma submit_live:
  assumes "om_submit ports now (sy_manager s) i = (m', r)"
  shows "live_keys (s\<lparr>sy_manager := m'\<rparr>) \<subseteq> live_keys s"
  using assms
proof (cases rule: submitE)
  case refused
  then show ?thesis by (simp add: live_keys_def waiting_ids_def waiting_intents_def)
next
  case (queued rid i')
  from queued(2) show ?thesis
    by (cases rule: validate_trackE)
      (use queued(1) in \<open>auto simp: live_keys_def waiting_ids_def waiting_intents_def order_creating_def split: if_splits\<close>)
qed

lemma pumpE:
  assumes "pump_incoming_update ports now m = (m', b)"
  obtains (kept) "om_outbound_queue m' = om_outbound_queue m" "om_core m' = om_core m"
    | (updated) u u' r where "om_outbound_queue m' = om_outbound_queue m"
      "apply_update_transition now (om_core m) u = (om_core m', u', r)"
  using assms
  by (auto simp: pump_incoming_update_def Let_def split: prod.splits option.splits sum.splits)

lemma pump_live:
  assumes "pump_incoming_update ports now (sy_manager s) = (m', b)"
  shows "live_keys (s\<lparr>sy_manager := m'\<rparr>) \<subseteq> live_keys s"
  using assms
proof (cases rule: pumpE)
  case kept
  then show ?thesis by (simp add: live_keys_def waiting_ids_def waiting_intents_def)
next
  case (updated u u' r)
  then show ?thesis
    using update_keeps_keys [OF updated(2)] by (fastforce simp: live_keys_def waiting_ids_def waiting_intents_def)
qed

lemma om_step_live:
  assumes "om_step ports s s'"
  obtains (shrinks) "live_keys s' \<subseteq> live_keys s"
    | (admits) pending where "order_creating (pi_intent pending)" "pending \<in> set (sy_local s)"
      "snd (evaluate_global_risk (om_core (sy_manager s)) (pi_intent pending)) = None"
      "portfolio_check ports (sy_manager s) (pi_intent pending) = None"
      "om_core (sy_manager s') = om_core (sy_manager s)"
  using assms
proof (cases rule: om_step.cases)
  case (submit now intent m' r)
  then show thesis using submit_live [of ports now s intent] by (intro shrinks) simp
next
  case swap
  then show thesis by (intro shrinks) (simp add: live_keys_def waiting_ids_def waiting_intents_def)
next
  case (receive now m' b)
  then show thesis using pump_live [of ports now s] by (intro shrinks) simp
next
  case (process pending rest now)
  let ?i = "pi_intent pending"
  have waiting: "set (waiting_ids s) = (if order_creating ?i then {oi_client_order_id ?i} else {}) \<union> set (waiting_ids s')"
    by (auto simp: process waiting_ids_def waiting_intents_def process_intent_frame)
  have core: "om_core (sy_manager s') = om_core (process_intent ports now pending (sy_manager s))" by (simp add: process(1))
  show thesis
  proof (rule process_intent_verdict [OF refl, where m = "sy_manager s" and ports = ports and now = now and pending = pending])
    fix c u
    assume creating: "order_creating ?i" and c: "oc_in_flight_orders c = oc_in_flight_orders (om_core (sy_manager s))"
      and upd: "apply_update_transition now c u
        = (om_core (process_intent ports now pending (sy_manager s)), snd (apply_update_transition now c u))"
      and u: "ou_status u = St_kRejected" "ou_exchange_order_id u = None" "ou_client_order_id u = oi_client_order_id ?i"
    obtain u' r where upd': "apply_update_transition now c u = (om_core (sy_manager s'), u', r)"
      using upd core by (cases "snd (apply_update_transition now c u)") simp
    have "live_keys s' \<subseteq> live_keys s"
      using update_keeps_keys [OF upd'] reject_final [OF upd' u(1,2)] creating c u(3)
      by (fastforce simp: live_keys_def waiting)
    then show thesis by (rule shrinks)
  next
    assume passed: "snd (evaluate_global_risk (om_core (sy_manager s)) ?i) = None"
      "portfolio_check ports (sy_manager s) ?i = None" "om_core (process_intent ports now pending (sy_manager s)) = om_core (sy_manager s)"
    show thesis
    proof (cases "order_creating ?i")
      case True
      with passed core show thesis by (intro admits) (simp_all add: process)
    next
      case False
      with passed core show thesis by (intro shrinks) (simp add: live_keys_def waiting)
    qed
  qed
qed

section \<open>The number of live orders\<close>

text \<open>When the gate lets an intent through, there is room for its order among all active ones.\<close>

lemma active_others: "core_inv c \<Longrightarrow> length (active_orders c) \<le> Suc (length (filter (counted k) (oc_in_flight_orders c)))"
proof (cases "\<exists>ord. tracked c k = Some ord \<and> \<not> is_terminal_state (ord_status ord)")
  case True
  then show "core_inv c \<Longrightarrow> ?thesis" using counted_others(1) by fastforce
next
  case False
  assume inv: "core_inv c"
  have "counted k e" if "e \<in> set (oc_in_flight_orders c)" "\<not> is_terminal_state (ord_status (snd e))" for e
    using that False map_of_is_SomeI [OF core_invD(1) [OF inv], of "fst e" "snd e"] by (auto simp: counted_def)
  then have "active_orders c = filter (counted k) (oc_in_flight_orders c)"
    unfolding active_orders_def by (intro filter_cong) (auto simp: counted_def)
  then show ?thesis by simp
qed

lemma admitted_count:
  assumes "core_inv c" "order_creating i" "snd (evaluate_global_risk c i) = None"
    and "0 < grc_max_active_orders_global (oc_global_risk_config c)"
  shows "length (active_orders c) \<le> grc_max_active_orders_global (oc_global_risk_config c)"
  using assms active_others [OF assms(1), of "oi_client_order_id i"]
  by (simp add: evaluate_global_risk_pass global_allow_iff build_risk_snapshot_eq)

definition count_within :: "('t, 's) OmsSystem \<Rightarrow> bool" where
  "count_within s \<longleftrightarrow> (let cfg = oc_global_risk_config (om_core (sy_manager s)) in
     0 < grc_max_active_orders_global cfg \<longrightarrow> length (live_orders s) \<le> grc_max_active_orders_global cfg)"

lemma om_step_core_inv:
  assumes "om_step ports s s'" "core_inv (om_core (sy_manager s))"
  shows "core_inv (om_core (sy_manager s'))"
  using om_step_core [OF assms(1)] assms(2) by (induction rule: rtranclp_induct) (auto intro: core_step_inv)

lemma om_step_count:
  assumes step: "om_step ports s s'" and inv: "core_inv (om_core (sy_manager s))" and within: "count_within s"
  shows "count_within s'"
  using step
proof (cases rule: om_step_live)
  case shrinks
  have "length (live_orders s') \<le> length (live_orders s)"
    using card_mono [OF live_orders_keys(1) [OF inv] shrinks]
    by (simp add: live_orders_keys(2) inv om_step_core_inv [OF step inv])
  with within core_steps_configs [OF om_step_core [OF step]] show ?thesis
    by (auto simp: count_within_def Let_def)
next
  case (admits pending)
  have "length (live_orders s') \<le> length (active_orders (om_core (sy_manager s)))"
    by (simp add: live_orders_def admits)
  with admitted_count [OF inv admits(1,3)] show ?thesis by (auto simp: count_within_def admits Let_def)
qed

section \<open>The quantity of the live orders\<close>

lemma outstanding_exact:
  assumes "ord_requested_qty_lots ord < 2 ^ 63"
  shows "outstanding_qty ord = max 0 (ord_requested_qty_lots ord - max 0 (ord_filled_qty_lots ord))"
  using assms by (auto simp: outstanding_qty_def i64_sub_def wrap_in_range in_i64_def)

lemma transition_outstanding:
  assumes "ord_requested_qty_lots ord < 2 ^ 63"
  shows "outstanding_qty (fst (transition_order now nxt ord u)) \<le> outstanding_qty ord"
  using assms by (cases "ou_data u") (simp_all add: outstanding_exact, auto simp: transition_defs)

lemma transition_order_side: "ord_side ord \<noteq> Side_kUnknown \<Longrightarrow> ord_side (fst (transition_order now s ord u)) = ord_side ord"
  by (cases "ou_data u") (simp_all add: transition_defs)

text \<open>An order keeps its requested quantity and its side once known, and what is outstanding of it never grows.\<close>

definition order_shrinks :: "InFlightOrder \<Rightarrow> InFlightOrder \<Rightarrow> bool" where
  "order_shrinks a b \<longleftrightarrow> ord_requested_qty_lots b = ord_requested_qty_lots a \<and>
     (ord_side a \<noteq> Side_kUnknown \<longrightarrow> ord_side b = ord_side a) \<and>
     (ord_requested_qty_lots a < 2 ^ 63 \<longrightarrow> outstanding_qty b \<le> outstanding_qty a)"

lemma core_step_shrinks:
  assumes "core_step c c'" "tracked c k = Some ord"
  shows "\<exists>ord'. tracked c' k = Some ord' \<and> order_shrinks ord ord'"
  using assms(1)
proof (cases rule: core_step.cases)
  case step_submit
  then show ?thesis using validate_keeps_tracked [OF _ assms(2)] by (fastforce simp: order_shrinks_def)
next
  case (step_update now u u' r)
  then show ?thesis
    by (cases rule: apply_updateE)
      (use assms(2) transition_outstanding in \<open>auto simp: order_shrinks_def transition_order_side dest!: find_order_tracked\<close>)
qed (use assms(2) in \<open>simp_all add: evaluate_global_maps evaluate_portfolio_maps order_shrinks_def\<close>)

lemma core_steps_shrink:
  assumes "core_step\<^sup>*\<^sup>* c c'" "tracked c k = Some ord"
  shows "\<exists>ord'. tracked c' k = Some ord' \<and> order_shrinks ord ord'"
  using assms(1)
proof (induction rule: rtranclp_induct)
  case base
  with assms(2) show ?case by (simp add: order_shrinks_def)
next
  case (step y z)
  then show ?case using core_step_shrinks by (fastforce simp: order_shrinks_def)
qed

lemma total_requested_mono:
  assumes "core_inv c" "core_inv c'" "core_step\<^sup>*\<^sup>* c c'"
  shows "total_requested c \<le> total_requested c'"
proof -
  let ?r = "\<lambda>c k. max 0 (ord_requested_qty_lots (the (tracked c k)))"
  have keep: "k \<in> dom (tracked c') \<and> ?r c' k = ?r c k" if "k \<in> dom (tracked c)" for k
    using that core_steps_shrink [OF assms(3)] by (fastforce simp: order_shrinks_def)
  have "(\<Sum>k \<in> dom (tracked c). ?r c k) = (\<Sum>k \<in> dom (tracked c). ?r c' k)" using keep by (intro sum.cong) auto
  also have "\<dots> \<le> (\<Sum>k \<in> dom (tracked c'). ?r c' k)" using keep by (intro sum_mono2) (auto simp: finite_dom_map_of)
  finally show ?thesis by (simp add: total_requested_keys assms(1,2))
qed

lemma requested_le_total:
  assumes "core_inv c" "e \<in> set (oc_in_flight_orders c)"
  shows "ord_requested_qty_lots (snd e) \<le> total_requested c"
proof -
  let ?r = "\<lambda>e. max 0 (ord_requested_qty_lots (snd e))"
  have "total_requested c = sum ?r (set (oc_in_flight_orders c))"
    using core_invD(1) [OF assms(1)] by (simp add: total_requested_def sum_list_distinct_conv_sum_set distinct_map)
  with member_le_sum [OF assms(2), of ?r] show ?thesis by simp
qed

text \<open>What a waiting intent asks for, quantity and side, is what its order was tracked with.\<close>

definition waiting_tracked :: "('t, 's) OmsSystem \<Rightarrow> bool" where
  "waiting_tracked s \<longleftrightarrow> (\<forall>i \<in> set (waiting_intents s). order_creating i \<and> 0 < oi_qty_lots i \<longrightarrow>
     (\<exists>ord. tracked (om_core (sy_manager s)) (oi_client_order_id i) = Some ord \<and> ord_requested_qty_lots ord = oi_qty_lots i \<and>
        (oi_side i \<noteq> Side_kUnknown \<longrightarrow> ord_side ord = oi_side i)))"

lemma om_step_waiting:
  assumes step: "om_step ports s s'" and inv: "waiting_tracked s"
  shows "waiting_tracked s'"
proof -
  let ?goal = "\<lambda>i. \<exists>ord. tracked (om_core (sy_manager s')) (oi_client_order_id i) = Some ord \<and> ord_requested_qty_lots ord = oi_qty_lots i \<and>
      (oi_side i \<noteq> Side_kUnknown \<longrightarrow> ord_side ord = oi_side i)"
  have old: "?goal i" if "i \<in> set (waiting_intents s)" "order_creating i" "0 < oi_qty_lots i" for i
    using that inv core_steps_shrink [OF om_step_core [OF step]] by (fastforce simp: waiting_tracked_def order_shrinks_def)
  have new: "?goal i" if "i \<in> set (waiting_intents s')" "i \<notin> set (waiting_intents s)" "order_creating i" "0 < oi_qty_lots i" for i
    using step
  proof (cases rule: om_step.cases)
    case (submit now intent m' r)
    from submit(2) show ?thesis
    proof (cases rule: submitE)
      case refused
      with that submit(1) show ?thesis by (simp add: waiting_intents_def)
    next
      case (queued rid i')
      with that submit(1) have i': "i' = i" by (auto simp: waiting_intents_def)
      from queued(2) show ?thesis
        by (cases rule: validate_trackE)
          (use that(3,4) submit(1) i' in \<open>auto simp: place_order_def replace_order_def order_creating_def\<close>)
    qed
  next
    case (receive now m' b)
    from receive(3) show ?thesis
      by (cases rule: pumpE) (use that receive(1) in \<open>simp_all add: waiting_intents_def\<close>)
  qed (use that in \<open>auto simp: waiting_intents_def process_intent_frame\<close>)
  show ?thesis unfolding waiting_tracked_def using old new by blast
qed

text \<open>The outstanding quantity of some orders is at most what was requested with them and others.\<close>

lemma outstanding_le_requested:
  assumes "\<And>e. e \<in> set es \<Longrightarrow> ord_requested_qty_lots (snd e) < 2 ^ 63" "\<And>e. P e \<Longrightarrow> Q e"
  shows "0 \<le> total_outstanding (filter P es)"
    and "total_outstanding (filter P es) \<le> sum_list (map (\<lambda>e. max 0 (ord_requested_qty_lots (snd e))) (filter Q es))"
proof -
  have bounds: "0 \<le> outstanding_qty (snd e) \<and> outstanding_qty (snd e) \<le> max 0 (ord_requested_qty_lots (snd e))" if "e \<in> set es" for e
    using assms(1) [OF that] by (simp add: outstanding_exact)
  then show "0 \<le> total_outstanding (filter P es)" by (induction es) (auto simp: total_outstanding_def)
  show "total_outstanding (filter P es) \<le> sum_list (map (\<lambda>e. max 0 (ord_requested_qty_lots (snd e))) (filter Q es))"
    using bounds assms(2) by (induction es) (force simp: total_outstanding_def)+
qed

lemma admitted_quantity:
  assumes inv: "core_inv c" and creating: "order_creating i" and pass: "snd (evaluate_global_risk c i) = None"
    and ord: "tracked c (oi_client_order_id i) = Some ord" "ord_requested_qty_lots ord = oi_qty_lots i" "0 < oi_qty_lots i"
    and range: "total_requested c < 2 ^ 63" and limit: "0 < grc_max_outstanding_qty_global (oc_global_risk_config c)"
  shows "total_outstanding (active_orders c) \<le> grc_max_outstanding_qty_global (oc_global_risk_config c)"
proof -
  let ?k = "oi_client_order_id i" and ?xs = "oc_in_flight_orders c" and ?q = "oi_qty_lots i"
  let ?others = "total_outstanding (filter (counted ?k) ?xs)"
  have kne: "?k \<noteq> ''''" using core_invD(3) [OF inv ord(1)] by (simp add: order_ok_def)
  have fits: "ord_requested_qty_lots (snd e) < 2 ^ 63" if "e \<in> set ?xs" for e
    using requested_le_total [OF inv that] range by simp
  have nonneg: "0 \<le> ?others"
    and le: "?others \<le> sum_list (map (\<lambda>e. max 0 (ord_requested_qty_lots (snd e))) (filter (\<lambda>e. fst e \<noteq> ?k) ?xs))"
    using outstanding_le_requested [of ?xs "counted ?k" "\<lambda>e. fst e \<noteq> ?k"] fits kne by (auto simp: counted_def)
  have "total_requested c = ?q + sum_list (map (\<lambda>e. max 0 (ord_requested_qty_lots (snd e))) (filter (\<lambda>e. fst e \<noteq> ?k) ?xs))"
    using filter_split_key(2) [OF core_invD(1) [OF inv] ord(1), of "\<lambda>_. True" "\<lambda>e. max 0 (ord_requested_qty_lots (snd e))"] ord(2,3)
    by (simp add: total_requested_def)
  then have "i64_add (wrap_i64 ?others) ?q = ?q + ?others"
    using nonneg le ord(3) range by (intro gate_addition_exact [where t = "total_requested c"]) (auto simp: in_i64_def)
  then have "?q + ?others \<le> grc_max_outstanding_qty_global (oc_global_risk_config c)"
    using pass creating limit ord(3)
    by (simp add: evaluate_global_risk_pass global_allow_iff build_risk_snapshot_eq flip: total_outstanding_def)
  moreover have "total_outstanding (active_orders c) \<le> ?q + ?others"
  proof (cases "is_terminal_state (ord_status ord)")
    case True
    then have "active_orders c = filter (counted ?k) ?xs"
      using ord(1) core_invD(1) [OF inv] unfolding active_orders_def by (intro filter_cong) (auto simp: counted_def dest: eq_key_imp_eq_value)
    then show ?thesis using ord(3) by simp
  next
    case False
    have "ord_requested_qty_lots ord < 2 ^ 63" using fits [of "(?k, ord)"] ord(1) by (simp add: map_of_SomeD)
    then show ?thesis using counted_others(2) [OF inv ord(1) False] ord(2,3) by (simp add: outstanding_exact)
  qed
  ultimately show ?thesis by linarith
qed

definition quantity_within :: "('t, 's) OmsSystem \<Rightarrow> bool" where
  "quantity_within s \<longleftrightarrow> (let cfg = oc_global_risk_config (om_core (sy_manager s)) in
     0 < grc_max_outstanding_qty_global cfg \<longrightarrow> total_outstanding (live_orders s) \<le> grc_max_outstanding_qty_global cfg)"

lemma live_orders_shrink:
  assumes step: "om_step ports s s'" and inv: "core_inv (om_core (sy_manager s))"
    and range: "total_requested (om_core (sy_manager s)) < 2 ^ 63" and shrinks: "live_keys s' \<subseteq> live_keys s"
  shows "total_outstanding (live_orders s') \<le> total_outstanding (live_orders s)"
proof -
  have live: "outstanding_qty (order_of s' k) \<le> outstanding_qty (order_of s k) \<and> 0 \<le> outstanding_qty (order_of s k)"
    if "k \<in> live_keys s" for k
  proof -
    from that obtain ord where ord: "tracked (om_core (sy_manager s)) k = Some ord" by (auto simp: live_keys_def)
    have "ord_requested_qty_lots ord < 2 ^ 63" using requested_le_total [OF inv map_of_SomeD [OF ord]] range by simp
    with core_steps_shrink [OF om_step_core [OF step] ord] ord show ?thesis by (auto simp: order_shrinks_def outstanding_exact)
  qed
  have "(\<Sum>k \<in> live_keys s'. outstanding_qty (order_of s' k)) \<le> (\<Sum>k \<in> live_keys s'. outstanding_qty (order_of s k))"
    using live shrinks by (intro sum_mono) auto
  also have "\<dots> \<le> (\<Sum>k \<in> live_keys s. outstanding_qty (order_of s k))"
    using live shrinks live_orders_keys(1) [OF inv] by (intro sum_mono2) auto
  finally show ?thesis by (simp add: live_orders_keys(3) inv om_step_core_inv [OF step inv])
qed

lemma om_step_quantity:
  assumes step: "om_step ports s s'" and inv: "core_inv (om_core (sy_manager s))" and waiting: "waiting_tracked s"
    and range: "total_requested (om_core (sy_manager s)) < 2 ^ 63" and portfolio: "po_snapshot_for ports \<noteq> None"
    and within: "quantity_within s"
  shows "quantity_within s'"
  using step
proof (cases rule: om_step_live)
  case shrinks
  from live_orders_shrink [OF step inv range this] within core_steps_configs [OF om_step_core [OF step]] show ?thesis
    by (auto simp: quantity_within_def Let_def)
next
  case (admits pending)
  let ?c = "om_core (sy_manager s)" and ?i = "pi_intent pending"
  have "signed_intent_qty ?i \<noteq> 0"
    using admits(1,4) portfolio portfolio_allow_creating(2) [OF admits(1)]
    by (auto simp: portfolio_check_def evaluate_portfolio_risk_def Let_def split: if_splits)
  then have q: "0 < oi_qty_lots ?i" by (simp add: signed_intent_qty_def split: if_splits)
  have fits: "ord_requested_qty_lots (snd e) < 2 ^ 63" if "e \<in> set (oc_in_flight_orders ?c)" for e
    using requested_le_total [OF inv that] range by simp
  have "\<forall>e \<in> set (active_orders ?c). 0 \<le> outstanding_qty (snd e)"
    using fits by (auto simp: active_orders_def outstanding_exact)
  then have "total_outstanding (live_orders s') \<le> total_outstanding (active_orders ?c)"
    using total_outstanding_filter_le(2) by (simp add: live_orders_def admits)
  moreover have "?i \<in> set (waiting_intents s)" using admits(2) by (simp add: waiting_intents_def)
  then obtain ord where "tracked ?c (oi_client_order_id ?i) = Some ord" "ord_requested_qty_lots ord = oi_qty_lots ?i"
    using waiting admits(1) q by (auto simp: waiting_tracked_def)
  note admitted_quantity [OF inv admits(1,3) this q range]
  ultimately show ?thesis by (auto simp: quantity_within_def admits Let_def)
qed

section \<open>Whole runs\<close>

text \<open>
  The invariant of a run. The limit on the quantity needs the portfolio gate behind the global one
  (it refuses intents without a positive quantity, which a replace would inherit from its target
  unseen) and holds as long as everything ever requested fits 64 bits.
\<close>

definition exposure_inv :: "('t, 's) OmsPorts \<Rightarrow> ('t, 's) OmsSystem \<Rightarrow> bool" where
  "exposure_inv ports s \<longleftrightarrow> core_inv (om_core (sy_manager s)) \<and> waiting_tracked s \<and> count_within s \<and>
     (po_snapshot_for ports \<noteq> None \<and> total_requested (om_core (sy_manager s)) < 2 ^ 63 \<longrightarrow> quantity_within s)"

lemma om_step_exposure:
  assumes "om_step ports s s'" "exposure_inv ports s"
  shows "exposure_inv ports s'"
proof -
  let ?c = "om_core (sy_manager s)" and ?c' = "om_core (sy_manager s')"
  have inv: "core_inv ?c" "waiting_tracked s" "count_within s" using assms(2) by (simp_all add: exposure_inv_def)
  note inv' = om_step_core_inv [OF assms(1) inv(1)]
  have "total_requested ?c \<le> total_requested ?c'" by (rule total_requested_mono [OF inv(1) inv' om_step_core [OF assms(1)]])
  then have "quantity_within s'" if "po_snapshot_for ports \<noteq> None" "total_requested ?c' < 2 ^ 63"
    using om_step_quantity [OF assms(1) inv(1,2) _ that(1)] that assms(2) by (simp add: exposure_inv_def)
  then show ?thesis
    using inv' om_step_waiting [OF assms(1) inv(2)] om_step_count [OF assms(1) inv(1,3)] by (simp add: exposure_inv_def)
qed

lemma om_steps_exposure: "(om_step ports)\<^sup>*\<^sup>* s s' \<Longrightarrow> exposure_inv ports s \<Longrightarrow> exposure_inv ports s'"
  by (induction rule: rtranclp_induct) (auto intro: om_step_exposure)

lemma exposure_start:
  assumes "oc_in_flight_orders (om_core m) = []" "oc_exchange_to_client (om_core m) = []" "om_outbound_queue m = []"
  shows "exposure_inv ports \<lparr> sy_manager = m, sy_local = [] \<rparr>"
  using assms by (simp add: exposure_inv_def core_inv_def waiting_tracked_def waiting_intents_def count_within_def
      quantity_within_def live_orders_def active_orders_def total_outstanding_def)

lemma om_start_exposure:
  assumes "om_start ports m = (m', True)" "om_outbound_queue m = []"
  shows "exposure_inv ports \<lparr> sy_manager = m', sy_local = [] \<rparr>"
  by (rule exposure_start) (use assms in \<open>auto simp: om_start_def core_reset_def Let_def split: if_splits\<close>)

text \<open>
  The limits of the global gate hold over whole runs, not only at the moment of a check. Start the
  order manager with an empty outbound queue and let strategies submit, the worker drain, check and
  send, and the exchange report in any interleaving: the orders handed to the exchange and not yet final
  never exceed the limit on their number, and, when a portfolio snapshot provider is configured and all the quantity
  ever requested fits 64 bits, never exceed the limit on their outstanding quantity.
\<close>

theorem live_orders_within_limits:
  assumes "om_start ports m = (m', True)" and "om_outbound_queue m = []"
    and "(om_step ports)\<^sup>*\<^sup>* \<lparr> sy_manager = m', sy_local = [] \<rparr> s"
    and "po_snapshot_for ports \<noteq> None" and "total_requested (om_core (sy_manager s)) < 2 ^ 63"
  defines "cfg \<equiv> oc_global_risk_config (om_core m')"
  shows "(0 < grc_max_active_orders_global cfg \<longrightarrow> length (live_orders s) \<le> grc_max_active_orders_global cfg) \<and>
    (0 < grc_max_outstanding_qty_global cfg \<longrightarrow> total_outstanding (live_orders s) \<le> grc_max_outstanding_qty_global cfg)"
proof -
  have "oc_global_risk_config (om_core (sy_manager s)) = cfg"
    using core_steps_configs [OF om_steps_core [OF assms(3)]] by (simp add: cfg_def)
  moreover have "exposure_inv ports s" by (rule om_steps_exposure [OF assms(3) om_start_exposure [OF assms(1,2)]])
  ultimately show ?thesis using assms(4,5) by (simp add: exposure_inv_def count_within_def quantity_within_def)
qed

text \<open>A run in which the order really becomes live: submitted, taken over by the worker, checked and sent.\<close>

definition example_taken :: "(string list, PositionLedger) OmsSystem" where
  "example_taken = \<lparr> sy_manager = (sy_manager example_submitted)\<lparr>om_outbound_queue := []\<rparr>,
     sy_local = om_outbound_queue (sy_manager example_submitted) \<rparr>"

definition example_sent :: "(string list, PositionLedger) OmsSystem" where
  "example_sent = \<lparr> sy_manager = process_intent example_ports 5 example_pending (sy_manager example_taken), sy_local = [] \<rparr>"

lemma example_submit:
  assumes "om_core m = example_new_core" "om_running m" "ad_supports (po_adapter ports) example_intent" "om_next_request_id m = 1"
  shows "om_submit ports 5 m example_intent = (m\<lparr> om_core := example_core, om_next_request_id := 2,
    om_outbound_queue := om_outbound_queue m @ [example_pending], om_submitted_count := om_submitted_count m + 1 \<rparr>, Some 1)"
proof -
  have "validate_and_track_submission example_new_core 1 example_intent = (example_core, Inr ())"
    by (simp add: example_core_def validate_and_track_submission_def example_core_defs)
  moreover have "oi_intent_ts_ns example_intent = 7" by (simp add: example_intent_defs)
  ultimately show ?thesis using assms by (simp add: om_submit_def example_pending_def)
qed

lemma example_submitted_manager: "sy_manager example_submitted = example_manager\<lparr> om_core := example_core,
    om_next_request_id := 2, om_outbound_queue := [example_pending], om_submitted_count := 1 \<rparr>"
proof -
  have "om_running example_manager" "ad_supports (po_adapter example_ports) example_intent" "om_next_request_id example_manager = 1"
    "om_outbound_queue example_manager = []" "om_submitted_count example_manager = 0"
    by (simp_all add: example_om_defs)
  then show ?thesis by (simp add: example_submitted_def example_submit example_manager_core)
qed

lemma example_taken_run: "(om_step example_ports)\<^sup>*\<^sup>* \<lparr> sy_manager = example_manager, sy_local = [] \<rparr> example_taken"
proof -
  have "sy_local example_submitted = []" by (simp add: example_submitted_def)
  from om_step.swap [OF this, of example_ports] have "om_step example_ports example_submitted example_taken"
    by (simp add: example_taken_def example_submitted_def)
  with example_submit_steps show ?thesis by (rule rtranclp.rtrancl_into_rtrancl [where r = "om_step example_ports"])
qed

lemma example_sent_step: "om_step example_ports example_taken example_sent"
proof -
  have "sy_local example_taken = [example_pending]" by (simp add: example_taken_def example_submitted_manager)
  from om_step.process [OF this, of example_ports 5] show ?thesis by (simp add: example_sent_def example_taken_def)
qed

lemma example_sent_run: "(om_step example_ports)\<^sup>*\<^sup>* \<lparr> sy_manager = example_manager, sy_local = [] \<rparr> example_sent"
  using example_taken_run example_sent_step by (rule rtranclp.rtrancl_into_rtrancl [where r = "om_step example_ports"])

lemma example_sent_core: "om_core (sy_manager example_sent) = example_core" "waiting_ids example_sent = []"
  by (simp_all add: example_sent_def example_taken_def example_submitted_manager example_process example_provider example_manager_core
      waiting_ids_def waiting_intents_def)

lemma example_sent_live: "live_orders example_sent = [(''A'', place_order 1 example_intent)]"
  by (simp add: live_orders_def example_sent_core active_orders_def example_core_orders)

theorem live_orders_within_limits_witness:
  "length (live_orders example_sent) = 1 \<and> total_outstanding (live_orders example_sent) = 10 \<and>
   total_outstanding (live_orders example_sent) \<le> grc_max_outstanding_qty_global example_global_config"
proof -
  have "total_requested (om_core (sy_manager example_sent)) < 2 ^ 63" "po_snapshot_for example_ports \<noteq> None"
    by (simp_all add: example_sent_core total_requested_def example_core_orders place_order_def example_intent_defs example_ports_def)
  moreover have "oc_global_risk_config (om_core example_manager) = example_global_config"
    by (simp add: example_manager_core example_new_core_def OrderManagerCore_new_def)
  moreover have "total_outstanding (live_orders example_sent) = 10"
    by (simp add: example_sent_live total_outstanding_def outstanding_qty_def place_order_def example_intent_defs)
  ultimately show ?thesis
    using live_orders_within_limits [OF example_manager_started _ example_sent_run]
    by (simp add: OrderManager_new_def example_sent_live example_global_config_def)
qed

section \<open>No order is processed twice\<close>

text \<open>Every waiting order is tracked and waits only once.\<close>

definition waiting_once :: "('t, 's) OmsSystem \<Rightarrow> bool" where
  "waiting_once s \<longleftrightarrow> distinct (waiting_ids s) \<and> (\<forall>k \<in> set (waiting_ids s). tracked (om_core (sy_manager s)) k \<noteq> None)"

lemma waiting_ids_step:
  assumes step: "om_step ports s s'"
  obtains (kept) "waiting_ids s' = waiting_ids s"
    | (taken) k where "waiting_ids s = k # waiting_ids s'"
    | (added) k where "waiting_ids s' = waiting_ids s @ [k]" "tracked (om_core (sy_manager s)) k = None"
        "tracked (om_core (sy_manager s')) k \<noteq> None"
  using step
proof (cases rule: om_step.cases)
  case (submit now intent m' r)
  from submit(2) show thesis
  proof (cases rule: submitE)
    case refused
    with submit(1) show thesis by (intro kept) (simp add: waiting_ids_def waiting_intents_def)
  next
    case (queued rid i')
    show thesis
    proof (cases "order_creating i'")
      case True
      with queued(2) have "tracked (om_core (sy_manager s)) (oi_client_order_id i') = None \<and> tracked (om_core m') (oi_client_order_id i') \<noteq> None"
        by (cases rule: validate_trackE) (auto simp: order_creating_def)
      with True queued(1) submit(1) show thesis
        by (intro added [of "oi_client_order_id i'"]) (simp_all add: waiting_ids_def waiting_intents_def)
    qed (use queued(1) submit(1) in \<open>intro kept, simp add: waiting_ids_def waiting_intents_def\<close>)
  qed
next
  case swap
  then show thesis by (intro kept) (simp add: waiting_ids_def waiting_intents_def)
next
  case (process pending rest now)
  show thesis
  proof (cases "order_creating (pi_intent pending)")
    case True
    then show thesis
      by (intro taken [of "oi_client_order_id (pi_intent pending)"])
        (simp add: process waiting_ids_def waiting_intents_def process_intent_frame)
  qed (intro kept, simp add: process waiting_ids_def waiting_intents_def process_intent_frame)
next
  case (receive now m' b)
  from receive(3) show thesis
    by (cases rule: pumpE) (use receive(1) in \<open>intro kept, simp add: waiting_ids_def waiting_intents_def\<close>)+
qed

lemma om_step_keeps_tracked:
  "om_step ports s s' \<Longrightarrow> tracked (om_core (sy_manager s)) k \<noteq> None \<Longrightarrow> tracked (om_core (sy_manager s')) k \<noteq> None"
  using core_steps_shrink [OF om_step_core] by blast

lemma om_step_waiting_once:
  assumes "om_step ports s s'" "waiting_once s"
  shows "waiting_once s'"
proof -
  have old: "tracked (om_core (sy_manager s')) k \<noteq> None" if "k \<in> set (waiting_ids s)" for k
    using that assms(2) om_step_keeps_tracked [OF assms(1)] by (simp add: waiting_once_def)
  have d: "distinct (waiting_ids s)" "\<And>k. tracked (om_core (sy_manager s)) k = None \<Longrightarrow> k \<notin> set (waiting_ids s)"
    using assms(2) by (auto simp: waiting_once_def)
  from assms(1) show ?thesis
    by (cases rule: waiting_ids_step) (use old d in \<open>simp_all add: waiting_once_def\<close>)
qed

lemma om_steps_waiting_once: "(om_step ports)\<^sup>*\<^sup>* s s' \<Longrightarrow> waiting_once s \<Longrightarrow> waiting_once s'"
  by (induction rule: rtranclp_induct) (auto intro: om_step_waiting_once)

lemma om_steps_processed:
  assumes "(om_step ports)\<^sup>*\<^sup>* s s'" "tracked (om_core (sy_manager s)) k \<noteq> None" "k \<notin> set (waiting_ids s)"
  shows "tracked (om_core (sy_manager s')) k \<noteq> None \<and> k \<notin> set (waiting_ids s')"
  using assms(1)
proof (induction rule: rtranclp_induct)
  case base
  with assms(2,3) show ?case by simp
next
  case (step y z)
  have "k \<notin> set (waiting_ids z)"
    using step(2) by (cases rule: waiting_ids_step) (use step(3) in auto)
  with step om_step_keeps_tracked [OF step(2)] show ?case by blast
qed

text \<open>
  C15. No order is handed to the exchange twice. After a start with an empty outbound queue and in any
  interleaving, at most one intent waits for each new client order id, and the request of an order whose
  intent the worker has processed can never be queued again: whatever strategies submit from then on, its client order id
  does not return to the queue, because the core keeps tracking the order, final or not.
\<close>

theorem orders_processed_at_most_once:
  assumes "om_start ports m = (m', True)" and "om_outbound_queue m = []"
    and "(om_step ports)\<^sup>*\<^sup>* \<lparr> sy_manager = m', sy_local = [] \<rparr> s" and "om_step ports s s1"
    and "k \<in> set (waiting_ids s)" and "k \<notin> set (waiting_ids s1)" and "(om_step ports)\<^sup>*\<^sup>* s1 s2"
  shows "distinct (waiting_ids s) \<and> k \<notin> set (waiting_ids s2) \<and> tracked (om_core (sy_manager s2)) k \<noteq> None"
proof -
  have "om_outbound_queue m' = []" using assms(1,2) by (auto simp: om_start_def Let_def split: if_splits)
  then have "waiting_once \<lparr> sy_manager = m', sy_local = [] \<rparr>" by (simp add: waiting_once_def waiting_ids_def waiting_intents_def)
  from om_steps_waiting_once [OF assms(3) this] have once: "waiting_once s" .
  then have "tracked (om_core (sy_manager s1)) k \<noteq> None"
    using assms(5) om_step_keeps_tracked [OF assms(4)] by (simp add: waiting_once_def)
  from om_steps_processed [OF assms(7) this assms(6)] once show ?thesis by (simp add: waiting_once_def)
qed

theorem orders_processed_at_most_once_witness:
  "''A'' \<in> set (waiting_ids example_taken) \<and> ''A'' \<notin> set (waiting_ids example_sent) \<and>
   ''A'' \<notin> set (waiting_ids (example_sent\<lparr>sy_manager := fst (om_submit example_ports 9 (sy_manager example_sent) example_intent)\<rparr>))"
proof -
  let ?s2 = "example_sent\<lparr>sy_manager := fst (om_submit example_ports 9 (sy_manager example_sent) example_intent)\<rparr>"
  have again: "om_step example_ports example_sent ?s2"
    by (rule om_step.submit [of example_ports 9 _ example_intent _ "snd (om_submit example_ports 9 (sy_manager example_sent) example_intent)"]) simp
  have waits: "waiting_ids example_taken = [''A'']"
    by (simp add: waiting_ids_def waiting_intents_def example_taken_def example_submitted_manager example_pending_def
        order_creating_def example_intent_defs)
  show ?thesis
    using orders_processed_at_most_once [OF example_manager_started _ example_taken_run example_sent_step _ _
        r_into_rtranclp [where r = "om_step example_ports", OF again], of "''A''"] waits
    by (simp add: OrderManager_new_def example_sent_core(2))
qed

end
