(* ===== verification/Trader_Limits.thy ===== *)
theory Trader_Limits
  imports Trader_App Order_Exposure
begin

text \<open>
  The order manager inside the running trader of \<open>apps/trader/main.cpp\<close>: whatever the feed, the main loop, the
  shards and the strategies do, the trader moves its order manager only by the steps of
  \<open>oms/order_manager.cpp\<close>. So every promise of the order manager over its runs is a promise of the trader,
  with the limits of the configuration file.
\<close>

section \<open>The trader runs its order manager\<close>

text \<open>What a run of the trader does to the intent sink and the worker's local deque.\<close>

fun oms_follows ::
    "('n, 'v) Platform \<Rightarrow> 'n IntentSink \<Rightarrow> PendingIntent list \<Rightarrow> PendingIntent list \<Rightarrow> 'n IntentSink \<Rightarrow> bool" where
  "oms_follows pf (Is_order_manager k0) xs0 xs (Is_order_manager k) \<longleftrightarrow> (om_step (trader_oms_ports pf))\<^sup>*\<^sup>*
     \<lparr> sy_manager = ois_order_manager k0, sy_local = xs0 \<rparr> \<lparr> sy_manager = ois_order_manager k, sy_local = xs \<rparr>"
| "oms_follows pf (Is_dropping n0 l0) xs0 xs (Is_dropping n l) \<longleftrightarrow> l = l0 \<and> xs = xs0"
| "oms_follows pf _ xs0 xs _ \<longleftrightarrow> False"

lemma oms_system_collapse [simp]: "\<lparr> sy_manager = sy_manager s, sy_local = sy_local s \<rparr> = s"
  by (cases s) simp

lemma oms_follows_refl [simp]: "oms_follows pf k xs xs k"
  by (cases k) simp_all

lemma oms_follows_trans: "oms_follows pf k0 xs0 xs1 k1 \<Longrightarrow> oms_follows pf k1 xs1 xs2 k2 \<Longrightarrow> oms_follows pf k0 xs0 xs2 k2"
  by (cases k0; cases k1; cases k2) (auto intro: rtranclp_trans)

lemma submit_follows:
  "oms_follows pf k xs xs (fst (trader_submit_intent pf now k i))"
proof (cases k)
  case (Is_order_manager s)
  let ?s = "\<lparr> sy_manager = ois_order_manager s, sy_local = xs \<rparr>"
  obtain m r where sub: "om_submit (trader_oms_ports pf) now (ois_order_manager s) i = (m, r)" by fastforce
  then have "om_step (trader_oms_ports pf) ?s (?s\<lparr>sy_manager := m\<rparr>)" by (intro om_step.submit [of _ now _ i]) simp
  with sub Is_order_manager show ?thesis
    by (cases r) (simp_all add: trader_submit_intent_def om_sink_submit_intent_def on_left_def r_into_rtranclp)
next
  case (Is_dropping n l)
  then show ?thesis by (simp add: trader_submit_intent_def on_left_def dropping_submit_intent_def)
qed

interpretation trader_follows: intent_sink "trader_strategy_ports pf now strategy" "oms_follows pf k xs xs"
  for pf now strategy k xs
  by unfold_locales (simp add: trader_strategy_ports_def, rule oms_follows_trans [OF _ submit_follows])

lemma shard_round_follows:
  "oms_follows pf (tr_intent_sink t) (tr_oms_local t) (tr_oms_local t)
     (tr_intent_sink (trader_shard_round pf now moved_from strategy i t))"
proof -
  let ?P = "oms_follows pf (tr_intent_sink t) (tr_oms_local t) (tr_oms_local t)"
  show ?thesis
    unfolding trader_shard_round_def Let_def
    by simp (rule shard_iteration_handler [where Q = "\<lambda>h. ?P (sr_sink h)"], simp_all add: trader_follows.handler_ok)
qed

lemma trader_step_follows:
  "trader_step pf hash moved_from strategy t t' \<Longrightarrow>
   oms_follows pf (tr_intent_sink t) (tr_oms_local t) (tr_oms_local t') (tr_intent_sink t')"
proof (induction rule: trader_step.induct)
  case (shard i t now)
  have "tr_oms_local (trader_shard_round pf now moved_from strategy i t) = tr_oms_local t"
    by (simp add: trader_shard_round_def Let_def)
  with shard_round_follows [of pf t now moved_from strategy i] show ?case by simp
next
  case (oms t k s)
  then show ?case by (simp add: r_into_rtranclp)
qed (simp_all add: trader_feed_round_def trader_pump_round_def Let_def)

lemma trader_steps_follow:
  "(trader_step pf hash moved_from strategy)\<^sup>*\<^sup>* t t' \<Longrightarrow>
   oms_follows pf (tr_intent_sink t) (tr_oms_local t) (tr_oms_local t') (tr_intent_sink t')"
  by (induction rule: rtranclp_induct) (auto intro: oms_follows_trans trader_step_follows)

section \<open>Promises of the order manager, kept by the trader\<close>

lemma started_oms:
  assumes "trader_start pf now_ms st argv = Started t" "tr_intent_sink t = Is_order_manager k"
  shows "fresh_oms (ois_order_manager k)" "tr_oms_local t = []"
    "oc_global_risk_config (om_core (ois_order_manager k)) = rc_oms_global (tc_risk (tr_config t))"
proof -
  obtain cfg c m where t: "t = started_trader pf cfg c m st
      (fst (pipeline_start (LivePipeline_new (kalshi_extract (pf_simdjson pf)) (tc_pipeline cfg))))"
    and conf: "oms_as_configured cfg (intent_sink_of m)" and fresh: "\<And>m'. m = Some m' \<Longrightarrow> fresh_oms m'"
    by (rule trader_startE [OF assms(1)]) blast
  with assms(2) obtain m' where m: "m = Some m'" "ois_order_manager k = m'"
    by (cases m) (auto simp: started_trader_def intent_sink_of_def)
  show "fresh_oms (ois_order_manager k)" using fresh m by simp
  show "tr_oms_local t = []" by (simp add: t started_trader_def)
  show "oc_global_risk_config (om_core (ois_order_manager k)) = rc_oms_global (tc_risk (tr_config t))"
    using conf assms(2) by (simp add: t started_trader_def oms_as_configured_def)
qed

lemma trader_oms_run:
  assumes start: "trader_start pf now_ms st argv = Started t0"
    and run: "(trader_step pf hash moved_from strategy)\<^sup>*\<^sup>* t0 t" and k: "tr_intent_sink t = Is_order_manager k"
  obtains k0 where "tr_intent_sink t0 = Is_order_manager k0" "fresh_oms (ois_order_manager k0)"
    "oc_global_risk_config (om_core (ois_order_manager k0)) = rc_oms_global (tc_risk (tr_config t0))"
    "(om_step (trader_oms_ports pf))\<^sup>*\<^sup>* \<lparr> sy_manager = ois_order_manager k0, sy_local = [] \<rparr>
       \<lparr> sy_manager = ois_order_manager k, sy_local = tr_oms_local t \<rparr>"
proof (cases "tr_intent_sink t0")
  case (Is_order_manager k0)
  with trader_steps_follow [OF run] k started_oms [OF start Is_order_manager] show ?thesis
    by (intro that [of k0]) simp_all
next
  case (Is_dropping n l)
  with trader_steps_follow [OF run] k show ?thesis by simp
qed


text \<open>
  C1. The limits of the configuration file bound what the trader has at the exchange at any time: for every strategy, every
  market data and every interleaving, the orders handed to the exchange and not yet final are no more than
  \<open>risk.oms_global.max_active_orders_global\<close>, and their outstanding quantity is at most
  \<open>risk.oms_global.max_outstanding_qty_global\<close>, where these are switched on and all that was ever requested fits 64 bits.
\<close>

theorem trader_exposure_is_bounded:
  assumes "trader_start pf now_ms st argv = Started t0"
    and "(trader_step pf hash moved_from strategy)\<^sup>*\<^sup>* t0 t" and "tr_intent_sink t = Is_order_manager k"
    and "total_requested (om_core (ois_order_manager k)) < 2 ^ 63"
  defines "at_exchange \<equiv> live_orders \<lparr> sy_manager = ois_order_manager k, sy_local = tr_oms_local t \<rparr>"
    and "cfg \<equiv> rc_oms_global (tc_risk (tr_config t0))"
  shows "(0 < grc_max_active_orders_global cfg \<longrightarrow> length at_exchange \<le> grc_max_active_orders_global cfg) \<and>
    (0 < grc_max_outstanding_qty_global cfg \<longrightarrow> total_outstanding at_exchange \<le> grc_max_outstanding_qty_global cfg)"
proof (rule trader_oms_run [OF assms(1-3)])
  fix k0
  let ?s = "\<lparr> sy_manager = ois_order_manager k, sy_local = tr_oms_local t \<rparr>"
  assume fresh: "fresh_oms (ois_order_manager k0)"
    and conf: "oc_global_risk_config (om_core (ois_order_manager k0)) = rc_oms_global (tc_risk (tr_config t0))"
    and run: "(om_step (trader_oms_ports pf))\<^sup>*\<^sup>* \<lparr> sy_manager = ois_order_manager k0, sy_local = [] \<rparr> ?s"
  have "exposure_inv (trader_oms_ports pf) ?s"
    by (rule om_steps_exposure [OF run exposure_start]) (use fresh in \<open>simp_all add: fresh_oms_def\<close>)
  moreover have "po_snapshot_for (trader_oms_ports pf) \<noteq> None" by (simp add: trader_oms_ports_def)
  moreover have "oc_global_risk_config (om_core (ois_order_manager k)) = cfg"
    using core_steps_configs [OF om_steps_core [OF run]] conf by (simp add: cfg_def)
  ultimately show ?thesis
    using assms(4) by (simp add: exposure_inv_def count_within_def quantity_within_def at_exchange_def)
qed

section \<open>A paper trader with limits\<close>

text \<open>A configuration file with limits, and a trader that starts from it and gets an order to the exchange.\<close>

definition limited_json :: json where
  "limited_json = json_obj [
     (''runtime'', json_obj [(''execution_mode'', Json_string (execution_mode_name Mode_kPaper))]),
     (''risk'', json_obj [
        (''oms_global'', json_obj [(''max_active_orders_global'', Json_integer 2), (''max_active_orders_per_market'', Json_integer 1),
           (''max_outstanding_qty_global'', Json_integer 100), (''max_outstanding_qty_per_market'', Json_integer 50)]),
        (''oms_portfolio'', json_obj [(''max_abs_net_position_per_market'', Json_integer 40),
           (''max_abs_position_gross_global'', Json_integer 60)])])]"

definition limited_platform :: "(nat, json) Platform" where
  "limited_platform = example_platform\<lparr>pf_json := (config_nl limited_json)\<lparr>nl_dump := (\<lambda>j. Inr ''{}'')\<rparr>\<rparr>"

definition limited_config :: TraderRuntimeConfig where
  "limited_config = TraderRuntimeConfig_default\<lparr>tc_execution_mode := Mode_kPaper,
     tc_risk := RiskConfig_default\<lparr>rc_oms_global := example_global_config, rc_oms_portfolio := example_portfolio_config\<rparr>\<rparr>"

definition limited_trader :: "(nat, unit) Trader" where
  "limited_trader = started_trader limited_platform limited_config
     \<lparr> cd_key_id = ''trader.json'', cd_private_key_pem = ''trader.json'' \<rparr> (Some (paper_oms limited_platform limited_config)) ()
     (fst (pipeline_start (LivePipeline_new (kalshi_extract example_reader) (tc_pipeline limited_config))))"

lemma limited_parse: "parse_from_json limited_json = \<lparr> clr_ok = True, clr_config = limited_config, clr_error = '''' \<rparr>"
  by (simp add: limited_json_def limited_config_def parse_from_json_def section_defs opt_section_def opt_field_def config_maps
      parse_mode_def parse_text_def parse_execution_mode_def parse_non_negative_qty_def parse_non_negative_size_t_def parse_int64_def
      wrap_i64_def Let_def TraderRuntimeConfig_default_def RiskConfig_default_def example_global_config_def example_portfolio_config_def)

lemma limited_load: "load_runtime_config limited_platform [] = Inr limited_config"
  using limited_parse
  by (simp add: load_runtime_config_def resolve_config_path_def get_env_def limited_platform_def example_platform_def config_nl_def
      load_trader_config_from_file_def load_trader_config_from_json_def Let_def)

lemma limited_trader_started: "trader_start limited_platform 0 () [] = Started limited_trader"
proof -
  have c: "resolve_credentials limited_platform limited_config
      = Some \<lparr> cd_key_id = ''trader.json'', cd_private_key_pem = ''trader.json'' \<rparr>"
    by (simp add: resolve_credentials_def get_env_def limited_platform_def example_platform_def limited_config_def
        TraderRuntimeConfig_default_def)
  have p: "build_trader_startup_payload (pf_json limited_platform) (tc_mode limited_config) = Inr ''{}''"
    by (simp add: build_trader_startup_payload_def build_heartbeat_json_def dump_message_def limited_platform_def)
  have "pf_simdjson limited_platform = example_reader" "tc_execution_mode limited_config = Mode_kPaper"
    by (simp_all add: limited_platform_def example_platform_def limited_config_def)
  then show ?thesis by (simp add: paper_trader_starts [OF limited_load _ c p] limited_trader_def)
qed

text \<open>The order manager of that trader, and the run that submits, takes over and processes one intent.\<close>

lemma limited_oms:
  fixes m :: "nat TraderOms"
  defines "m \<equiv> paper_oms limited_platform limited_config"
  shows "om_core m = example_new_core" "om_running m" "om_next_request_id m = 1" "om_outbound_queue m = []" "om_sink m = PositionLedger_new"
    "tr_intent_sink limited_trader = Is_order_manager \<lparr> ois_order_manager = m, ois_last_error = '''' \<rparr>"
    "tr_oms_local limited_trader = []" "tr_config limited_trader = limited_config"
  by (simp_all add: m_def paper_oms_def om_start_def trader_order_manager_def OrderManager_new_def trader_oms_ports_def
      oms_transport_def on_left_def paper_transport_def paper_connect_def Let_def limited_trader_def started_trader_def
      intent_sink_of_def core_reset_def example_new_core_def OrderManagerCore_new_def limited_config_def)

lemma example_run:
  assumes m: "om_core m = example_new_core" "om_running m" "om_next_request_id m = 1" "om_outbound_queue m = []" "om_sink m = PositionLedger_new"
    and ports: "ad_supports (po_adapter ports) example_intent" "po_snapshot_for ports = Some PositionLedger_snapshot_for"
  obtains s where "(om_step ports)\<^sup>*\<^sup>* \<lparr> sy_manager = m, sy_local = [] \<rparr> s" "om_core (sy_manager s) = example_core" "waiting_ids s = []"
    "sy_local s = []" "om_transport (sy_manager s) = (case ad_build_request (po_adapter ports) example_intent of
       Inl e \<Rightarrow> om_transport m | Inr payload \<Rightarrow> fst (ot_send_text (po_transport ports) (om_transport m) payload))"
proof -
  let ?m = "m\<lparr> om_core := example_core, om_next_request_id := 2, om_submitted_count := om_submitted_count m + 1, om_outbound_queue := [] \<rparr>"
  let ?s0 = "\<lparr> sy_manager = m, sy_local = [] \<rparr>"
  let ?s1 = "\<lparr> sy_manager = m\<lparr> om_core := example_core, om_next_request_id := 2, om_outbound_queue := [example_pending],
    om_submitted_count := om_submitted_count m + 1 \<rparr>, sy_local = [] \<rparr>"
  let ?s2 = "\<lparr> sy_manager = ?m, sy_local = [example_pending] \<rparr>"
  let ?s3 = "\<lparr> sy_manager = process_intent ports 5 example_pending ?m, sy_local = [] \<rparr>"
  have "om_step ports ?s0 ?s1"
    using om_step.submit [of ports 5 ?s0 example_intent] example_submit [OF m(1,2) ports(1) m(3)] m(4) by simp
  moreover have "om_step ports ?s1 ?s2" using om_step.swap [of ?s1 ports] by simp
  moreover have "om_step ports ?s2 ?s3" using om_step.process [of ?s2 example_pending "[]" ports 5] by simp
  ultimately have "(om_step ports)\<^sup>*\<^sup>* ?s0 ?s3" by (meson rtranclp.rtrancl_into_rtrancl rtranclp.rtrancl_refl)
  moreover have "process_intent ports 5 example_pending ?m = send_intent ports example_intent ?m"
    by (rule example_process) (simp_all add: m ports)
  ultimately show thesis by (intro that [of ?s3]) (simp_all add: waiting_ids_def waiting_intents_def send_intent_transport split: sum.split)
qed

text \<open>The worker of the order manager runs inside the trader, whatever the other threads do.\<close>

lemma oms_steps_in_trader:
  assumes "(om_step (trader_oms_ports pf))\<^sup>*\<^sup>* \<lparr> sy_manager = ois_order_manager k, sy_local = tr_oms_local t \<rparr> s"
    and "tr_intent_sink t = Is_order_manager k"
  shows "(trader_step pf hash moved_from strategy)\<^sup>*\<^sup>* t
    (t\<lparr> tr_intent_sink := Is_order_manager (k\<lparr>ois_order_manager := sy_manager s\<rparr>), tr_oms_local := sy_local s \<rparr>)"
  using assms(1)
proof (induction rule: rtranclp_induct)
  case base
  have "t\<lparr> tr_intent_sink := Is_order_manager (k\<lparr>ois_order_manager := ois_order_manager k\<rparr>), tr_oms_local := tr_oms_local t \<rparr> = t"
    using assms(2) by (cases t) simp
  then show ?case by simp
next
  case (step y z)
  let ?t = "t\<lparr> tr_intent_sink := Is_order_manager (k\<lparr>ois_order_manager := sy_manager y\<rparr>), tr_oms_local := sy_local y \<rparr>"
  have "trader_step pf hash moved_from strategy ?t
      (?t\<lparr> tr_intent_sink := Is_order_manager (k\<lparr>ois_order_manager := sy_manager y, ois_order_manager := sy_manager z\<rparr>), tr_oms_local := sy_local z \<rparr>)"
    by (rule trader_step.oms) (use step(2) in simp_all)
  with step(3) show ?case by (simp add: rtranclp.rtrancl_into_rtrancl)
qed

lemma limited_trader_run:
  obtains t k where "(trader_step limited_platform length (\<lambda>e. e) noop_strategy)\<^sup>*\<^sup>* limited_trader t"
    "tr_intent_sink t = Is_order_manager k" "om_core (ois_order_manager k) = example_core"
    "waiting_ids \<lparr> sy_manager = ois_order_manager k, sy_local = tr_oms_local t \<rparr> = []"
proof -
  let ?pf = limited_platform and ?k = "\<lparr> ois_order_manager = paper_oms limited_platform limited_config, ois_last_error = '''' \<rparr>"
  have "ad_supports (po_adapter (trader_oms_ports ?pf)) example_intent" "po_snapshot_for (trader_oms_ports ?pf) = Some PositionLedger_snapshot_for"
    by (simp_all add: trader_oms_ports_def kalshi_adapter_def kalshi_supports_def example_intent_defs)
  from example_run [OF limited_oms(1-5) this] obtain s
    where s: "(om_step (trader_oms_ports ?pf))\<^sup>*\<^sup>* \<lparr> sy_manager = ois_order_manager ?k, sy_local = tr_oms_local limited_trader \<rparr> s"
      "om_core (sy_manager s) = example_core" "waiting_ids s = []" by (auto simp: limited_oms(7))
  show thesis
    by (rule that [OF oms_steps_in_trader [OF s(1) limited_oms(6)]], simp) (simp_all add: s(2,3))
qed


theorem trader_exposure_is_bounded_witness:
  "\<exists>t k. (trader_step limited_platform length (\<lambda>e. e) noop_strategy)\<^sup>*\<^sup>* limited_trader t \<and> tr_intent_sink t = Is_order_manager k \<and>
     (let at_exchange = live_orders \<lparr> sy_manager = ois_order_manager k, sy_local = tr_oms_local t \<rparr>
      in length at_exchange = 1 \<and> total_outstanding at_exchange = 10 \<and>
         total_outstanding at_exchange \<le> grc_max_outstanding_qty_global (rc_oms_global (tc_risk limited_config)))"
proof -
  obtain t k where run: "(trader_step limited_platform length (\<lambda>e. e) noop_strategy)\<^sup>*\<^sup>* limited_trader t"
    and k: "tr_intent_sink t = Is_order_manager k" "om_core (ois_order_manager k) = example_core"
      "waiting_ids \<lparr> sy_manager = ois_order_manager k, sy_local = tr_oms_local t \<rparr> = []" by (rule limited_trader_run)
  let ?live = "live_orders \<lparr> sy_manager = ois_order_manager k, sy_local = tr_oms_local t \<rparr>"
  have live: "?live = [(''A'', place_order 1 example_intent)]"
    by (simp add: live_orders_def k active_orders_def example_core_orders)
  then have "length ?live = 1 \<and> total_outstanding ?live = 10"
    by (simp add: total_outstanding_def outstanding_qty_def place_order_def example_intent_defs)
  moreover have "total_requested (om_core (ois_order_manager k)) < 2 ^ 63"
    by (simp add: k total_requested_def example_core_orders place_order_def example_intent_defs)
  moreover have "rc_oms_global (tc_risk limited_config) = example_global_config" by (simp add: limited_config_def)
  moreover have "0 < grc_max_outstanding_qty_global example_global_config" by (simp add: example_global_config_def)
  ultimately show ?thesis
    using trader_exposure_is_bounded [OF limited_trader_started run k(1)] run k(1) by (auto simp: limited_oms(8) Let_def)
qed

end
