(* ===== verification/Paper_Account.thy ===== *)
theory Paper_Account
  imports Kalshi_Orders Order_Exposure
begin

text \<open>
  The account of a paper trader: the order manager of \<open>oms/order_manager.cpp\<close> behind the adapter of
  \<open>kalshi/oms_adapter.cpp\<close> and the simulated exchange of \<open>oms/paper_order_transport.cpp\<close>. The position the ledger
  records for a market is, in every interleaving, the sum of the orders the core has filled there: no fill is lost,
  duplicated or booked to another market on its way through the wire format.
\<close>

section \<open>What the core says the position is\<close>

definition filled_qty :: "string \<Rightarrow> InFlightOrder \<Rightarrow> int" where
  "filled_qty market ord = (if ord_status ord = If_kFilled \<and> ord_market_ticker ord = market
     then side_to_signed_qty (ord_side ord) (ord_requested_qty_lots ord) else 0)"

definition filled_position :: "OrderManagerCore \<Rightarrow> string \<Rightarrow> int" where
  "filled_position c market = sum_list (map (\<lambda>e. filled_qty market (snd e)) (oc_in_flight_orders c))"

lemma filled_position_update:
  assumes "oc_in_flight_orders c' = AList.update k ord' (oc_in_flight_orders c)"
  shows "filled_position c' market = filled_position c market + filled_qty market ord' -
    (case tracked c k of Some ord \<Rightarrow> filled_qty market ord | None \<Rightarrow> 0)"
  by (simp add: filled_position_def assms sum_list_upd split: option.split)

lemma filled_position_cong: "oc_in_flight_orders c' = oc_in_flight_orders c \<Longrightarrow> filled_position c' market = filled_position c market"
  by (simp add: filled_position_def)

lemma validate_filled_position:
  assumes "validate_and_track_submission c rid i = (c', r)"
  shows "filled_position c' market = filled_position c market"
  using assms
  by (cases rule: validate_trackE)
    (auto simp: track_def filled_qty_def filled_position_update intro: filled_position_cong)

text \<open>An update that does not fill an order leaves the sum alone.\<close>

lemma update_filled_position:
  assumes upd: "apply_update_transition now c u = (c', u', r)" and other: "ou_status u \<noteq> St_kFilled"
  shows "filled_position c' market = filled_position c market"
  using upd
proof (cases rule: apply_updateE)
  case rejected
  then show ?thesis by (intro filled_position_cong) simp
next
  case (applied k ord nxt)
  have "nxt \<noteq> If_kFilled" using other applied(3) by (cases "ou_status u") auto
  then have "ord_status ord \<noteq> If_kFilled" using applied(4) by (auto simp: terminal_final)
  with \<open>nxt \<noteq> If_kFilled\<close> show ?thesis
    using filled_position_update [OF applied(6)] find_order_tracked [OF applied(2)] by (simp add: filled_qty_def)
qed

section \<open>Fills on their way\<close>

text \<open>A fill that belongs to a tracked order: same side, same quantity, a market, and a side the ledger can book.\<close>

definition fill_matches :: "InFlightOrder \<Rightarrow> OrderStateUpdate \<Rightarrow> bool" where
  "fill_matches ord u \<longleftrightarrow> ou_exchange u = Ex_kKalshi \<and> ord_side ord \<noteq> Side_kUnknown \<and> 0 < ord_requested_qty_lots ord \<and>
     ou_market_ticker u \<noteq> '''' \<and>
     (\<exists>f. ou_data u = Upd_Fill f \<and> of_market_ticker f = ou_market_ticker u \<and> of_side f = ord_side ord \<and>
        of_fill_qty_lots f = ord_requested_qty_lots ord)"

lemma transition_order_ticker:
  "ord_market_ticker (fst (transition_order now s ord u)) = (if ou_market_ticker u \<noteq> '''' then ou_market_ticker u else ord_market_ticker ord)"
  by (cases "ou_data u") (simp_all add: transition_defs)

lemma fill_moves_net:
  assumes ap: "apply_fill l u f = (l', Inr ())" and q: "q = side_to_signed_qty (of_side f) (of_fill_qty_lots f)" "in_i64 q"
    and t: "of_market_ticker f \<noteq> ''''"
  shows "net_position l' k = (if k = (ou_exchange u, of_market_ticker f) then wrap_i64 (net_position l k + q) else net_position l k)"
proof -
  let ?key = "(ou_exchange u, of_market_ticker f)"
  obtain p where p: "p = stamp_fill (position_or_new l ?key) u (of_market_ticker f) f q"
    and upd: "pl_positions l' = AList.update ?key (fill_position p q (of_fill_price_ticks f)) (pl_positions l)"
    and new: "position_or_new l' ?key = fill_position p q (of_fill_price_ticks f)"
    by (rule apply_fill_position [OF ap _ q(1), of "of_market_ticker f"]) (use t in simp_all)
  have "mp_net_qty_lots p = net_position l ?key" by (simp add: p net_position_def)
  then have "net_position l' ?key = wrap_i64 (net_position l ?key + q)"
    using fill_position_net [of p q "of_fill_price_ticks f"] q(2)
    by (cases "mp_net_qty_lots p = 0") (simp_all add: net_position_def [of l'] new)
  moreover have "k \<noteq> ?key \<Longrightarrow> net_position l' k = net_position l k"
    by (simp add: net_position_def position_or_new_def upd)
  ultimately show ?thesis by simp
qed

text \<open>Booking a fill of an order that can still be filled moves ledger and core alike.\<close>

lemma matching_fill_booked:
  fixes m :: "('t, PositionLedger) OrderManager"
  assumes ports: "po_on_order_update ports = PositionLedger_on_order_update"
    and ord: "tracked (om_core m) (ou_client_order_id u) = Some ord" "ord_status ord \<noteq> If_kFilled" "fill_matches ord u"
      "in_i64 (ord_requested_qty_lots ord)"
    and u: "ou_status u = St_kFilled" and upd: "apply_update_transition now (om_core m) u = (c', u', Inr ())"
    and rec: "\<And>k. net_position (led_core (om_sink m)) (Ex_kKalshi, k) = wrap_i64 (filled_position (om_core m) k)"
  shows "net_position (led_core (om_sink (forward_update ports u' (m\<lparr>om_core := c'\<rparr>)))) (Ex_kKalshi, market)
    = wrap_i64 (filled_position c' market)"
proof -
  let ?c = "om_core m" and ?l = "led_core (om_sink m)" and ?o = "fst (transition_order now If_kFilled ord u)"
  let ?q = "side_to_signed_qty (ord_side ord) (ord_requested_qty_lots ord)"
  obtain f where f: "ou_data u = Upd_Fill f" "of_market_ticker f = ou_market_ticker u" "of_side f = ord_side ord"
      "of_fill_qty_lots f = ord_requested_qty_lots ord" "of_side f \<noteq> Side_kUnknown" "of_market_ticker f \<noteq> ''''"
      "0 < of_fill_qty_lots f" "ou_exchange u = Ex_kKalshi"
    using ord(3) by (auto simp: fill_matches_def)
  have find: "find_order ?c u = Some (ou_client_order_id u, ord)" using ord(1) by (simp add: find_order_def)
  have "u' = snd (transition_order now If_kFilled ord u) \<and>
      oc_in_flight_orders c' = AList.update (ou_client_order_id u) ?o (oc_in_flight_orders ?c)"
    using upd by (cases rule: apply_updateE) (use find u in auto)
  moreover have "snd (transition_order now If_kFilled ord u) = u"
    using f by (simp add: transition_order_forwarded enriched_data_def)
  ultimately have u': "u' = u" and orders: "oc_in_flight_orders c' = AList.update (ou_client_order_id u) ?o (oc_in_flight_orders ?c)"
    by simp_all
  have "ord_side ?o = ord_side ord" "ord_market_ticker ?o = of_market_ticker f"
    using f by (simp_all add: transition_order_side transition_order_ticker)
  then have core: "filled_position c' market = filled_position ?c market + (if market = of_market_ticker f then ?q else 0)"
    using filled_position_update [OF orders, of market] ord(1,2) by (simp add: filled_qty_def)
  have applied: "snd (apply_fill ?l u f) = Inr ()" using apply_fill_applied f ord(4) by simp
  have "led_core (om_sink (forward_update ports u' (m\<lparr>om_core := c'\<rparr>))) = fst (apply_fill ?l u f)"
    using applied f(1) u ports
    by (cases "apply_fill ?l u f") (simp add: u' PositionLedger_on_order_update_def ledger_on_order_update_def)
  moreover have "apply_fill ?l u f = (fst (apply_fill ?l u f), Inr ())" using applied by (metis prod.collapse)
  moreover have "in_i64 ?q" using f(5) ord(4) by (cases "ord_side ord") (simp_all add: f(3))
  ultimately show ?thesis
    using fill_moves_net [of ?l u f "fst (apply_fill ?l u f)" ?q "(Ex_kKalshi, market)"] f core
    by (simp add: wrap_add_left rec)
qed

section \<open>The answers of the paper exchange\<close>

text \<open>The updates that wait in the transport, as the adapter will read them.\<close>

definition inbox :: "Nlohmann \<Rightarrow> PaperOrderTransport \<Rightarrow> OrderStateUpdate list" where
  "inbox nl p = List.map_filter (\<lambda>raw. opr_value (kalshi_parse_update nl raw)) (pt_inbound_updates p)"

lemma map_filter_snoc:
  "List.map_filter f (xs @ [x]) = List.map_filter f xs @ (case f x of Some y \<Rightarrow> [y] | None \<Rightarrow> [])"
  by (induction xs) (simp_all add: map_filter_simps split: option.split)

lemma inbox_cong: "pt_inbound_updates p' = pt_inbound_updates p \<Longrightarrow> inbox nl p' = inbox nl p"
  by (simp add: inbox_def)

lemma paper_pushE:
  assumes "nl_lawful nl" "paper_push nl doc p = (p', r)"
  obtains (thrown) e where "r = Inl e" "inbox nl p' = inbox nl p"
    | (pushed) raw ts where "r = Inr ()" "nl_parse nl raw = Some (doc ts)"
        "inbox nl p' = inbox nl p @ (case opr_value (kalshi_parse_update nl raw) of Some u \<Rightarrow> [u] | None \<Rightarrow> [])"
proof (cases "nl_dump nl (doc (pt_next_recv_ts_ns p))")
  case (Inl what)
  with assms(2) show ?thesis by (intro thrown) (auto simp: paper_push_def inbox_def)
next
  case (Inr raw)
  with assms show ?thesis
    by (intro pushed [of raw "pt_next_recv_ts_ns p"]) (auto simp: paper_push_def nl_lawful_def inbox_def map_filter_snoc)
qed

lemma parse_ack_doc:
  assumes "nl_lawful nl" "nl_parse nl raw = Some (paper_ack_json ts c e market q)"
  shows "\<exists>u. opr_value (kalshi_parse_update nl raw) = Some u \<and> ou_status u = St_kAccepted"
  using assms
  by (simp add: kalshi_parse_update_def nl_lawful_def paper_ack_json_def parse_ack_def recv_ts_of_def try_get_qty_def
      oms_parse_success_def Let_def)

lemma parse_reject_doc:
  assumes "nl_lawful nl" "nl_parse nl raw = Some (paper_reject_json ts c market)"
  shows "\<exists>u. opr_value (kalshi_parse_update nl raw) = Some u \<and> ou_status u = St_kRejected"
  using assms
  by (simp add: kalshi_parse_update_def nl_lawful_def paper_reject_json_def parse_reject_def recv_ts_of_def
      oms_parse_success_def Let_def)

lemma parse_fill_doc:
  assumes "nl_lawful nl" "nl_parse nl raw = Some (paper_fill_json ts c e market q price (side_to_string side))" "side \<noteq> Side_kUnknown"
  shows "\<exists>u f. opr_value (kalshi_parse_update nl raw) = Some u \<and> ou_status u = St_kFilled \<and> ou_client_order_id u = c \<and>
    ou_exchange u = Ex_kKalshi \<and> ou_market_ticker u = market \<and> ou_data u = Upd_Fill f \<and> of_market_ticker f = market \<and>
    of_side f = side \<and> of_fill_qty_lots f = wrap_i64 q"
  using assms
  by (simp add: kalshi_parse_update_def nl_lawful_def paper_fill_json_def parse_fill_def recv_ts_of_def try_get_qty_def
      try_get_price_def try_get_side_def side_round_trip oms_parse_success_def Let_def)

text \<open>
  What a request of the adapter adds to the inbox: acknowledgements and rejects, and for a place request at most
  one fill, of the order it asks for.
\<close>

definition is_fill :: "OrderStateUpdate \<Rightarrow> bool" where
  "is_fill u \<longleftrightarrow> ou_status u = St_kFilled"

definition plain :: "OrderStateUpdate \<Rightarrow> bool" where
  "plain u \<longleftrightarrow> ou_status u \<in> {St_kAccepted, St_kRejected, St_kFilled}"

definition fill_of_intent :: "OrderIntent \<Rightarrow> OrderStateUpdate \<Rightarrow> bool" where
  "fill_of_intent i u \<longleftrightarrow> ou_client_order_id u = oi_client_order_id i \<and> ou_exchange u = Ex_kKalshi \<and> oi_side i \<noteq> Side_kUnknown \<and>
     0 < oi_qty_lots i \<and> ou_market_ticker u \<noteq> '''' \<and>
     (\<exists>f. ou_data u = Upd_Fill f \<and> of_market_ticker f = ou_market_ticker u \<and> of_side f = oi_side i \<and> of_fill_qty_lots f = wrap_i64 (oi_qty_lots i))"

definition answers :: "OrderIntent \<Rightarrow> OrderStateUpdate list \<Rightarrow> bool" where
  "answers i us \<longleftrightarrow> list_all plain us \<and>
     (filter is_fill us = [] \<or> (\<exists>u. filter is_fill us = [u] \<and> oi_action i = Act_kPlace \<and> fill_of_intent i u))"

lemma place_answers:
  assumes lib: "nl_lawful nl" and i: "oi_action i = Act_kPlace" "oi_side i \<noteq> Side_kUnknown" "0 < oi_qty_lots i" "oi_market_ticker i \<noteq> ''''"
    and place: "paper_place nl (oi_client_order_id i) (oi_market_ticker i) (wrap_i64 (oi_qty_lots i)) price (side_to_string (oi_side i)) p = (p', r)"
  shows "\<exists>us. inbox nl p' = inbox nl p @ us \<and> answers i us"
proof -
  let ?p = "p\<lparr>pt_next_exchange_order_id := pt_next_exchange_order_id p + 1\<rparr>"
  let ?e = "''paper-ex-'' @ std_to_string (unat (pt_next_exchange_order_id p))"
  let ?ack = "\<lambda>ts. paper_ack_json ts (oi_client_order_id i) ?e (oi_market_ticker i) (wrap_i64 (oi_qty_lots i))"
  let ?fill = "\<lambda>ts. paper_fill_json ts (oi_client_order_id i) ?e (oi_market_ticker i) (wrap_i64 (oi_qty_lots i)) price (side_to_string (oi_side i))"
  obtain p1 r1 where ack: "paper_push nl ?ack ?p = (p1, r1)" by fastforce
  obtain p2 r2 where fill: "paper_push nl ?fill p1 = (p2, r2)" by fastforce
  have start: "inbox nl ?p = inbox nl p" by (simp add: inbox_def)
  from lib ack show ?thesis
  proof (cases rule: paper_pushE)
    case (thrown e)
    with place ack start show ?thesis by (intro exI [of _ "[]"]) (simp add: paper_place_def answers_def)
  next
    case (pushed raw ts)
    obtain a where a: "opr_value (kalshi_parse_update nl raw) = Some a" "ou_status a = St_kAccepted"
      using parse_ack_doc [OF lib pushed(2)] by blast
    have p1: "inbox nl p1 = inbox nl p @ [a]" using pushed(3) a(1) start by simp
    have plain: "plain a" "\<not> is_fill a" using a(2) by (simp_all add: plain_def is_fill_def)
    from lib fill show ?thesis
    proof (cases rule: paper_pushE)
      case (thrown e)
      then have "inbox nl p' = inbox nl p @ [a]" using place ack fill pushed(1) p1 by (auto simp: paper_place_def inbox_def split: if_splits)
      then show ?thesis using plain by (intro exI [of _ "[a]"]) (simp add: answers_def)
    next
      case filled: (pushed raw' ts')
      obtain b where b: "opr_value (kalshi_parse_update nl raw') = Some b" "ou_status b = St_kFilled" "fill_of_intent i b"
        using parse_fill_doc [OF lib filled(2) i(2)] i by (auto simp: fill_of_intent_def)
      have "inbox nl p' = inbox nl p @ [a] \<or> inbox nl p' = inbox nl p @ [a, b]"
        using place ack fill pushed(1) filled(1,3) b(1) p1 by (auto simp: paper_place_def inbox_def split: if_splits)
      moreover have "answers i [a]" "answers i [a, b]"
        using plain b(2,3) i(1) by (simp_all add: answers_def) (simp add: plain_def is_fill_def)
      ultimately show ?thesis by blast
    qed
  qed
qed

lemma answers_nothing: "inbox nl p' = inbox nl p \<Longrightarrow> \<exists>us. inbox nl p' = inbox nl p @ us \<and> answers i us"
  by (intro exI [of _ "[]"]) (simp add: answers_def)

lemma other_request_answers:
  assumes lib: "nl_lawful nl" and req: "nl_parse nl payload = Some j" "json_find j ''action'' = Some (Json_string a)" "a \<noteq> ''place_order''"
    and send: "paper_send_text nl p payload = (p', r)"
  shows "\<exists>us. inbox nl p' = inbox nl p @ us \<and> answers i us"
proof (cases "inbox nl p' = inbox nl p")
  case True
  then show ?thesis by (rule answers_nothing)
next
  case False
  let ?doc = "\<lambda>ts c. paper_reject_json ts c (case try_get_string j ''market_ticker'' of Some m \<Rightarrow> m | None \<Rightarrow> ''paper'')"
  have act: "try_get_string j ''action'' = Some a" using req(2) by simp
  obtain c where c: "try_get_string j ''client_order_id'' = Some c"
    using send False req(1) act
    by (cases "try_get_string j ''client_order_id''") (auto simp: paper_send_text_def inbox_def split: if_splits)
  define doc where "doc = (\<lambda>ts. ?doc ts c)"
  obtain p1 r1 where push1: "paper_push nl doc p = (p1, r1)" by fastforce
  then have "inbox nl p' = inbox nl p1"
    using send False req(1,3) act c
    by (cases r1) (auto simp: paper_send_text_def inbox_def simp flip: doc_def split: if_splits)
  with push1 have push: "paper_push nl (\<lambda>ts. ?doc ts c) p = (p1, r1)" "inbox nl p' = inbox nl p1" by (simp_all add: doc_def)
  from lib push(1) show ?thesis
  proof (cases rule: paper_pushE)
    case (thrown e)
    with push(2) False show ?thesis by simp
  next
    case (pushed raw ts)
    obtain u where "opr_value (kalshi_parse_update nl raw) = Some u" "ou_status u = St_kRejected"
      using parse_reject_doc [OF lib pushed(2)] by blast
    with pushed(3) push(2) show ?thesis by (intro exI [of _ "[u]"]) (simp add: answers_def plain_def is_fill_def)
  qed
qed

lemma request_answers:
  assumes lib: "nl_lawful nl" and req: "kalshi_build_request nl i = Inr payload" and send: "paper_send_text nl p payload = (p', r)"
  shows "\<exists>us. inbox nl p' = inbox nl p @ us \<and> answers i us"
proof (cases "oi_action i = Act_kPlace")
  case True
  from req True obtain price where doc: "nl_dump nl (place_json i price) = Inr payload"
    and i: "oi_client_order_id i \<noteq> ''''" "oi_market_ticker i \<noteq> ''''" "0 < oi_qty_lots i" "oi_side i \<noteq> Side_kUnknown"
    by (rule place_requestE)
  have "nl_parse nl payload = Some (place_json i price)" using lib doc by (simp add: nl_lawful_def)
  then have "inbox nl p' = inbox nl p \<or> paper_place nl (oi_client_order_id i) (oi_market_ticker i) (wrap_i64 (oi_qty_lots i))
      (wrap_i64 price) (side_to_string (oi_side i)) p = (p', r)"
    using send i(1) True by (auto simp: paper_send_text_def place_json_def inbox_def Let_def split: if_splits)
  then show ?thesis using answers_nothing place_answers [OF lib True i(4,3,2)] by blast
next
  case False
  have "\<exists>j. nl_dump nl j = Inr payload \<and> json_find j ''action'' = Some (Json_string (action_to_string (oi_action i)))"
    using req False
    by (cases "oi_action i")
      (auto simp: kalshi_build_request_def build_cancel_request_def build_replace_request_def dump_request_def cancel_json_def
        set_targets_def Let_def split: option.splits if_splits sum.splits)
  then obtain j where "nl_parse nl payload = Some j" "json_find j ''action'' = Some (Json_string (action_to_string (oi_action i)))"
    using lib by (auto simp: nl_lawful_def)
  moreover have "action_to_string (oi_action i) \<noteq> ''place_order''" using False by (cases "oi_action i") simp_all
  ultimately show ?thesis using other_request_answers [OF lib _ _ _ send] by blast
qed

section \<open>The account in balance\<close>

text \<open>
  The ledger agrees with the filled orders, every fill on its way belongs to one order that is neither filled nor
  waiting, and no filled order waits: so every fill will be booked once.
\<close>

definition reconciled :: "('t, PositionLedger) OmsSystem \<Rightarrow> bool" where
  "reconciled s \<longleftrightarrow> (\<forall>market. net_position (led_core (om_sink (sy_manager s))) (Ex_kKalshi, market)
     = wrap_i64 (filled_position (om_core (sy_manager s)) market))"

definition fill_expected :: "('t, PositionLedger) OmsSystem \<Rightarrow> OrderStateUpdate \<Rightarrow> bool" where
  "fill_expected s u \<longleftrightarrow> ou_client_order_id u \<notin> set (waiting_ids s) \<and>
     (\<exists>ord. tracked (om_core (sy_manager s)) (ou_client_order_id u) = Some ord \<and> ord_status ord \<noteq> If_kFilled \<and> fill_matches ord u)"

definition fills_expected :: "OrderStateUpdate list \<Rightarrow> ('t, PositionLedger) OmsSystem \<Rightarrow> bool" where
  "fills_expected us s \<longleftrightarrow> list_all plain us \<and> distinct (map ou_client_order_id (filter is_fill us)) \<and>
     list_all (fill_expected s) (filter is_fill us)"

definition filled_done :: "('t, PositionLedger) OmsSystem \<Rightarrow> bool" where
  "filled_done s \<longleftrightarrow> (\<forall>k ord. tracked (om_core (sy_manager s)) k = Some ord \<and> ord_status ord = If_kFilled \<longrightarrow> k \<notin> set (waiting_ids s))"

definition account_inv :: "OrderStateUpdate list \<Rightarrow> ('t, PositionLedger) OmsSystem \<Rightarrow> bool" where
  "account_inv us s \<longleftrightarrow> waiting_once s \<and> waiting_tracked s \<and> fills_expected us s \<and> filled_done s \<and> reconciled s"

text \<open>A change of the core that fills no order and keeps what the fills on their way refer to.\<close>

definition quiet :: "OrderManagerCore \<Rightarrow> OrderManagerCore \<Rightarrow> bool" where
  "quiet c c' \<longleftrightarrow> (\<forall>k ord. tracked c k = Some ord \<longrightarrow> (\<exists>ord'. tracked c' k = Some ord' \<and> order_shrinks ord ord' \<and>
       (ord_status ord' = If_kFilled \<longleftrightarrow> ord_status ord = If_kFilled))) \<and>
     (\<forall>k ord'. tracked c' k = Some ord' \<and> tracked c k = None \<longrightarrow> ord_status ord' \<noteq> If_kFilled) \<and>
     (\<forall>market. filled_position c' market = filled_position c market)"

lemma quiet_same: "oc_in_flight_orders c' = oc_in_flight_orders c \<Longrightarrow> quiet c c'"
  by (auto simp: quiet_def order_shrinks_def filled_position_def)

lemma quiet_cong: "oc_in_flight_orders c1 = oc_in_flight_orders c \<Longrightarrow> quiet c1 c' \<longleftrightarrow> quiet c c'"
  by (simp add: quiet_def filled_position_def)

lemma quiet_validate:
  assumes "validate_and_track_submission c rid i = (c', r)"
  shows "quiet c c'"
proof -
  have "ord_status ord \<noteq> If_kFilled" if "tracked c' k = Some ord" "tracked c k = None" for k ord
    using assms by (cases rule: validate_trackE) (use that in \<open>auto split: if_splits\<close>)
  then show ?thesis
    using validate_keeps_tracked [OF assms] validate_filled_position [OF assms]
    by (fastforce simp: quiet_def order_shrinks_def)
qed

lemma quiet_update:
  assumes upd: "apply_update_transition now c u = (c', u', r)" and other: "ou_status u \<noteq> St_kFilled"
  shows "quiet c c'"
proof -
  have keep: "\<exists>ord'. tracked c' k = Some ord' \<and> order_shrinks ord ord' \<and> (ord_status ord' = If_kFilled \<longleftrightarrow> ord_status ord = If_kFilled)"
    if ord: "tracked c k = Some ord" for k ord
  proof -
    obtain ord' where ord': "tracked c' k = Some ord'" "order_shrinks ord ord'"
      using core_step_shrinks [OF core_step.step_update [OF upd] ord] by blast
    have "ord_status ord' = If_kFilled \<longleftrightarrow> ord_status ord = If_kFilled"
      using upd
    proof (cases rule: apply_updateE)
      case (applied k' ord0 nxt)
      have nxt: "nxt \<noteq> If_kFilled" using other applied(3) by (cases "ou_status u") auto
      then have "ord_status ord0 \<noteq> If_kFilled" using applied(4) by (auto simp: terminal_final)
      with nxt show ?thesis
        using ord ord'(1) find_order_tracked [OF applied(2)] by (cases "k = k'") (auto simp: applied(6))
    qed (use ord ord'(1) in simp)
    with ord' show ?thesis by blast
  qed
  have old: "tracked c k \<noteq> None" if "tracked c' k = Some ord'" for k ord'
    using upd by (cases rule: apply_updateE) (use that in \<open>auto dest!: find_order_tracked split: if_splits\<close>)
  show ?thesis unfolding quiet_def using keep old update_filled_position [OF upd other] by blast
qed

lemma fill_matches_shrinks: "fill_matches ord u \<Longrightarrow> order_shrinks ord ord' \<Longrightarrow> fill_matches ord' u"
  by (auto simp: fill_matches_def order_shrinks_def)

lemma quiet_fill_expected:
  assumes "fill_expected s u" "quiet (om_core (sy_manager s)) (om_core (sy_manager s'))"
    and "set (waiting_ids s') \<subseteq> set (waiting_ids s) \<union> {k. tracked (om_core (sy_manager s)) k = None}"
  shows "fill_expected s' u"
proof -
  let ?c = "om_core (sy_manager s)" and ?c' = "om_core (sy_manager s')" and ?k = "ou_client_order_id u"
  from assms(1) obtain ord where ord: "tracked ?c ?k = Some ord" "ord_status ord \<noteq> If_kFilled" "fill_matches ord u"
    and w: "?k \<notin> set (waiting_ids s)" by (auto simp: fill_expected_def)
  from assms(2) ord(1) obtain ord' where ord': "tracked ?c' ?k = Some ord'" "order_shrinks ord ord'"
    "ord_status ord' = If_kFilled \<longleftrightarrow> ord_status ord = If_kFilled" unfolding quiet_def by meson
  have "?k \<notin> set (waiting_ids s')" using assms(3) w ord(1) by auto
  with ord' ord(2) fill_matches_shrinks [OF ord(3) ord'(2)] show ?thesis by (auto simp: fill_expected_def)
qed

lemma quiet_filled_done:
  assumes "filled_done s" "quiet (om_core (sy_manager s)) (om_core (sy_manager s'))"
    and "set (waiting_ids s') \<subseteq> set (waiting_ids s) \<union> {k. tracked (om_core (sy_manager s)) k = None}"
  shows "filled_done s'"
  unfolding filled_done_def
proof (intro allI impI, elim conjE)
  fix k ord'
  let ?c = "om_core (sy_manager s)"
  assume ord': "tracked (om_core (sy_manager s')) k = Some ord'" "ord_status ord' = If_kFilled"
  then obtain ord where ord: "tracked ?c k = Some ord" using assms(2) by (cases "tracked ?c k") (auto simp: quiet_def)
  with ord' assms(2) have "ord_status ord = If_kFilled" unfolding quiet_def by (metis option.inject)
  with ord assms(1,3) show "k \<notin> set (waiting_ids s')" by (auto simp: filled_done_def)
qed

lemma account_quiet:
  assumes inv: "account_inv us s" and quiet: "quiet (om_core (sy_manager s)) (om_core (sy_manager s'))"
    and flat: "\<And>k. net_position (led_core (om_sink (sy_manager s'))) k = net_position (led_core (om_sink (sy_manager s))) k"
    and waiting: "waiting_once s'" "waiting_tracked s'"
      "set (waiting_ids s') \<subseteq> set (waiting_ids s) \<union> {k. tracked (om_core (sy_manager s)) k = None}"
    and us': "list_all plain us'" "filter is_fill us' = filter is_fill us"
  shows "account_inv us' s'"
proof -
  have "fills_expected us' s'"
    using inv us' quiet_fill_expected [OF _ quiet waiting(3)]
    by (simp add: account_inv_def fills_expected_def list_all_iff)
  moreover have "filled_done s'" using quiet_filled_done [OF _ quiet waiting(3)] inv by (simp add: account_inv_def)
  moreover have "reconciled s'" using inv flat quiet by (simp add: account_inv_def reconciled_def quiet_def)
  ultimately show ?thesis using waiting by (simp add: account_inv_def)
qed

lemma account_drop: "account_inv (u # us) s \<Longrightarrow> account_inv us s"
  by (simp add: account_inv_def fills_expected_def split: if_splits)

text \<open>The answer to a place request announces the fill of its order, which has just stopped waiting.\<close>

lemma account_new_fill:
  assumes inv: "account_inv us s" and i: "i \<in> set (waiting_intents s)" "waiting_ids s = oi_client_order_id i # waiting_ids s'" "order_creating i"
    and same: "om_core (sy_manager s') = om_core (sy_manager s)" "om_sink (sy_manager s') = om_sink (sy_manager s)"
    and range: "\<And>k ord. tracked (om_core (sy_manager s)) k = Some ord \<Longrightarrow> in_i64 (ord_requested_qty_lots ord)"
    and waiting: "waiting_once s'" "waiting_tracked s'"
    and new: "list_all plain us'" "filter is_fill us' = [u]" "fill_of_intent i u"
  shows "account_inv (us @ us') s'"
proof -
  let ?c = "om_core (sy_manager s)" and ?k = "oi_client_order_id i"
  have quiet: "quiet ?c (om_core (sy_manager s'))" by (rule quiet_same) (simp add: same)
  have sub: "set (waiting_ids s') \<subseteq> set (waiting_ids s) \<union> {k. tracked ?c k = None}" by (auto simp: i(2))
  obtain ord where ord: "tracked ?c ?k = Some ord" "ord_requested_qty_lots ord = oi_qty_lots i" "ord_side ord = oi_side i"
    using inv i(1,3) new(3) by (auto simp: account_inv_def waiting_tracked_def fill_of_intent_def)
  have "ord_status ord \<noteq> If_kFilled" using inv ord(1) i(2) by (auto simp: account_inv_def filled_done_def)
  moreover have "fill_matches ord u" using new(3) ord range [OF ord(1)] by (auto simp: fill_of_intent_def fill_matches_def wrap_in_range)
  moreover have uk: "ou_client_order_id u = ?k" using new(3) by (simp add: fill_of_intent_def)
  moreover have "?k \<notin> set (waiting_ids s')" using inv i(2) by (simp add: account_inv_def waiting_once_def)
  ultimately have "fill_expected s' u" using ord(1) by (auto simp: fill_expected_def same)
  moreover have "list_all (fill_expected s') (filter is_fill us)"
    using inv quiet_fill_expected [OF _ quiet sub] by (simp add: account_inv_def fills_expected_def list_all_iff)
  moreover have "?k \<notin> ou_client_order_id ` set (filter is_fill us)"
    using inv i(2) by (force simp: account_inv_def fills_expected_def fill_expected_def list_all_iff)
  ultimately have "fills_expected (us @ us') s'"
    using inv new(1,2) uk by (auto simp: account_inv_def fills_expected_def)
  moreover have "filled_done s'" using quiet_filled_done [OF _ quiet sub] inv by (simp add: account_inv_def)
  moreover have "reconciled s'" using inv by (simp add: account_inv_def reconciled_def same)
  ultimately show ?thesis using waiting by (simp add: account_inv_def)
qed

text \<open>A fill that arrives is booked, in the core and in the ledger.\<close>

lemma account_fill_booked:
  fixes s :: "('t, PositionLedger) OmsSystem" and ports :: "('t, PositionLedger) OmsPorts"
  assumes inv: "account_inv (u # us) s" and u: "is_fill u" and ports: "po_on_order_update ports = PositionLedger_on_order_update"
    and range: "\<And>k ord. tracked (om_core (sy_manager s)) k = Some ord \<Longrightarrow> in_i64 (ord_requested_qty_lots ord)"
    and upd: "apply_update_transition now (om_core (sy_manager s)) u = (c', u', Inr ())"
    and s': "om_core (sy_manager s') = c'" "led_core (om_sink (sy_manager s')) = led_core (fst (PositionLedger_on_order_update (om_sink (sy_manager s)) u'))"
      "waiting_ids s' = waiting_ids s" "waiting_once s'" "waiting_tracked s'"
  shows "account_inv us s'"
proof -
  let ?m = "sy_manager s" and ?k = "ou_client_order_id u"
  from inv u obtain ord where ord: "tracked (om_core ?m) ?k = Some ord" "ord_status ord \<noteq> If_kFilled" "fill_matches ord u"
    and free: "?k \<notin> set (waiting_ids s)" "?k \<notin> ou_client_order_id ` set (filter is_fill us)"
    by (auto simp: account_inv_def fills_expected_def fill_expected_def)
  have find: "find_order (om_core ?m) u = Some (?k, ord)" using ord(1) by (simp add: find_order_def)
  have others: "tracked c' k = tracked (om_core ?m) k" if "k \<noteq> ?k" for k
    using upd by (cases rule: apply_updateE) (use find that in auto)
  have "reconciled s'"
    using matching_fill_booked [OF ports ord range [OF ord(1)] _ upd] u inv ports
    by (simp add: reconciled_def account_inv_def s'(1,2) is_fill_def)
  moreover have "fill_expected s' w" if "w \<in> set us" "is_fill w" for w
  proof -
    have "w \<in> set (filter is_fill us)" using that by simp
    then have "ou_client_order_id w \<noteq> ?k" using free(2) by (metis image_eqI)
    with that inv u others show ?thesis
      by (auto simp: account_inv_def fills_expected_def fill_expected_def list_all_iff s'(1,3))
  qed
  then have "fills_expected us s'" using inv by (auto simp: account_inv_def fills_expected_def list_all_iff split: if_splits)
  moreover have "filled_done s'"
    using inv free(1) others unfolding account_inv_def filled_done_def s'(1,3) by metis
  ultimately show ?thesis using s'(4,5) by (simp add: account_inv_def)
qed

lemma ledger_flat:
  "ou_status u \<notin> {St_kFilled, St_kPartiallyFilled} \<Longrightarrow>
   net_position (led_core (fst (PositionLedger_on_order_update l u))) k = net_position (led_core l) k"
  by (auto simp: PositionLedger_on_order_update_def ledger_on_order_update_def intro: net_position_cong)

lemma forwarded_status: "apply_update_transition now c u = (c', u', r) \<Longrightarrow> ou_status u' = ou_status u"
  by (erule apply_updateE) (simp_all add: transition_order_forwarded)

lemma waiting_ids_grow:
  "om_step ports s s' \<Longrightarrow> set (waiting_ids s') \<subseteq> set (waiting_ids s) \<union> {k. tracked (om_core (sy_manager s)) k = None}"
  by (erule waiting_ids_step) auto

section \<open>The order manager on the paper exchange\<close>

text \<open>
  A transport that behaves like the paper exchange, seen through \<open>paper\<close>, behind the Kalshi adapter and with the
  position ledger as event sink.
\<close>

locale paper_exchange =
  fixes nl :: Nlohmann and ports :: "('t, PositionLedger) OmsPorts" and paper :: "'t \<Rightarrow> PaperOrderTransport option"
  assumes adapter: "po_adapter ports = kalshi_adapter nl"
    and ledger: "po_on_order_update ports = PositionLedger_on_order_update"
    and sends: "paper t = Some p \<Longrightarrow>
      paper (fst (ot_send_text (po_transport ports) t payload)) = Some (fst (paper_send_text nl p payload))"
    and receives: "paper t = Some p \<Longrightarrow> ot_recv_text (po_transport ports) t = (t', message) \<Longrightarrow>
      paper t' = Some (fst (paper_recv_text p)) \<and> message = snd (paper_recv_text p)"
begin

lemma reject_account:
  assumes inv: "account_inv us s" and core: "oc_in_flight_orders core = oc_in_flight_orders (om_core (sy_manager s))"
    and u: "ou_status u = St_kRejected" and s': "sy_manager s' = reject_intent ports now u reason ((sy_manager s)\<lparr>om_core := core\<rparr>)"
    and waiting: "waiting_once s'" "waiting_tracked s'"
      "set (waiting_ids s') \<subseteq> set (waiting_ids s) \<union> {k. tracked (om_core (sy_manager s)) k = None}"
  shows "account_inv us s' \<and> om_transport (sy_manager s') = om_transport (sy_manager s)"
proof -
  let ?m = "(sy_manager s)\<lparr>om_core := core\<rparr>"
  obtain c' u' r where upd: "apply_update_transition now (om_core ?m) u = (c', u', r)" by (metis prod_cases3)
  note eff = reject_intent_effect [OF upd, of ports reason]
  have "quiet (om_core (sy_manager s)) (om_core (sy_manager s'))"
    using quiet_update [OF upd] u quiet_cong [OF core, of c'] by (simp add: s' eff)
  moreover have "net_position (led_core (om_sink (sy_manager s'))) k = net_position (led_core (om_sink (sy_manager s))) k" for k
    using ledger_flat [of u' "om_sink (sy_manager s)" k] forwarded_status [OF upd] u by (simp add: s' eff ledger)
  ultimately have "account_inv us s'"
    by (rule account_quiet [OF inv _ _ waiting]) (use inv in \<open>simp_all add: account_inv_def fills_expected_def\<close>)
  then show ?thesis by (simp add: s' eff)
qed

lemma send_account:
  assumes lib: "nl_lawful nl" and inv: "account_inv (inbox nl p) s" and p: "paper (om_transport (sy_manager s)) = Some p"
    and range: "\<And>k ord. tracked (om_core (sy_manager s)) k = Some ord \<Longrightarrow> in_i64 (ord_requested_qty_lots ord)"
    and s: "sy_local s = pending # rest" "s' = s\<lparr> sy_local := rest, sy_manager := send_intent ports (pi_intent pending) (sy_manager s) \<rparr>"
    and waiting: "waiting_once s'" "waiting_tracked s'"
      "set (waiting_ids s') \<subseteq> set (waiting_ids s) \<union> {k. tracked (om_core (sy_manager s)) k = None}"
  shows "\<exists>p'. paper (om_transport (sy_manager s')) = Some p' \<and> account_inv (inbox nl p') s'"
proof -
  let ?i = "pi_intent pending" and ?t = "om_transport (sy_manager s)"
  have same: "om_core (sy_manager s') = om_core (sy_manager s)" "om_sink (sy_manager s') = om_sink (sy_manager s)"
    by (simp_all add: s(2))
  have quiet: "quiet (om_core (sy_manager s)) (om_core (sy_manager s'))" by (rule quiet_same) (simp add: same)
  have calm: "account_inv us' s'" if "list_all plain us'" "filter is_fill us' = filter is_fill (inbox nl p)" for us'
    by (rule account_quiet [OF inv quiet _ waiting that]) (simp add: same)
  have plain: "list_all plain (inbox nl p)" using inv by (simp add: account_inv_def fills_expected_def)
  show ?thesis
  proof (cases "kalshi_build_request nl ?i")
    case (Inl e)
    then have "om_transport (sy_manager s') = ?t" by (simp add: s(2) send_intent_transport adapter kalshi_adapter_def)
    with p calm [OF plain] show ?thesis by simp
  next
    case (Inr payload)
    let ?p = "fst (paper_send_text nl p payload)"
    have p': "paper (om_transport (sy_manager s')) = Some ?p"
      using Inr sends [OF p, of payload] by (simp add: s(2) send_intent_transport adapter kalshi_adapter_def)
    obtain us where us: "inbox nl ?p = inbox nl p @ us" "answers ?i us"
      using request_answers [OF lib Inr prod.collapse [symmetric], of p] by blast
    show ?thesis
    proof (cases "filter is_fill us = []")
      case True
      with us plain have "account_inv (inbox nl ?p) s'" by (intro calm) (simp_all add: answers_def)
      with p' show ?thesis by blast
    next
      case False
      then obtain u where u: "list_all plain us" "filter is_fill us = [u]" "fill_of_intent ?i u" and place: "oi_action ?i = Act_kPlace"
        using us(2) by (auto simp: answers_def)
      have "?i \<in> set (waiting_intents s)" "order_creating ?i" "waiting_ids s = oi_client_order_id ?i # waiting_ids s'"
        using place by (simp_all add: s waiting_intents_def waiting_ids_def order_creating_def)
      from account_new_fill [OF inv this(1,3,2) same range waiting(1,2) u] p' us(1) show ?thesis by auto
    qed
  qed
qed

end

context paper_exchange
begin

lemma receive_account:
  assumes inv: "account_inv (inbox nl p) s" and p: "paper (om_transport (sy_manager s)) = Some p"
    and range: "\<And>k ord. tracked (om_core (sy_manager s)) k = Some ord \<Longrightarrow> in_i64 (ord_requested_qty_lots ord)"
    and pump: "pump_incoming_update ports now (sy_manager s) = (m', b)" and s': "s' = s\<lparr>sy_manager := m'\<rparr>"
    and waiting: "waiting_once s'" "waiting_tracked s'" "waiting_ids s' = waiting_ids s"
  shows "\<exists>p'. paper (om_transport (sy_manager s')) = Some p' \<and> account_inv (inbox nl p') s'"
proof -
  let ?m = "sy_manager s"
  obtain t' message where recv: "ot_recv_text (po_transport ports) (om_transport ?m) = (t', message)" by fastforce
  have p': "paper t' = Some (fst (paper_recv_text p))" and message: "message = snd (paper_recv_text p)"
    using receives [OF p recv] by simp_all
  have sub: "set (waiting_ids s') \<subseteq> set (waiting_ids s) \<union> {k. tracked (om_core ?m) k = None}" by (simp add: waiting)
  have calm: "account_inv us s'" if "account_inv us s" "quiet (om_core ?m) (om_core m')"
      "\<And>k. net_position (led_core (om_sink m')) k = net_position (led_core (om_sink ?m)) k" for us
    by (rule account_quiet [OF that(1) _ _ waiting(1,2) sub]) (use that in \<open>simp_all add: s' account_inv_def fills_expected_def\<close>)
  show ?thesis
  proof (cases message)
    case None
    then have "m' = ?m\<lparr>om_transport := t'\<rparr>" "fst (paper_recv_text p) = p"
      using pump recv message by (auto simp: pump_incoming_update_def paper_recv_text_def split: if_splits list.splits)
    with p' calm [OF inv quiet_same] show ?thesis by (simp add: s')
  next
    case (Some raw)
    then obtain rest where q: "pt_inbound_updates p = raw # rest" "fst (paper_recv_text p) = p\<lparr>pt_inbound_updates := rest\<rparr>"
      using message by (auto simp: paper_recv_text_def split: if_splits list.splits)
    let ?p = "p\<lparr>pt_inbound_updates := rest\<rparr>"
    have t: "om_transport m' = t'"
      using pump recv Some by (auto simp: pump_incoming_update_def Let_def forward_update_def split: option.splits prod.splits sum.splits)
    have "account_inv (inbox nl ?p) s'"
    proof (cases "opr_value (kalshi_parse_update nl raw)")
      case None
      then have "om_core m' = om_core ?m" "om_sink m' = om_sink ?m" "inbox nl ?p = inbox nl p"
        using pump recv Some q(1)
        by (auto simp: pump_incoming_update_def Let_def adapter kalshi_adapter_def inbox_def map_filter_simps)
      with calm [OF inv quiet_same] show ?thesis by simp
    next
      case u: (Some u)
      have us: "inbox nl p = u # inbox nl ?p" using q(1) u by (simp add: inbox_def map_filter_simps)
      obtain c' u' r where upd: "apply_update_transition now (om_core ?m) u = (c', u', r)" by (metis prod_cases3)
      have eff: "om_core m' = c'" "om_sink m' = (if r = Inr () then fst (PositionLedger_on_order_update (om_sink ?m) u') else om_sink ?m)"
        using pump recv Some u upd by (cases r; auto simp: pump_incoming_update_def Let_def adapter kalshi_adapter_def ledger)+
      have inv': "account_inv (inbox nl ?p) s" using inv us account_drop by metis
      show ?thesis
      proof (cases "is_fill u \<and> r = Inr ()")
        case True
        then show ?thesis
          using account_fill_booked [OF inv [unfolded us] _ ledger range, where now = now and c' = c' and u' = u' and s' = s'] upd waiting
          by (simp add: s' eff)
      next
        case False
        have "ou_status u \<in> {St_kAccepted, St_kRejected, St_kFilled}"
          using inv us by (simp add: account_inv_def fills_expected_def plain_def)
        then have "quiet (om_core ?m) c'" "ou_status u' \<notin> {St_kFilled, St_kPartiallyFilled} \<or> r \<noteq> Inr ()"
          using upd False quiet_update [OF upd] forwarded_status [OF upd]
          by (auto simp: is_fill_def elim!: apply_updateE intro: quiet_same)
        with calm [OF inv'] ledger_flat show ?thesis by (auto simp: eff)
      qed
    qed
    with p' q(2) t show ?thesis by (simp add: s')
  qed
qed

lemma account_step:
  assumes lib: "nl_lawful nl" and step: "om_step ports s s'" and p: "paper (om_transport (sy_manager s)) = Some p"
    and inv: "account_inv (inbox nl p) s"
    and range: "\<And>k ord. tracked (om_core (sy_manager s)) k = Some ord \<Longrightarrow> in_i64 (ord_requested_qty_lots ord)"
  shows "\<exists>p'. paper (om_transport (sy_manager s')) = Some p' \<and> account_inv (inbox nl p') s'"
proof -
  have waiting: "waiting_once s'" "waiting_tracked s'"
      "set (waiting_ids s') \<subseteq> set (waiting_ids s) \<union> {k. tracked (om_core (sy_manager s)) k = None}"
    using om_step_waiting_once [OF step] om_step_waiting [OF step] waiting_ids_grow [OF step] inv by (simp_all add: account_inv_def)
  have calm: "account_inv (inbox nl p) s'"
    if "quiet (om_core (sy_manager s)) (om_core (sy_manager s'))" "om_sink (sy_manager s') = om_sink (sy_manager s)"
    by (rule account_quiet [OF inv that(1) _ waiting]) (use inv that(2) in \<open>simp_all add: account_inv_def fills_expected_def\<close>)
  show ?thesis
    using step
  proof (cases rule: om_step.cases)
    case (submit now i m' r)
    have "om_transport m' = om_transport (sy_manager s)" "om_sink m' = om_sink (sy_manager s)"
      using submit(2) by (auto simp: om_submit_def Let_def split: if_splits prod.splits sum.splits)
    moreover have "quiet (om_core (sy_manager s)) (om_core m')"
      using submit(2) by (cases rule: submitE) (auto intro: quiet_same quiet_validate)
    ultimately show ?thesis using calm p submit(1) by simp
  next
    case swap
    then show ?thesis using calm [OF quiet_same] p by simp
  next
    case (receive now m' b)
    have "waiting_ids s' = waiting_ids s"
      using receive(3) by (cases rule: pumpE) (simp_all add: receive(1) waiting_ids_def waiting_intents_def)
    from receive_account [OF inv p range receive(3,1) waiting(1,2) this] show ?thesis .
  next
    case (process pending rest now)
    let ?m = "sy_manager s" and ?i = "pi_intent pending"
    have m': "sy_manager s' = process_intent ports now pending ?m" by (simp add: process(1))
    show ?thesis
    proof (rule process_intentE [of ?m pending ports now])
      fix decision core
      let ?u = "make_global_risk_reject_update now ?i decision"
      assume eval: "evaluate_global_risk (om_core ?m) ?i = (core, Some decision)" and proc: "process_intent ports now pending ?m =
          reject_intent ports now ?u (grd_reason_message decision) (?m\<lparr>om_core := core\<rparr>)"
      have "ou_status ?u = St_kRejected" by (simp add: make_global_risk_reject_update_def)
      from reject_account [OF inv evaluate_global_maps(1) [OF eval] this m' [unfolded proc] waiting] p show ?thesis by simp
    next
      fix f decision core
      let ?u = "make_portfolio_risk_reject_update now ?i decision"
      assume eval: "evaluate_portfolio_risk (om_core ?m) ?i (f (om_sink ?m) (oi_exchange ?i) (oi_market_ticker ?i)) = (core, Some decision)"
        and proc: "process_intent ports now pending ?m = reject_intent ports now ?u (prd_reason_message decision) (?m\<lparr>om_core := core\<rparr>)"
      have "ou_status ?u = St_kRejected" by (simp add: make_portfolio_risk_reject_update_def)
      from reject_account [OF inv evaluate_portfolio_maps(1) [OF eval] this m' [unfolded proc] waiting] p show ?thesis by simp
    next
      assume "process_intent ports now pending ?m = send_intent ports ?i ?m"
      with send_account [OF lib inv p range process(2) _ waiting] show ?thesis by (simp add: process(1))
    qed
  qed
qed

end

context paper_exchange
begin

lemma account_run:
  assumes lib: "nl_lawful nl" and run: "(om_step ports)\<^sup>*\<^sup>* s s'" and p: "paper (om_transport (sy_manager s)) = Some p"
    and inv: "account_inv (inbox nl p) s"
    and range: "\<And>k ord. tracked (om_core (sy_manager s')) k = Some ord \<Longrightarrow> in_i64 (ord_requested_qty_lots ord)"
  shows "\<exists>p'. paper (om_transport (sy_manager s')) = Some p' \<and> account_inv (inbox nl p') s'"
  using run range
proof (induction rule: rtranclp_induct)
  case base
  with p inv show ?case by blast
next
  case (step y z)
  have range: "in_i64 (ord_requested_qty_lots ord)" if "tracked (om_core (sy_manager y)) k = Some ord" for k ord
    using core_steps_shrink [OF om_step_core [OF step(2)] that] step(4) by (metis order_shrinks_def)
  with step(3) obtain p1 where "paper (om_transport (sy_manager y)) = Some p1" "account_inv (inbox nl p1) y" by blast
  from account_step [OF lib step(2) this range] show ?case .
qed

lemma account_start:
  assumes "oc_in_flight_orders (om_core m) = []" "om_outbound_queue m = []" "pt_inbound_updates p = []"
    and "\<And>k. net_position (led_core (om_sink m)) k = 0"
  shows "account_inv (inbox nl p) \<lparr> sy_manager = m, sy_local = [] \<rparr>"
  using assms
  by (simp add: account_inv_def waiting_once_def waiting_tracked_def waiting_ids_def waiting_intents_def inbox_def map_filter_simps
      fills_expected_def filled_done_def reconciled_def filled_position_def)

text \<open>From a start with nothing in flight the ledger and the filled orders agree for ever.\<close>

lemma positions_match:
  assumes "nl_lawful nl" "(om_step ports)\<^sup>*\<^sup>* \<lparr> sy_manager = m, sy_local = [] \<rparr> s" "paper (om_transport m) = Some p"
    and "oc_in_flight_orders (om_core m) = []" "om_outbound_queue m = []" "pt_inbound_updates p = []"
    and "\<And>k. net_position (led_core (om_sink m)) k = 0"
    and "\<And>k ord. tracked (om_core (sy_manager s)) k = Some ord \<Longrightarrow> in_i64 (ord_requested_qty_lots ord)"
  shows "net_position (led_core (om_sink (sy_manager s))) (Ex_kKalshi, market) = wrap_i64 (filled_position (om_core (sy_manager s)) market)"
proof -
  have p: "paper (om_transport (sy_manager \<lparr> sy_manager = m, sy_local = [] \<rparr>)) = Some p" using assms(3) by simp
  have "\<exists>p'. paper (om_transport (sy_manager s)) = Some p' \<and> account_inv (inbox nl p') s"
    by (rule account_run [OF assms(1,2) p account_start [OF assms(4-7)]]) (rule assms(8))
  then show ?thesis by (auto simp: account_inv_def reconciled_def)
qed

text \<open>An answer of the exchange that the core accepts: one receive takes it off the inbox and into the core.\<close>

lemma receive_answer:
  assumes p: "paper (om_transport (sy_manager s)) = Some p" "pt_connected p" "pt_inbound_updates p = raw # rest" "sy_local s = []"
    and u: "kalshi_parse_update nl raw = oms_parse_success u" "apply_update_transition now (om_core (sy_manager s)) u = (c', u', Inr ())"
  obtains s' where "om_step ports s s'" "om_core (sy_manager s') = c'" "sy_local s' = []"
    "paper (om_transport (sy_manager s')) = Some (p\<lparr>pt_inbound_updates := rest\<rparr>)"
proof -
  let ?m = "sy_manager s"
  obtain t' message where recv: "ot_recv_text (po_transport ports) (om_transport ?m) = (t', message)" by fastforce
  have t': "paper t' = Some (p\<lparr>pt_inbound_updates := rest\<rparr>)" "message = Some raw"
    using receives [OF p(1) recv] p(2,3) by (simp_all add: paper_recv_text_def)
  let ?m' = "forward_update ports u' (?m\<lparr> om_transport := t', om_receive_count := om_receive_count ?m + 1, om_core := c' \<rparr>)"
  have "pump_incoming_update ports now ?m = (?m', True)"
    using recv t'(2) u by (simp add: pump_incoming_update_def adapter kalshi_adapter_def oms_parse_success_def)
  then have "om_step ports s (s\<lparr>sy_manager := ?m'\<rparr>)" by (rule om_step.receive [OF p(4)])
  with t'(1) p(4) show thesis by (intro that [of "s\<lparr>sy_manager := ?m'\<rparr>"]) simp_all
qed

end

interpretation paper_alone: paper_exchange nl "paper_ports nl" Some for nl
  by unfold_locales (simp_all add: paper_ports_def paper_transport_def)

end
