(* ===== verification/Trader_Paper.thy ===== *)
theory Trader_Paper
  imports Trader_Limits Paper_Account
begin

text \<open>
  The trader of \<open>apps/trader/main.cpp\<close> in paper mode: its order transport is the paper exchange, so the account of the whole trader
  balances, for every strategy and every interleaving of its threads.
\<close>

section \<open>The transport of the trader as a paper exchange\<close>

fun paper_side :: "'n OmsTransport \<Rightarrow> PaperOrderTransport option" where
  "paper_side (Ot_paper p) = Some p"
| "paper_side (Ot_websocket w) = None"

lemma paper_side_Some: "paper_side t = Some p \<longleftrightarrow> t = Ot_paper p"
  by (cases t) auto

interpretation trader_paper: paper_exchange "pf_json pf" "trader_oms_ports pf" paper_side for pf
  by unfold_locales
    (auto simp: trader_oms_ports_def oms_transport_def on_left_def paper_transport_def Let_def paper_side_Some)

lemma paper_trader_shape:
  assumes "trader_start pf now_ms st argv = Started t" "tc_execution_mode (tr_config t) = Mode_kPaper"
  shows "tr_intent_sink t = Is_order_manager \<lparr> ois_order_manager = paper_oms pf (tr_config t), ois_last_error = '''' \<rparr>"
    and "tr_oms_local t = []"
proof -
  obtain cfg c payload where pre: "load_runtime_config pf argv = Inr cfg" "resolve_credentials pf cfg = Some c"
      "build_trader_startup_payload (pf_json pf) (tc_mode cfg) = Inr payload"
    using assms(1) by (auto simp: trader_start_def split: sum.splits option.splits)
  have "tr_config t = cfg"
    using assms(1) pre
    by (auto simp: trader_start_def start_pipeline_started started_trader_def split: sum.splits option.splits prod.splits bool.splits)
  with assms paper_trader_starts [OF pre(1) _ pre(2,3), of now_ms st]
  show "tr_intent_sink t = Is_order_manager \<lparr> ois_order_manager = paper_oms pf (tr_config t), ois_last_error = '''' \<rparr>" "tr_oms_local t = []"
    by (auto simp: started_trader_def intent_sink_of_def)
qed

lemma paper_oms_fields:
  "om_outbound_queue (paper_oms pf cfg) = []" "oc_in_flight_orders (om_core (paper_oms pf cfg)) = []"
  "om_sink (paper_oms pf cfg) = PositionLedger_new" "om_transport (paper_oms pf cfg) = Ot_paper example_paper"
  by (simp_all add: paper_oms_def om_start_def trader_order_manager_def OrderManager_new_def trader_oms_ports_def example_paper_def
      OrderManagerCore_new_def core_reset_def oms_transport_def on_left_def paper_transport_def paper_connect_def Let_def)

lemma flat_ledger: "net_position (led_core PositionLedger_new) k = 0"
  by (simp add: net_position_def position_or_new_def PositionLedger_new_def PositionLedgerCore_new_def MarketPositionState_default_def)

text \<open>
  C2. In paper mode the account balances at any time: for every strategy, every market data and every interleaving of
  the trader's threads, the net position the ledger records for a market is the sum, in 64-bit arithmetic, of the signed
  quantities of the orders that the order manager holds as filled in that market. So on the way from request to
  exchange, through the JSON text and back, no fill is lost, booked twice or booked to another market. The JSON library is
  assumed to read back what it writes, and the quantities requested to be 64-bit numbers.
\<close>

theorem paper_account_balances:
  assumes "nl_lawful (pf_json pf)" and "trader_start pf now_ms st argv = Started t0" and "tc_execution_mode (tr_config t0) = Mode_kPaper"
    and "(trader_step pf hash moved_from strategy)\<^sup>*\<^sup>* t0 t" and "tr_intent_sink t = Is_order_manager k"
    and "\<forall>e \<in> set (oc_in_flight_orders (om_core (ois_order_manager k))). in_i64 (ord_requested_qty_lots (snd e))"
  shows "net_position (led_core (om_sink (ois_order_manager k))) (Ex_kKalshi, market)
    = wrap_i64 (filled_position (om_core (ois_order_manager k)) market)"
proof -
  let ?m0 = "paper_oms pf (tr_config t0)" and ?s = "\<lparr> sy_manager = ois_order_manager k, sy_local = tr_oms_local t \<rparr>"
  note t0 = paper_trader_shape [OF assms(2,3)]
  have run: "(om_step (trader_oms_ports pf))\<^sup>*\<^sup>* \<lparr> sy_manager = ?m0, sy_local = [] \<rparr> ?s"
    using trader_steps_follow [OF assms(4)] by (simp add: t0 assms(5))
  have "net_position (led_core (om_sink (sy_manager ?s))) (Ex_kKalshi, market) = wrap_i64 (filled_position (om_core (sy_manager ?s)) market)"
    by (rule trader_paper.positions_match [OF assms(1) run])
      (use assms(6) map_of_SomeD in \<open>fastforce simp: paper_oms_fields flat_ledger\<close>)+
  then show ?thesis by simp
qed

section \<open>A paper trade\<close>

text \<open>A JSON library that knows a table of texts and documents.\<close>

definition list_nl :: "(string \<times> json) list \<Rightarrow> Nlohmann" where
  "list_nl docs = \<lparr> nl_parse = map_of docs, nl_parse_what = (\<lambda>s. ''''),
     nl_dump = (\<lambda>j. case find (\<lambda>d. snd d = j) docs of Some d \<Rightarrow> Inr (fst d) | None \<Rightarrow> Inl ''''),
     nl_get_unsigned = (\<lambda>j. case j of Json_integer n \<Rightarrow> Some (word_of_int n) | _ \<Rightarrow> None) \<rparr>"

lemma list_nl_lawful: "distinct (map fst docs) \<Longrightarrow> nl_lawful (list_nl docs)"
  by (auto simp: nl_lawful_def list_nl_def find_Some_iff intro: nth_mem split: option.splits) (metis nth_mem snd_conv)

definition paper_docs :: "(string \<times> json) list" where
  "paper_docs = [(''{}'', limited_json), (''h'', heartbeat_json (tc_mode limited_config)), (''1'', place_json example_intent 45),
     (''2'', ack_of example_intent example_paper), (''3'', fill_of example_intent 45 example_paper)]"

definition paper_platform :: "(nat, json) Platform" where
  "paper_platform = example_platform\<lparr>pf_json := list_nl paper_docs\<rparr>"

definition paper_trader :: "(nat, unit) Trader" where
  "paper_trader = started_trader paper_platform limited_config
     \<lparr> cd_key_id = ''trader.json'', cd_private_key_pem = ''trader.json'' \<rparr> (Some (paper_oms paper_platform limited_config)) ()
     (fst (pipeline_start (LivePipeline_new (kalshi_extract example_reader) (tc_pipeline limited_config))))"

lemma paper_docs_kind:
  "json_find limited_json ''runtime'' \<noteq> None" "json_find (heartbeat_json mode) ''runtime'' = None"
  "json_find (place_json i price) ''runtime'' = None" "json_find (ack_of i t) ''runtime'' = None" "json_find (fill_of i price t) ''runtime'' = None"
  "json_find (heartbeat_json mode) ''service'' \<noteq> None"
  "json_find (place_json i price) ''service'' = None" "json_find (ack_of i t) ''service'' = None" "json_find (fill_of i price t) ''service'' = None"
  by (simp_all add: limited_json_def heartbeat_json_def place_json_def ack_of_def paper_ack_json_def fill_of_def paper_fill_json_def)

lemma paper_docs_distinct:
  "limited_json \<noteq> heartbeat_json mode" "limited_json \<noteq> place_json i price" "limited_json \<noteq> ack_of i t" "limited_json \<noteq> fill_of i price t"
  "heartbeat_json mode \<noteq> place_json i price" "heartbeat_json mode \<noteq> ack_of i t" "heartbeat_json mode \<noteq> fill_of i price t"
  using paper_docs_kind by metis+

lemma paper_dumps:
  "nl_lawful (pf_json paper_platform)"
  "nl_dump (pf_json paper_platform) (heartbeat_json (tc_mode limited_config)) = Inr ''h''"
  "nl_dump (pf_json paper_platform) (place_json example_intent 45) = Inr ''1''"
  "nl_dump (pf_json paper_platform) (ack_of example_intent example_paper) = Inr ''2''"
  "nl_dump (pf_json paper_platform) (fill_of example_intent 45 example_paper) = Inr ''3''"
proof -
  show "nl_lawful (pf_json paper_platform)" by (simp add: paper_platform_def paper_docs_def list_nl_lawful)
qed (use example_docs_distinct paper_docs_distinct in \<open>simp_all add: paper_platform_def paper_docs_def list_nl_def\<close>)

lemma paper_load: "load_runtime_config paper_platform [] = Inr limited_config"
  using limited_parse
  by (simp add: load_runtime_config_def resolve_config_path_def get_env_def paper_platform_def example_platform_def list_nl_def paper_docs_def
      load_trader_config_from_file_def load_trader_config_from_json_def Let_def)

lemma paper_trader_started: "trader_start paper_platform 0 () [] = Started paper_trader"
proof -
  have c: "resolve_credentials paper_platform limited_config
      = Some \<lparr> cd_key_id = ''trader.json'', cd_private_key_pem = ''trader.json'' \<rparr>"
    by (simp add: resolve_credentials_def get_env_def paper_platform_def example_platform_def limited_config_def
        TraderRuntimeConfig_default_def)
  have p: "build_trader_startup_payload (pf_json paper_platform) (tc_mode limited_config) = Inr ''h''"
    by (simp add: build_trader_startup_payload_def build_heartbeat_json_def dump_message_def paper_dumps)
  have "pf_simdjson paper_platform = example_reader" "tc_execution_mode limited_config = Mode_kPaper"
    by (simp_all add: paper_platform_def example_platform_def limited_config_def)
  then show ?thesis by (simp add: paper_trader_starts [OF paper_load _ c p] paper_trader_def)
qed

lemma paper_trader_oms:
  fixes m :: "nat TraderOms"
  defines "m \<equiv> paper_oms paper_platform limited_config"
  shows "om_core m = example_new_core" "om_running m" "om_next_request_id m = 1"
    "tr_intent_sink paper_trader = Is_order_manager \<lparr> ois_order_manager = m, ois_last_error = '''' \<rparr>"
    "tr_oms_local paper_trader = []" "tr_config paper_trader = limited_config"
  by (simp_all add: m_def paper_oms_def om_start_def trader_order_manager_def OrderManager_new_def trader_oms_ports_def
      oms_transport_def on_left_def paper_transport_def paper_connect_def Let_def paper_trader_def started_trader_def
      intent_sink_of_def core_reset_def example_new_core_def OrderManagerCore_new_def limited_config_def)

text \<open>The only order of a core moves on.\<close>

lemma only_order_moves:
  assumes "oc_in_flight_orders c = [(ou_client_order_id u, ord)]" "to_in_flight_status (ou_status u) = Some s" "can_transition (ord_status ord) s"
  obtains c' u' where "apply_update_transition now c u = (c', u', Inr ())"
    "oc_in_flight_orders c' = [(ou_client_order_id u, fst (transition_order now s ord u))]"
proof -
  have tr: "tracked c (ou_client_order_id u) = Some ord" by (simp add: assms(1))
  then have find: "find_order c u = Some (ou_client_order_id u, ord)" by (simp add: find_order_def)
  obtain c' where c': "apply_update_transition now c u = (c', snd (transition_order now s ord u), Inr ())"
    by (rule apply_update_tracked [OF tr assms(2,3)])
  then have "oc_in_flight_orders c' = [(ou_client_order_id u, fst (transition_order now s ord u))]"
    by (cases rule: apply_updateE) (use find assms(1,2) in auto)
  with c' show thesis by (rule that)
qed

text \<open>The trader submits, sends, and receives the acknowledgement and the fill.\<close>

lemma paper_order_filled:
  obtains s where "(om_step (trader_oms_ports paper_platform))\<^sup>*\<^sup>* \<lparr> sy_manager = paper_oms paper_platform limited_config, sy_local = [] \<rparr> s"
    "\<exists>ord. oc_in_flight_orders (om_core (sy_manager s)) = [(''A'', ord)] \<and> ord_status ord = If_kFilled \<and>
       ord_market_ticker ord = ''MKT'' \<and> ord_side ord = Side_kBuy \<and> ord_requested_qty_lots ord = 10"
proof -
  let ?ports = "trader_oms_ports paper_platform" and ?m = "paper_oms paper_platform limited_config"
  let ?p = "fst (paper_send_text (pf_json paper_platform) example_paper ''1'')"
  let ?ack = "ack_update example_intent example_paper ''2''" and ?fill = "fill_update example_intent 45 example_paper ''3''"
  have build: "kalshi_build_request (pf_json paper_platform) example_intent = Inr ''1''"
    using paper_dumps(3)
    by (simp add: kalshi_build_request_def kalshi_supports_def build_place_request_def dump_request_def example_intent_defs)
  note sent = paper_send_place [OF paper_dumps(1) build example_intent_place _ _ paper_dumps(4,5)]
  note acked = parse_paper_ack [OF paper_dumps(1,4) example_intent_place(3)]
  have filled: "kalshi_parse_update (pf_json paper_platform) ''3'' = oms_parse_success ?fill"
    by (rule parse_paper_fill [OF paper_dumps(1,5) example_intent_place(3,4)]) (simp add: example_intent_defs)
  have ports: "ad_supports (po_adapter ?ports) example_intent" "po_snapshot_for ?ports = Some PositionLedger_snapshot_for"
    by (simp_all add: trader_oms_ports_def kalshi_adapter_def kalshi_supports_def example_intent_defs)
  obtain s1 where run1: "(om_step ?ports)\<^sup>*\<^sup>* \<lparr> sy_manager = ?m, sy_local = [] \<rparr> s1" and c1: "om_core (sy_manager s1) = example_core"
    and l1: "sy_local s1 = []" and t1: "om_transport (sy_manager s1) = (case ad_build_request (po_adapter ?ports) example_intent of
       Inl e \<Rightarrow> om_transport ?m | Inr payload \<Rightarrow> fst (ot_send_text (po_transport ?ports) (om_transport ?m) payload))"
    by (rule example_run [OF paper_trader_oms(1-3) paper_oms_fields(1,3) ports])
  have p1: "paper_side (om_transport (sy_manager s1)) = Some ?p"
    by (simp add: t1 trader_paper.adapter kalshi_adapter_def build trader_paper.sends paper_oms_fields(4))
  have up: "pt_connected ?p" "pt_inbound_updates ?p = [''2'', ''3'']" using sent by simp_all
  have ids: "ou_client_order_id ?ack = ''A''" "ou_client_order_id ?fill = ''A''"
    by (simp_all add: ack_update_def fill_update_def example_intent_defs)
  obtain c2 u2 where c2: "apply_update_transition 5 example_core ?ack = (c2, u2, Inr ())"
      "oc_in_flight_orders c2 = [(''A'', fst (transition_order 5 If_kAccepted (place_order 1 example_intent) ?ack))]"
    by (rule only_order_moves [of example_core ?ack "place_order 1 example_intent" If_kAccepted 5])
      (simp_all add: example_core_orders ids can_transition_def place_order_def, simp add: ack_update_def)
  obtain s2 where s2: "om_step ?ports s1 s2" "om_core (sy_manager s2) = c2" "sy_local s2 = []"
      "paper_side (om_transport (sy_manager s2)) = Some (?p\<lparr>pt_inbound_updates := [''3'']\<rparr>)"
    by (rule trader_paper.receive_answer [OF p1 up l1 acked]) (use c2(1) in \<open>simp_all add: c1\<close>)
  let ?ord = "fst (transition_order 5 If_kAccepted (place_order 1 example_intent) ?ack)"
  obtain c3 u3 where c3: "apply_update_transition 5 c2 ?fill = (c3, u3, Inr ())"
      "oc_in_flight_orders c3 = [(''A'', fst (transition_order 5 If_kFilled ?ord ?fill))]"
    by (rule only_order_moves [of c2 ?fill ?ord If_kFilled 5])
      (simp_all add: c2(2) ids can_transition_def, simp add: fill_update_def)
  obtain s3 where s3: "om_step ?ports s2 s3" "om_core (sy_manager s3) = c3"
    by (rule trader_paper.receive_answer [OF s2(4) _ _ s2(3) filled]) (use c3(1) up in \<open>simp_all add: s2(2)\<close>)
  have "ord_side (place_order 1 example_intent) = Side_kBuy" by (simp add: place_order_def example_intent_defs)
  then have "ord_side (fst (transition_order 5 If_kFilled ?ord ?fill)) = Side_kBuy" by (simp add: transition_order_side)
  moreover have "ou_market_ticker ?fill = ''MKT''" by (simp add: fill_update_def example_intent_defs)
  moreover have "ord_requested_qty_lots (place_order 1 example_intent) = 10" by (simp add: place_order_def example_intent_defs)
  ultimately show thesis
    by (intro that [of s3] rtranclp.rtrancl_into_rtrancl [OF rtranclp.rtrancl_into_rtrancl [OF run1 s2(1)] s3(1)])
      (simp add: s3(2) c3(2) transition_order_ticker)
qed

theorem paper_account_balances_witness:
  "\<exists>(t :: (nat, unit) Trader) k. (trader_step paper_platform length (\<lambda>e. e) noop_strategy)\<^sup>*\<^sup>* paper_trader t \<and>
     tr_intent_sink t = Is_order_manager k \<and> net_position (led_core (om_sink (ois_order_manager k))) (Ex_kKalshi, ''MKT'') = 10"
proof -
  let ?k = "\<lparr> ois_order_manager = paper_oms paper_platform limited_config, ois_last_error = '''' \<rparr>"
  obtain s ord where run: "(om_step (trader_oms_ports paper_platform))\<^sup>*\<^sup>*
      \<lparr> sy_manager = ois_order_manager ?k, sy_local = tr_oms_local paper_trader \<rparr> s"
    and ord: "oc_in_flight_orders (om_core (sy_manager s)) = [(''A'', ord)]" "ord_status ord = If_kFilled"
      "ord_market_ticker ord = ''MKT''" "ord_side ord = Side_kBuy" "ord_requested_qty_lots ord = 10"
    by (rule paper_order_filled) (auto simp: paper_trader_oms(5))
  let ?k' = "?k\<lparr>ois_order_manager := sy_manager s\<rparr>"
  let ?t = "paper_trader\<lparr> tr_intent_sink := Is_order_manager ?k', tr_oms_local := sy_local s \<rparr>"
  have steps: "(trader_step paper_platform length (\<lambda>e. e) noop_strategy)\<^sup>*\<^sup>* paper_trader ?t"
    by (rule oms_steps_in_trader [OF run paper_trader_oms(4)])
  have "net_position (led_core (om_sink (ois_order_manager ?k'))) (Ex_kKalshi, ''MKT'')
      = wrap_i64 (filled_position (om_core (ois_order_manager ?k')) ''MKT'')"
    by (rule paper_account_balances [OF paper_dumps(1) paper_trader_started _ steps])
      (use ord in \<open>simp_all add: paper_trader_oms(6) limited_config_def in_i64_def\<close>)
  moreover have "filled_position (om_core (ois_order_manager ?k')) ''MKT'' = 10"
    by (simp add: filled_position_def filled_qty_def ord)
  ultimately show ?thesis using steps by (intro exI [of _ ?t] exI [of _ ?k']) (simp add: wrap_i64_def)
qed

end
