(* ===== verification/Spec2Isabelle.thy ===== *)
theory Spec2Isabelle
  imports Market_Quiescence Spsc_Weak_Memory Trader_Process Trader_Paper
begin

text \<open>
  A verification of the trading engine under \<open>src/cpp\<close>.

  \<^bold>\<open>The program.\<close> A websocket feed receives market data of an exchange. The feed runner
  pushes each message into a slot of a preallocated frame pool and queues its handle on a
  single-producer single-consumer ring; the main loop pumps the handles, a router decodes the market of
  a frame and hashes it to a shard, and the worker of that shard parses the frame, applies it to the
  order book of its market and hands the event to a strategy. Strategies emit order intents, which
  pass a shard risk gate and go to the order manager. Its worker passes them through a global and
  a portfolio risk gate, sends them through an exchange adapter and a transport (a websocket, or a
  paper exchange inside the process), and feeds the updates that come back through the state machine of
  the in-flight orders to the position ledger, which in turn supplies the snapshots for the gates.

  \<^bold>\<open>The theories\<close>, each with the files it models:
  \<^item> \<open>Trading_Prelude\<close>: integers of fixed width, C++ division, association lists for hash maps.
  \<^item> \<open>Market_Types\<close>: \<open>internal/market_types.hpp\<close>, \<open>normalized_event.hpp\<close>, \<open>oms_types.hpp\<close>.
  \<^item> \<open>Risk_Gates\<close>: the gates of \<open>oms/global_risk_gate\<close>, \<open>oms/portfolio_risk_gate\<close> and
    \<open>strategy/shard_risk_gate\<close>, with the locale \<open>risk_gate\<close> for what they share.
  \<^item> \<open>Order_Manager_Core\<close>: \<open>oms/order_manager_core\<close>; the maps of in-flight orders, the submission
    policy, the state machine of an order, the risk snapshot. Its runs are \<open>core_step\<close>.
  \<^item> \<open>Position_Ledger\<close>: \<open>oms/position_ledger_core\<close> and \<open>position_ledger\<close>; the locales \<open>order_event_sink\<close> and
    \<open>exposure_provider\<close> are what the order manager asks of an event sink and of a snapshot provider.
  \<^item> \<open>Book_Store\<close>: \<open>shards/book_store\<close>; the abstract book is \<open>book_view\<close>.
  \<^item> \<open>Spsc_Queue\<close>: \<open>ingest/spsc_frame_queue.hpp\<close>, once operation by operation against the locale
    \<open>bounded_fifo\<close>, once as \<open>spsc_step\<close>, whose steps are the single atomic accesses.
  \<^item> \<open>Spsc_Weak_Memory\<close>: this ring and the ring of \<open>router/shard_dispatch\<close> with the memory orders of the code; runs
    are \<open>weak_step\<close>, the refinement of the frame queue to \<open>spsc_step\<close> is \<open>weak_abs\<close>.
  \<^item> \<open>Frame_Pool\<close>: \<open>ingest/frame_pool\<close> and \<open>ws_message_sink\<close>.
  \<^item> \<open>Shard_Router\<close>: \<open>decode/dispatch\<close>, \<open>router/router\<close>, \<open>router/shard_dispatch\<close>; locale \<open>shard_dispatch\<close>.
  \<^item> \<open>Shard_Worker\<close>: \<open>shards/shard\<close> and \<open>shards/message_parser\<close>.
  \<^item> \<open>Live_Pipeline\<close>: \<open>pipeline/live_pipeline\<close>; runs are \<open>pipeline_step\<close>.
  \<^item> \<open>Json_Text\<close>: decimal text and what the program uses of its two JSON libraries.
  \<^item> \<open>Kalshi_Market_Data\<close>: \<open>parsers/exchanges/kalshi/parser\<close> and \<open>decode/exchanges/kalshi/extractor\<close>.
  \<^item> \<open>Market_Data_Path\<close>: feed, main loop and shard workers together; runs are \<open>market_run\<close>.
  \<^item> \<open>Market_Quiescence\<close>: the rounds of these threads that find work, \<open>drain_step\<close>, and the measure \<open>backlog\<close> that ends them.
  \<^item> \<open>Order_Manager\<close>: \<open>oms/order_manager\<close>; runs are \<open>om_step\<close>, the worker by itself is \<open>om_run\<close>; the locale \<open>oms_event_sink\<close> extends the
    contract of the event sink, \<open>order_transport\<close> is the contract of a transport.
  \<^item> \<open>Order_Exposure\<close>: the orders that are live at the exchange in a run of the order manager, \<open>live_orders\<close>, against the
    limits of the global gate, and the intents that still wait, \<open>waiting_ids\<close>.
  \<^item> \<open>Strategy_Runner\<close>: \<open>strategy/strategy_runner\<close> and the sinks, handlers and providers beside it;
    locale \<open>intent_sink\<close>.
  \<^item> \<open>Kalshi_Orders\<close>: \<open>adapters/exchanges/kalshi/oms_adapter\<close> and \<open>oms/paper_order_transport\<close>.
  \<^item> \<open>Paper_Account\<close>: the order manager with the adapter and the paper exchange; the fills under way are \<open>inbox\<close>, and
    the locale \<open>paper_exchange\<close> is what the account needs of the transport.
  \<^item> \<open>Auth_Signer\<close>: \<open>adapters/exchanges/kalshi/auth_signer\<close>, over the OpenSSL functions it calls.
  \<^item> \<open>Ws_Feed\<close>: \<open>adapters/ws\<close>, the websocket adapters and \<open>oms/ws_order_transport\<close>;
    the locale \<open>ws_transport\<close> gives the contract of an order transport.
  \<^item> \<open>Trader_Config\<close>: \<open>config/trader_config\<close>.
  \<^item> \<open>Trader_App\<close>: \<open>apps/trader/main.cpp\<close>, \<open>core/app\<close>, \<open>engine/runtime\<close>; the running trader is \<open>trader_step\<close>.
  \<^item> \<open>Trader_Limits\<close>: the running trader as a client of its order manager, \<open>oms_follows\<close>, and what follows for its exposure.
  \<^item> \<open>Trader_Paper\<close>: the running trader in paper mode and its account.
  \<^item> \<open>Trader_Process\<close>: \<open>main\<close> of both executables from arguments to exit code with its log
    (\<open>adapters/logging\<close>, \<open>apps/logger\<close>); runs are \<open>trader_main\<close>.
  \<^item> This theory: properties that span the order manager, the gates and the ledger.

  \<^bold>\<open>Conventions.\<close> A class is a record of its members, a method a function from the record to the
  record and the result; members keep their names behind a short prefix. A pure virtual interface is a record of
  functions over a state of its own, and a locale states the contract its clients rely on; each locale is interpreted
  on the definitions that model the implementing classes. A method that returns \<open>bool\<close> with an error
  out-parameter returns a sum; an exception is a value of type \<open>Thrown\<close>. 64-bit counters and
  sequence numbers are words, prices and quantities are integers with the wrap of 64 bits written
  out, \<open>size_t\<close> is a natural number. The clock, the hash function, the network, OpenSSL, the file system, the
  environment and the JSON libraries are arguments; what is assumed of a library is stated as
  \<open>nl_lawful\<close> and \<open>sj_lawful\<close>. Mutexes make an operation one step; threads are interleaved steps, and
  the two rings between threads are also treated under release and acquire semantics.
  Loops end by structural recursion, except the replay of pending deltas, which has a termination
  proof; the endless loops of the threads are their rounds, composed by the step relations, so there is no
  fuel in the model.

  \<^bold>\<open>What is shown.\<close>
  \<^item> Orders: the core stays consistent in every run, final states are final, only intents that both gates passed
    are sent, no order is sent twice, every intent is accounted for and the worker leaves none behind; the limits hold with
    the order counted in and, for the portfolio limits, also in the ledger after the fill of a single order. Over all runs
    of the trader what is live at the exchange stays within the configured number and quantity.
  \<^item> Ledger: consistency, exact cash accounting of every fill, the average price between its bounds. In paper mode
    the ledger is in every run what the filled orders add up to.
  \<^item> Market data: replayed deltas equal live ones, sequence numbers increase, a desynchronised book
    waits for a snapshot; the queue, the pool and the dispatch lose, duplicate and reorder nothing;
    over all interleavings the book of a market is the result of its own accepted frames, and when nothing
    more arrives the threads come to rest with everything in the books; the memory orders of the rings suffice.
  \<^item> Exchange: quantities, endpoints and requests are read back as written, parsed events are
    well formed, extractor and parser agree; the feed delivers in order and recovers; a paper trade runs through to the ledger;
    the signer makes the complete sequence of calls and releases every handle on every path.
  \<^item> Program: the outcomes of a start, the invariants of the running trader, that it moves the order manager only by the
    steps of the latter, shutdown, safe configurations, the
    agreement of exit code and log.
  \<^item> Behaviour that looks unintended is stated as well: repeated fills count twice, an unsupported
    cancel rejects the order, a rejected snapshot clears the book, orders under way escape the portfolio limits. The limits per
    market of the global gate are not stated over runs: an update may move an order to another market.

  \<^bold>\<open>Not modelled.\<close> The inside of OpenSSL, of Boost.Beast, of spdlog and of the JSON libraries, the position of
  simdjson's on-demand iterator, the idle sleeps and reconnect delays. The atomic flags and counters, which
  order no other data, are treated as sequentially consistent. Getters that return a member are the selectors of the records.
\<close>

section \<open>Exposure limits from gate to ledger\<close>

lemma evaluate_portfolio_risk_pass:
  "snd (evaluate_portfolio_risk c i s) = None \<longleftrightarrow> prd_allow (portfolio_evaluate (oc_portfolio_risk_config c) i s)"
  by (simp add: evaluate_portfolio_risk_def Let_def)

lemma signed_qty_matches_fill:
  assumes "signed_intent_qty i \<noteq> 0"
  shows "side_to_signed_qty (oi_side i) (oi_qty_lots i) = signed_intent_qty i" and "0 < oi_qty_lots i"
  using assms by (cases "oi_side i"; simp add: signed_intent_qty_def split: if_splits)+

text \<open>Under the range hypothesis the arithmetic of the gate is exact.\<close>

lemma gate_arithmetic_exact:
  assumes "\<bar>n\<bar> \<le> g" "0 \<le> g" "g + \<bar>q\<bar> < 2 ^ 63"
  shows "gate_abs_qty (i64_add n q) = \<bar>n + q\<bar>"
    and "i64_add (i64_sub g (gate_abs_qty n)) (gate_abs_qty (i64_add n q)) = g - \<bar>n\<bar> + \<bar>n + q\<bar>"
    and "in_i64 (n + q)" and "in_i64 q"
proof -
  have r: "in_i64 (n + q)" "in_i64 (- (n + q))" "in_i64 (- n)" "in_i64 (g - \<bar>n\<bar>)"
    "in_i64 (g - \<bar>n\<bar> + \<bar>n + q\<bar>)" "in_i64 q"
    using assms by (auto simp: in_i64_def)
  then show "in_i64 (n + q)" "in_i64 q" by simp_all
  show abs: "gate_abs_qty (i64_add n q) = \<bar>n + q\<bar>"
    using r(1,2) by (simp add: i64_add_def wrap_in_range gate_abs_eq)
  show "i64_add (i64_sub g (gate_abs_qty n)) (gate_abs_qty (i64_add n q)) = g - \<bar>n\<bar> + \<bar>n + q\<bar>"
    using r(3,4,5) by (simp add: abs gate_abs_eq) (simp add: i64_add_def i64_sub_def wrap_in_range)
qed

text \<open>
  C10. The portfolio limits hold in the ledger, not only in the gate: when the portfolio gate passes
  an intent on the ledger's own snapshot and the order is then filled completely, the net
  position of the market and the gross position of the exchange recorded by the ledger
  afterwards are within the limits that are switched on. The gross position plus the order is
  assumed to fit 63 bits.
\<close>

theorem portfolio_limits_hold_after_fill:
  assumes "snd (evaluate_portfolio_risk c i (portfolio_risk_snapshot l (oi_exchange i) (oi_market_ticker i))) = None"
    and "order_creating i"
    and "apply_fill l u f = (l', Inr ())" and "fill_key u f = (oi_exchange i, oi_market_ticker i)"
    and "of_side f = oi_side i" and "of_fill_qty_lots f = oi_qty_lots i"
    and "gross_position l (oi_exchange i) + \<bar>oi_qty_lots i\<bar> < 2 ^ 63"
  shows "(prc_max_abs_net_position_per_market (oc_portfolio_risk_config c) > 0 \<longrightarrow>
      \<bar>net_position l' (oi_exchange i, oi_market_ticker i)\<bar> \<le> prc_max_abs_net_position_per_market (oc_portfolio_risk_config c)) \<and>
    (prc_max_abs_position_gross_global (oc_portfolio_risk_config c) > 0 \<longrightarrow>
      gross_position l' (oi_exchange i) \<le> prc_max_abs_position_gross_global (oc_portfolio_risk_config c))"
proof -
  let ?ex = "oi_exchange i" and ?m = "oi_market_ticker i" and ?cfg = "oc_portfolio_risk_config c"
  let ?n = "net_position l (?ex, ?m)" and ?g = "gross_position l ?ex" and ?q = "signed_intent_qty i"
  let ?snap = "portfolio_risk_snapshot l ?ex ?m"
  have pass: "prd_allow (portfolio_evaluate ?cfg i ?snap)" using assms(1) by (simp add: evaluate_portfolio_risk_pass)
  note gate = portfolio_allow_creating [OF assms(2) pass]
  have q: "?q = side_to_signed_qty (of_side f) (of_fill_qty_lots f)" and pos: "0 < oi_qty_lots i"
    using signed_qty_matches_fill [OF gate(2)] assms(5,6) by simp_all
  have rng: "in_i64 (oi_qty_lots i)" using pos assms(7) gross_position_nonneg [of l ?ex] by (simp add: in_i64_def)
  then have "\<bar>?q\<bar> = \<bar>oi_qty_lots i\<bar>" using signed_intent_qty_eq [OF rng] gate(2) by (auto split: if_splits)
  then have sum: "?g + \<bar>?q\<bar> < 2 ^ 63" using assms(7) by simp
  note exact = gate_arithmetic_exact [OF net_position_le_gross gross_position_nonneg sum]
  have key: "ou_exchange u = ?ex" "(if of_market_ticker f = '''' then ou_market_ticker u else of_market_ticker f) = ?m"
    using assms(4) by (simp_all add: fill_key_def)
  have moves: "net_position l' (?ex, ?m) = ?n + ?q" "gross_position l' ?ex = ?g - \<bar>?n\<bar> + \<bar>?n + ?q\<bar>"
    using fill_moves_position [OF assms(3) key(2) [symmetric] q exact(4)] exact(3) by (simp_all add: key(1))
  have "prs_net_position_market ?snap = ?n" "prs_gross_position_global ?snap = ?g"
    using snapshot_gross_exact [of l ?ex ?m] sum by (simp_all add: portfolio_risk_snapshot_eq)
  with gate(3,4) show ?thesis using exact(2) unfolding moves by (simp add: exact(1))
qed

lemma example_portfolio_pass:
  "snd (evaluate_portfolio_risk example_core example_intent
     (portfolio_risk_snapshot example_ledger (oi_exchange example_intent) (oi_market_ticker example_intent))) = None"
proof -
  have "pl_positions example_ledger = [((Ex_kKalshi, ''MKT''), position_or_new example_ledger (Ex_kKalshi, ''MKT''))]"
    unfolding example_ledger_position
    by (simp add: example_ledger_def ledger_run_def ledger_on_order_update_def apply_fill_def
        example_fill_defs PositionLedgerCore_new_def MarketPositionState_default_def stamp_fill_def
        open_position_def i64_add_def wrap_i64_def Let_def)
  then show ?thesis
    by (simp add: portfolio_risk_snapshot_eq net_position_def example_ledger_position abs_qty_def
        evaluate_portfolio_risk_pass example_core_eq track_def portfolio_evaluate_def
        portfolio_decision_defs signed_intent_qty_def gate_abs_qty_def example_core_defs
        i64_add_def i64_sub_def wrap_i64_def Let_def)
qed

theorem portfolio_limits_hold_after_fill_witness:
  "\<bar>net_position (fst (apply_fill example_ledger (example_fill_update Side_kBuy 10 45) (example_fill Side_kBuy 10 45)))
     (Ex_kKalshi, ''MKT'')\<bar> \<le> 40"
proof -
  let ?u = "example_fill_update Side_kBuy 10 45" and ?f = "example_fill Side_kBuy 10 45"
  have "apply_fill example_ledger ?u ?f = (fst (apply_fill example_ledger ?u ?f), Inr ())"
    using example_fill_applied [of Side_kBuy 10 45] by (simp add: prod_eq_iff)
  moreover have "gross_position example_ledger Ex_kKalshi + 10 < 2 ^ 63"
    by (simp add: gross_position_def example_ledger_def ledger_run_def ledger_on_order_update_def apply_fill_def
        example_fill_defs PositionLedgerCore_new_def MarketPositionState_default_def stamp_fill_def
        open_position_def i64_add_def wrap_i64_def Let_def)
  ultimately show ?thesis
    using portfolio_limits_hold_after_fill [OF example_portfolio_pass, of ?u ?f]
    by (simp add: order_creating_def fill_key_def example_fill_defs example_core_eq track_def example_core_defs)
qed

section \<open>Repeated fills\<close>

text \<open>
  C38. A fill that the exchange repeats is counted twice: for an order that is already filled, the state machine takes the
  step from filled to filled, the update is forwarded to the ledger, and the position moves again
  by the signed quantity of the fill. Nothing between the transport and the ledger recognises the
  repetition.
\<close>

theorem repeated_fill_moves_position:
  fixes m :: "('t, PositionLedger) OrderManager"
  assumes "po_on_order_update ports = PositionLedger_on_order_update"
    and "ot_recv_text (po_transport ports) (om_transport m) = (t, Some payload)"
    and "opr_value (ad_parse_update (po_adapter ports) payload) = Some u"
    and "tracked (om_core m) (ou_client_order_id u) = Some ord" "ord_status ord = If_kFilled"
    and "ou_status u = St_kFilled" "ou_data u = Upd_Fill f"
    and "of_side f \<noteq> Side_kUnknown" "of_market_ticker f \<noteq> ''''" "0 < of_fill_qty_lots f" "in_i64 (of_fill_qty_lots f)"
    and "q = side_to_signed_qty (of_side f) (of_fill_qty_lots f)" "k = (ou_exchange u, of_market_ticker f)"
    and "in_i64 (net_position (led_core (om_sink m)) k + q)"
  shows "\<exists>m' ord'. pump_incoming_update ports now m = (m', True) \<and>
    tracked (om_core m') (ou_client_order_id u) = Some ord' \<and> ord_status ord' = If_kFilled \<and>
    net_position (led_core (om_sink m')) k = net_position (led_core (om_sink m)) k + q"
proof -
  let ?u = "snd (transition_order now If_kFilled ord u)" and ?l = "led_core (om_sink m)"
  obtain c' where c': "apply_update_transition now (om_core m) u = (c', ?u, Inr ())"
      "tracked c' (ou_client_order_id u) = Some (fst (transition_order now If_kFilled ord u))"
    using apply_update_tracked [of "om_core m" u ord If_kFilled now] assms(4-6) by (auto simp: can_transition_def)
  have u: "?u = u"
    using assms(7-9) by (simp add: transition_order_forwarded enriched_data_def enrich_fill_def)
  let ?m' = "forward_update ports u (m\<lparr>om_transport := t, om_receive_count := om_receive_count m + 1, om_core := c'\<rparr>)"
  have pump: "pump_incoming_update ports now m = (?m', True)"
    using assms(2,3) c'(1) by (simp add: pump_incoming_update_def u)
  have "snd (apply_fill ?l u f) = Inr ()" using apply_fill_applied assms(8-11) by simp
  then have fill: "apply_fill ?l u f = (led_core (om_sink ?m'), Inr ())"
    using assms(1,6,7)
    by (cases "apply_fill ?l u f") (simp add: PositionLedger_on_order_update_def ledger_on_order_update_def)
  have q: "in_i64 q" using assms(8,11,12) by (cases "of_side f") simp_all
  have "net_position (led_core (om_sink ?m')) k = net_position ?l k + q"
    using fill_moves_position(1) [OF fill, of "of_market_ticker f" q] q assms(9,12-14) by simp
  then show ?thesis using pump c'(2) by (intro exI [of _ ?m'] exI [of _ "fst (transition_order now If_kFilled ord u)"]) simp
qed

definition repeating_ports :: "(string list, PositionLedger) OmsPorts" where
  "repeating_ports = example_ports\<lparr>
     po_adapter := (po_adapter example_ports)\<lparr>ad_parse_update := (\<lambda>payload. oms_parse_success (example_fill_update Side_kBuy 10 45))\<rparr>,
     po_transport := (po_transport example_ports)\<lparr>ot_recv_text := (\<lambda>t. (t, Some ''fill''))\<rparr> \<rparr>"

definition filled_manager :: "(string list, PositionLedger) OrderManager" where
  "filled_manager = example_manager\<lparr> om_sink := PositionLedger_new, om_core := (om_core example_manager)\<lparr>oc_in_flight_orders :=
     [(ou_client_order_id (example_fill_update Side_kBuy 10 45), (place_order 1 example_intent)\<lparr>ord_status := If_kFilled\<rparr>)]\<rparr> \<rparr>"

lemma new_ledger_flat: "net_position (led_core PositionLedger_new) k = 0"
  by (simp add: net_position_def position_or_new_def PositionLedger_new_def PositionLedgerCore_new_def MarketPositionState_default_def)

theorem repeated_fill_moves_position_witness:
  "net_position (led_core (om_sink (fst (pump_incoming_update repeating_ports 5 filled_manager)))) (Ex_kKalshi, ''MKT'') = 10"
  using repeated_fill_moves_position [of repeating_ports filled_manager "om_transport filled_manager" "''fill''"
      "example_fill_update Side_kBuy 10 45" "(place_order 1 example_intent)\<lparr>ord_status := If_kFilled\<rparr>" "example_fill Side_kBuy 10 45" 10
      "(Ex_kKalshi, ''MKT'')" 5]
  by (auto simp: repeating_ports_def filled_manager_def new_ledger_flat example_ports_def oms_parse_success_def example_fill_defs
      in_i64_def)

section \<open>Orders still under way\<close>

text \<open>
  C39. The portfolio gate looks at the ledger only, not at orders still under way: when two intents for one market wait
  together and each of them alone passes the gates, one drain hands both to the adapter and the transport, whatever their
  sum is; and when both are filled the position is the old one plus both quantities, over the limit or not.
\<close>

theorem pending_orders_escape_portfolio_limit:
  fixes m :: "('t, PositionLedger) OrderManager"
  assumes "om_outbound_queue m = [p1, p2]"
    and "\<And>p. p \<in> {p1, p2} \<Longrightarrow> snd (evaluate_global_risk (om_core m) (pi_intent p)) = None \<and> portfolio_check ports m (pi_intent p) = None"
    and "apply_fill (led_core (om_sink m)) u1 f1 = (l1, Inr ())" and "apply_fill l1 u2 f2 = (l2, Inr ())"
    and "fill_key u1 f1 = k" and "fill_key u2 f2 = k"
    and "q1 = side_to_signed_qty (of_side f1) (of_fill_qty_lots f1)" and "q2 = side_to_signed_qty (of_side f2) (of_fill_qty_lots f2)"
    and "list_all in_i64 [q1, q2, net_position (led_core (om_sink m)) k + q1, net_position (led_core (om_sink m)) k + q1 + q2]"
  shows "fst (drain_outbound_intents ports now m)
      = send_intent ports (pi_intent p2) (send_intent ports (pi_intent p1) (m\<lparr>om_outbound_queue := []\<rparr>)) \<and>
    net_position l2 k = net_position (led_core (om_sink m)) k + q1 + q2"
proof -
  let ?l = "led_core (om_sink m)" and ?m = "m\<lparr>om_outbound_queue := []\<rparr>"
  have sends: "process_intent ports now p m' = send_intent ports (pi_intent p) m'"
    if "p \<in> {p1, p2}" "om_core m' = om_core m" "om_sink m' = om_sink m" for p m'
    using assms(2) [OF that(1)] that(2,3)
    by (rule_tac process_intentE [of m' p ports now]) (auto simp: portfolio_check_def)
  have "fst (drain_outbound_intents ports now m) = process_intent ports now p2 (process_intent ports now p1 ?m)"
    using assms(1) by (simp add: drain_outbound_intents_def)
  then have "fst (drain_outbound_intents ports now m) = send_intent ports (pi_intent p2) (send_intent ports (pi_intent p1) ?m)"
    by (simp add: sends)
  moreover have "net_position l1 k = net_position ?l k + q1"
    using fill_moves_position(1) [OF assms(3) refl assms(7)] assms(5,9) by (auto simp: fill_key_def)
  moreover have "net_position l2 k = net_position l1 k + q2"
    using fill_moves_position(1) [OF assms(4) refl assms(8)] assms(6,9) calculation(2) by (auto simp: fill_key_def)
  ultimately show ?thesis by simp
qed

text \<open>With a limit of 40 lots, two orders for 30 lots each that wait together end in a position of 60.\<close>

definition burst_intent :: "ClientOrderId \<Rightarrow> OrderIntent" where
  "burst_intent k = example_intent\<lparr> oi_client_order_id := k, oi_qty_lots := 30 \<rparr>"

definition burst_manager :: "(string list, PositionLedger) OrderManager" where
  "burst_manager = example_manager\<lparr>
     om_core := OrderManagerCore_new (rc_oms_global RiskConfig_default) example_portfolio_config,
     om_outbound_queue := [\<lparr> pi_request_id = 1, pi_intent = burst_intent ''A'' \<rparr>, \<lparr> pi_request_id = 2, pi_intent = burst_intent ''B'' \<rparr>] \<rparr>"

definition burst_ledger :: PositionLedgerCore where
  "burst_ledger = fst (apply_fill (fst (apply_fill PositionLedgerCore_new (example_fill_update Side_kBuy 30 45) (example_fill Side_kBuy 30 45)))
     (example_fill_update Side_kBuy 30 45) (example_fill Side_kBuy 30 45))"

lemma burst_passes:
  "snd (evaluate_global_risk (om_core burst_manager) (burst_intent k)) = None"
  "portfolio_check example_ports burst_manager (burst_intent k) = None"
  by (simp_all add: burst_manager_def burst_intent_def evaluate_global_risk_pass global_allow_iff OrderManagerCore_new_def RiskConfig_default_def)
    (simp add: portfolio_check_def example_ports_def evaluate_portfolio_risk_pass portfolio_evaluate_def PositionLedger_snapshot_for_def
      PositionLedger_new_def PositionLedgerCore_new_def portfolio_risk_snapshot_def Let_def example_manager_core signed_intent_qty_def
      gate_abs_qty_def portfolio_decision_defs example_core_defs i64_add_def i64_sub_def i64_neg_def wrap_i64_def)

lemma burst_fill_applied:
  "apply_fill l (example_fill_update Side_kBuy 30 45) (example_fill Side_kBuy 30 45)
   = (fst (apply_fill l (example_fill_update Side_kBuy 30 45) (example_fill Side_kBuy 30 45)), Inr ())"
  using apply_fill_applied [of "example_fill Side_kBuy 30 45" l "example_fill_update Side_kBuy 30 45"]
  by (simp add: prod_eq_iff example_fill_defs in_i64_def)

theorem pending_orders_escape_portfolio_limit_witness:
  "om_transport (fst (drain_outbound_intents example_ports 5 burst_manager)) = [''A'', ''B''] \<and>
   net_position burst_ledger (Ex_kKalshi, ''MKT'') = 60 \<and>
   prc_max_abs_net_position_per_market (oc_portfolio_risk_config (om_core burst_manager)) = 40"
proof -
  let ?u = "example_fill_update Side_kBuy 30 45" and ?f = "example_fill Side_kBuy 30 45" and ?m = burst_manager
  have sink: "om_sink ?m = PositionLedger_new" "om_transport ?m = []" by (simp_all add: burst_manager_def example_manager_core)
  have flat: "net_position (led_core (om_sink ?m)) k = 0" for k by (simp add: sink new_ledger_flat)
  have led: "led_core PositionLedger_new = PositionLedgerCore_new" by (simp add: PositionLedger_new_def)
  have send: "om_transport (send_intent example_ports i m) = om_transport m @ [oi_client_order_id i]" for i m
    by (simp add: send_intent_transport) (simp add: example_ports_def)
  have queue: "om_outbound_queue ?m = [\<lparr> pi_request_id = 1, pi_intent = burst_intent ''A'' \<rparr>, \<lparr> pi_request_id = 2, pi_intent = burst_intent ''B'' \<rparr>]"
    by (simp add: burst_manager_def)
  have fill: "fill_key ?u ?f = (Ex_kKalshi, ''MKT'')" "side_to_signed_qty (of_side ?f) (of_fill_qty_lots ?f) = 30"
    by (simp_all add: fill_key_def example_fill_defs)
  have ids: "oi_client_order_id (burst_intent k) = k" for k by (simp add: burst_intent_def)
  have pass: "snd (evaluate_global_risk (om_core ?m) (pi_intent p)) = None \<and> portfolio_check example_ports ?m (pi_intent p) = None"
    if "p \<in> {\<lparr> pi_request_id = 1, pi_intent = burst_intent ''A'' \<rparr>, \<lparr> pi_request_id = 2, pi_intent = burst_intent ''B'' \<rparr>}" for p
    using that by (auto simp: burst_passes)
  have range: "list_all in_i64 [30, 30, net_position (led_core (om_sink ?m)) (Ex_kKalshi, ''MKT'') + 30,
      net_position (led_core (om_sink ?m)) (Ex_kKalshi, ''MKT'') + 30 + 30]" by (simp add: flat in_i64_def)
  note res = pending_orders_escape_portfolio_limit [OF queue pass burst_fill_applied burst_fill_applied fill(1) fill(1)
      fill(2) [symmetric] fill(2) [symmetric] range, of 5]
  have "prc_max_abs_net_position_per_market (oc_portfolio_risk_config (om_core ?m)) = 40"
    by (simp add: burst_manager_def OrderManagerCore_new_def example_portfolio_config_def)
  then show ?thesis
    using res flat [of "(Ex_kKalshi, ''MKT'')"] by (simp add: led send ids sink burst_ledger_def)
qed

end
